theory Spec2Isabelle
  imports Main "HOL-Library.Word"
begin

section \<open>The wavefront-proxy driver (cmd/wavefront-proxy/proxy.go) and the agent's self-report\<close>

text \<open>
  A shallow embedding of the two source files: the command-line driver
  (flag checking, listener start-up, shutdown, the build number) and the agent's
  \<open>buildAgentMetrics\<close>. Go strings are byte strings, here \<open>string\<close>; Go's \<open>int\<close> is
  taken at its 64-bit width (\<open>go_int\<close>), where \<open>+\<close> and \<open>*\<close> wrap around. Calls that
  leave the two files (the listener's \<open>Start\<close> and \<open>Stop\<close>, the agent's \<open>InitAgent\<close>,
  the logger) are recorded as events of a trace, in program order, and are taken to
  return to their caller; what happens inside them is not part of this development.
  What the operating system or another package answers (the parsed flags,
  \<open>config.LoadConfig\<close>, \<open>os.Hostname\<close>, \<open>os.Create\<close>, \<open>http.ListenAndServe\<close>, the
  signals delivered) is read from an environment.
\<close>

subsection \<open>Go library functions the driver calls\<close>

type_synonym go_int = "64 word"
type_synonym int64 = "64 word"

datatype num_error = ErrSyntax | ErrRange

definition isDigit :: "char \<Rightarrow> bool" where
  "isDigit c \<longleftrightarrow> 48 \<le> (of_char c :: nat) \<and> (of_char c :: nat) \<le> 57"

definition digitVal :: "char \<Rightarrow> nat" where
  "digitVal c = (of_char c :: nat) - 48"

definition maxUint64 :: nat where
  "maxUint64 = 18446744073709551615"

text \<open>
  \<open>strconv.ParseUint(s, 10, 64)\<close>: the bytes are read from the left; a byte that is
  no decimal digit ends the scan with a syntax error and the value 0; a digit that
  would take the value past 64 bits ends it with a range error and the largest value,
  before the bytes after it are looked at.
\<close>

fun ParseUint_loop :: "nat \<Rightarrow> string \<Rightarrow> nat \<times> num_error option" where
  "ParseUint_loop n [] = (n, None)"
| "ParseUint_loop n (c # cs) =
     (if \<not> isDigit c then (0, Some ErrSyntax)
      else if n \<ge> maxUint64 div 10 + 1 then (maxUint64, Some ErrRange)
      else if n * 10 + digitVal c > maxUint64 then (maxUint64, Some ErrRange)
      else ParseUint_loop (n * 10 + digitVal c) cs)"

definition ParseUint :: "string \<Rightarrow> nat \<times> num_error option" where
  "ParseUint s = (if s = [] then (0, Some ErrSyntax) else ParseUint_loop 0 s)"

text \<open>
  \<open>strconv.ParseInt(s, 10, 0)\<close> with a 64-bit \<open>int\<close>: an optional sign, then
  \<open>ParseUint\<close>; a syntax error gives 0, a magnitude that does not fit gives the
  nearest bound together with a range error.
\<close>

definition ParseInt :: "string \<Rightarrow> int \<times> num_error option" where
  "ParseInt s =
     (if s = [] then (0, Some ErrSyntax)
      else
        let neg = (hd s = CHR ''-'');
            s' = (if hd s = CHR ''+'' \<or> hd s = CHR ''-'' then tl s else s)
        in case ParseUint s' of
             (un, Some ErrSyntax) \<Rightarrow> (0, Some ErrSyntax)
           | (un, _) \<Rightarrow>
               if \<not> neg \<and> un \<ge> 9223372036854775808
                 then (9223372036854775807, Some ErrRange)
               else if neg \<and> un > 9223372036854775808
                 then (- 9223372036854775808, Some ErrRange)
               else (if neg then - int un else int un, None))"

text \<open>\<open>strconv.Atoi\<close>: \<open>ParseInt(s, 10, 0)\<close> converted to \<open>int\<close>.\<close>

definition Atoi :: "string \<Rightarrow> go_int \<times> num_error option" where
  "Atoi s = (case ParseInt s of (i, err) \<Rightarrow> (word_of_int i, err))"

text \<open>
  \<open>strings.Split(s, sep)\<close> for a separator of one byte (the driver passes \<open>","\<close> and
  \<open>"."\<close>): the pieces between the separators, one more than there are separators.
\<close>

fun Split :: "string \<Rightarrow> char \<Rightarrow> string list" where
  "Split [] sep = [[]]"
| "Split (c # cs) sep =
     (if c = sep then [] # Split cs sep
      else (case Split cs sep of
              w # ws \<Rightarrow> (c # w) # ws
            | [] \<Rightarrow> [[c]]))"

subsection \<open>The build number\<close>

fun buildVersion_loop :: "go_int \<Rightarrow> string list \<Rightarrow> go_int" where
  "buildVersion_loop version [] = version"
| "buildVersion_loop version (seg # rest) =
     buildVersion_loop (version * 1000 + fst (Atoi seg)) rest"

definition buildVersion :: "string \<Rightarrow> int64" where
  "buildVersion v =
     (let s = Split v CHR ''.'';
          version = buildVersion_loop 0 s
      in if length s = 2 then version * 1000 else version * 1000000)"

subsection \<open>Flags, configuration file, listeners\<close>

text \<open>
  The values behind the package-level flag pointers (\<open>*fTokenPtr\<close> and so on). The
  driver only ever re-points a pointer at a fresh string or at a field of the loaded
  configuration and never writes through one, so the pointed-to values are the state.
\<close>

record flag_values =
  fCfgPtr :: string
  fTokenPtr :: string
  fServerPtr :: string
  fHostnamePtr :: string
  fWavefrontPortsPtr :: string
  fOpenTSDBPortsPtr :: string
  fFlushThreadsPtr :: go_int
  fFlushIntervalPtr :: go_int
  fFlushMaxPointsPtr :: go_int
  fMaxBufferSizePtr :: go_int
  fIdFilePtr :: string
  fLogFilePtr :: string
  fPprofAddr :: string
  fVersionPtr :: bool

text \<open>The fields of \<open>config.ProxyConfig\<close> that \<open>parseCfg\<close> reads.\<close>

record ProxyConfig =
  Token :: string
  Server :: string
  Hostname :: string
  PushListenerPorts :: string
  OpenTSDBPorts :: string
  FlushThreads :: go_int
  PushFlushInterval :: go_int
  PushFlushMaxPoints :: go_int
  PushMemoryBufferLimit :: go_int
  IdFile :: string
  LogFile :: string
  PprofAddr :: string

datatype DecoderBuilder = GraphiteBuilder | OpenTSDBBuilder

text \<open>
  \<open>&points.DefaultPointListener{Port: port, Builder: builder}\<close>: every evaluation of
  the literal allocates a new object; \<open>Addr\<close> is its identity.
\<close>

record DefaultPointListener =
  Addr :: nat
  Port :: go_int
  Builder :: DecoderBuilder

text \<open>
  The struct literal \<open>api.WavefrontAPIService\<close> of \<open>main\<close> (its \<open>Hostname\<close>,
  \<open>Token\<close> and \<open>Version\<close> fields carry a prefix here, the names being taken by the
  configuration record).
\<close>

record WavefrontAPIService =
  ServerURL :: string
  AgentID :: string
  ApiHostname :: string
  ApiToken :: string
  ApiVersion :: string

text \<open>The two constants of package \<open>api\<close> that the driver passes on.\<close>

datatype api_const = FormatGraphiteV2 | GraphiteBlockWorkUnit

text \<open>
  The kinds of metric the go-metrics registry holds. Only a counter's count and the
  build gauge's value are read or written by the code modelled here.
\<close>

datatype metric =
    Counter int64
  | Gauge int64
  | GaugeFloat64
  | Healthcheck
  | Histogram
  | Meter
  | Timer

datatype Signal = Interrupt | OtherSignal

text \<open>What the process does to the outside, in program order.\<close>

datatype event =
    Log string
  | Usage
  | SetOutput string
  | GoListenAndServe string
  | InitAgent string WavefrontAPIService string
  | Start DefaultPointListener go_int go_int go_int go_int api_const api_const
      WavefrontAPIService
  | Stop DefaultPointListener

text \<open>
  The state of the process: the flag values, the \<open>listeners\<close> slice, the metrics
  registry, the calls made so far and, once \<open>main\<close> has launched the goroutine that
  serves pprof, whether that goroutine is going to end the process: \<open>Some (n, err)\<close>
  when its \<open>log.Fatal\<close> prints \<open>err\<close> and exits after the \<open>n\<close>-th call of the trace.
\<close>

record proxy_state =
  flags :: flag_values
  listeners :: "DefaultPointListener list"
  registry :: "(string \<times> metric) list"
  trace :: "event list"
  pprof_fatal :: "(nat \<times> string) option"

text \<open>
  What the run reads from outside the two files: the flags as \<open>flag.Parse\<close> left
  them, the answer of \<open>config.LoadConfig\<close> (an error message or the configuration),
  of \<open>os.Hostname\<close>, of \<open>os.Create\<close> (\<open>Some\<close> error or success), the link-time strings,
  \<open>agent.CreateOrGetAgentId\<close>, the metrics already in \<open>metrics.DefaultRegistry\<close>
  when \<open>main\<close> starts and the signals that arrive on the channel of
  \<open>waitForShutdown\<close>. \<open>http.ListenAndServe\<close> serves until it fails: the answer is
  \<open>None\<close> when it never returns and \<open>Some (n, err)\<close> when it returns the error
  \<open>err\<close> after the main goroutine has made \<open>n\<close> more calls, or after fewer if
  the main goroutine is then waiting for a signal that does not come.
  \<open>early_interrupt\<close> is \<open>Some n\<close> when an interrupt reaches the process after its
  \<open>n\<close>-th call.
\<close>

record environment =
  args :: flag_values
  LoadConfig :: "string \<Rightarrow> string + ProxyConfig"
  os_Hostname :: "string + string"
  os_Create :: "string \<Rightarrow> string option"
  version :: string
  commit :: string
  branch :: string
  tag :: string
  CreateOrGetAgentId :: "string \<Rightarrow> string"
  DefaultRegistry :: "(string \<times> metric) list"
  signals :: "Signal list"
  ListenAndServe :: "string \<Rightarrow> (nat \<times> string) option"
  early_interrupt :: "nat option"

text \<open>
  A step either returns (\<open>Continue\<close>), ends the process through \<open>os.Exit\<close> or
  \<open>log.Fatal\<close> (\<open>Exit\<close> with the code), panics, or waits for ever on the signal
  channel (\<open>Blocked\<close>).
\<close>

datatype outcome =
    Continue proxy_state
  | Exit int proxy_state
  | Panic proxy_state
  | Blocked proxy_state

definition andThen :: "outcome \<Rightarrow> (proxy_state \<Rightarrow> outcome) \<Rightarrow> outcome" where
  "andThen r f = (case r of Continue st \<Rightarrow> f st | _ \<Rightarrow> r)"

fun state_of :: "outcome \<Rightarrow> proxy_state" where
  "state_of (Continue st) = st"
| "state_of (Exit c st) = st"
| "state_of (Panic st) = st"
| "state_of (Blocked st) = st"

definition emit :: "event \<Rightarrow> proxy_state \<Rightarrow> proxy_state" where
  "emit e st = st\<lparr>trace := trace st @ [e]\<rparr>"

definition log_Fatal :: "string \<Rightarrow> proxy_state \<Rightarrow> outcome" where
  "log_Fatal msg st = Exit 1 (emit (Log msg) st)"

subsection \<open>The driver\<close>

definition parseCfg :: "environment \<Rightarrow> string \<Rightarrow> proxy_state \<Rightarrow> outcome" where
  "parseCfg env filename st =
     (case LoadConfig env filename of
        Inl err \<Rightarrow> log_Fatal (''Error loading config file: '' @ err) st
      | Inr proxyConfig \<Rightarrow>
          Continue (st\<lparr>flags := (flags st)
            \<lparr>fTokenPtr := Token proxyConfig,
             fServerPtr := Server proxyConfig,
             fHostnamePtr := Hostname proxyConfig,
             fWavefrontPortsPtr := PushListenerPorts proxyConfig,
             fOpenTSDBPortsPtr := OpenTSDBPorts proxyConfig,
             fFlushThreadsPtr := FlushThreads proxyConfig,
             fFlushIntervalPtr := PushFlushInterval proxyConfig,
             fFlushMaxPointsPtr := PushFlushMaxPoints proxyConfig,
             fMaxBufferSizePtr := PushMemoryBufferLimit proxyConfig,
             fIdFilePtr := IdFile proxyConfig,
             fLogFilePtr := LogFile proxyConfig,
             fPprofAddr := PprofAddr proxyConfig\<rparr>\<rparr>))"

fun stopListeners_loop :: "DefaultPointListener list \<Rightarrow> proxy_state \<Rightarrow> proxy_state" where
  "stopListeners_loop [] st = st"
| "stopListeners_loop (listener # rest) st = stopListeners_loop rest (emit (Stop listener) st)"

definition stopListeners :: "proxy_state \<Rightarrow> proxy_state" where
  "stopListeners st = stopListeners_loop (listeners st) st"

text \<open>
  \<open>waitForShutdown\<close>: each turn of the loop receives one signal from the channel; with
  no signal left to receive the process stays blocked in the \<open>select\<close>.
\<close>

fun waitForShutdown :: "Signal list \<Rightarrow> proxy_state \<Rightarrow> outcome" where
  "waitForShutdown [] st = Blocked st"
| "waitForShutdown (sig # rest) st =
     (if sig = Interrupt
      then Exit 0 (stopListeners (emit (Log ''Stopping Wavefront Proxy'') st))
      else waitForShutdown rest st)"

definition checkRequiredFlag :: "string \<Rightarrow> string \<Rightarrow> proxy_state \<Rightarrow> outcome" where
  "checkRequiredFlag val msg st =
     (if val = [] then Exit 1 (emit Usage (emit (Log msg) st)) else Continue st)"

definition checkHostname :: "environment \<Rightarrow> proxy_state \<Rightarrow> outcome" where
  "checkHostname env st =
     (if fHostnamePtr (flags st) = []
      then (case os_Hostname env of
              Inl err \<Rightarrow> log_Fatal ''Error resolving hostname'' st
            | Inr hostname \<Rightarrow> Continue (st\<lparr>flags := (flags st)\<lparr>fHostnamePtr := hostname\<rparr>\<rparr>))
      else Continue st)"

definition setupLogger :: "environment \<Rightarrow> proxy_state \<Rightarrow> outcome" where
  "setupLogger env st =
     (if fLogFilePtr (flags st) \<noteq> []
      then (case os_Create env (fLogFilePtr (flags st)) of
              Some err \<Rightarrow> Panic st
            | None \<Rightarrow> Continue (emit (SetOutput (fLogFilePtr (flags st))) st))
      else Continue st)"

definition getVersion :: "environment \<Rightarrow> string" where
  "getVersion env = (if tag env = [] then version env else tag env)"

definition checkFlags :: "environment \<Rightarrow> proxy_state \<Rightarrow> outcome" where
  "checkFlags env st =
     (if fVersionPtr (flags st)
      then Exit 0 (emit (Log (''wavefront-proxy v'' @ getVersion env @ '' (git: '' @
                               branch env @ '' '' @ commit env @ '')'')) st)
      else
        andThen (andThen (andThen (andThen
          (if fCfgPtr (flags st) \<noteq> [] then parseCfg env (fCfgPtr (flags st)) st
           else Continue st)
          (\<lambda>st. checkRequiredFlag (fTokenPtr (flags st)) ''Missing token'' st))
          (\<lambda>st. checkRequiredFlag (fServerPtr (flags st)) ''Missing server'' st))
          (checkHostname env))
          (setupLogger env))"

definition startPointListener ::
    "DefaultPointListener \<Rightarrow> WavefrontAPIService \<Rightarrow> proxy_state \<Rightarrow> proxy_state" where
  "startPointListener listener service st =
     emit (Start listener (fFlushThreadsPtr (flags st)) (fFlushIntervalPtr (flags st))
             (fMaxBufferSizePtr (flags st)) (fFlushMaxPointsPtr (flags st))
             FormatGraphiteV2 GraphiteBlockWorkUnit service) st"

fun startPointListeners_loop ::
    "WavefrontAPIService \<Rightarrow> DecoderBuilder \<Rightarrow> string list \<Rightarrow> proxy_state \<Rightarrow> outcome" where
  "startPointListeners_loop service builder [] st = Continue st"
| "startPointListeners_loop service builder (portStr # rest) st =
     (case Atoi portStr of
        (port, Some err) \<Rightarrow> log_Fatal (''Invalid port '' @ portStr) st
      | (port, None) \<Rightarrow>
          let listener = \<lparr>Addr = length (listeners st), Port = port, Builder = builder\<rparr>;
              st1 = st\<lparr>listeners := listeners st @ [listener]\<rparr>
          in startPointListeners_loop service builder rest
               (startPointListener listener service st1))"

definition startPointListeners ::
    "WavefrontAPIService \<Rightarrow> string \<Rightarrow> DecoderBuilder \<Rightarrow> proxy_state \<Rightarrow> outcome" where
  "startPointListeners service portsList builder st =
     startPointListeners_loop service builder (Split portsList CHR '','') st"

definition startListeners :: "WavefrontAPIService \<Rightarrow> proxy_state \<Rightarrow> outcome" where
  "startListeners service st =
     andThen
       (if fWavefrontPortsPtr (flags st) \<noteq> []
        then startPointListeners service (fWavefrontPortsPtr (flags st)) GraphiteBuilder st
        else Continue st)
       (\<lambda>st. if fOpenTSDBPortsPtr (flags st) \<noteq> []
             then startPointListeners service (fOpenTSDBPortsPtr (flags st)) OpenTSDBBuilder st
             else Continue st)"

definition initAgent ::
    "string \<Rightarrow> string \<Rightarrow> WavefrontAPIService \<Rightarrow> proxy_state \<Rightarrow> proxy_state" where
  "initAgent agentID serverURL service st = emit (InitAgent agentID service serverURL) st"

text \<open>
  \<open>metrics.GetOrRegisterGauge(name, nil)\<close>: the metric registered under the name if
  there is one, a new gauge registered under it otherwise; the result is asserted to
  be a gauge, which panics (\<open>None\<close>) on a metric of another kind. \<open>Update\<close> then sets
  the gauge's value.
\<close>

definition GetOrRegisterGauge ::
    "string \<Rightarrow> (string \<times> metric) list \<Rightarrow> (string \<times> metric) list option" where
  "GetOrRegisterGauge name reg =
     (case map_of reg name of
        None \<Rightarrow> Some (reg @ [(name, Gauge 0)])
      | Some (Gauge v) \<Rightarrow> Some reg
      | Some _ \<Rightarrow> None)"

definition Update :: "string \<Rightarrow> int64 \<Rightarrow> (string \<times> metric) list \<Rightarrow> (string \<times> metric) list" where
  "Update name v reg = map (\<lambda>(n, m). if n = name then (n, Gauge v) else (n, m)) reg"

definition apiService :: "environment \<Rightarrow> string \<Rightarrow> proxy_state \<Rightarrow> WavefrontAPIService" where
  "apiService env agentID st =
     \<lparr>ServerURL = fServerPtr (flags st),
      AgentID = agentID,
      ApiHostname = fHostnamePtr (flags st),
      ApiToken = fTokenPtr (flags st),
      ApiVersion = version env\<rparr>"

definition initial :: "environment \<Rightarrow> proxy_state" where
  "initial env =
     \<lparr>flags = args env, listeners = [], registry = DefaultRegistry env, trace = [],
      pprof_fatal = None\<rparr>"

text \<open>
  The goroutine of \<open>main\<close> that serves pprof logs a line and calls
  \<open>http.ListenAndServe\<close>; when that returns, \<open>log.Fatal\<close> prints the error and ends
  the process with status 1, wherever the main goroutine stands. The two goroutines
  share no variable that either of them writes after the \<open>go\<close> statement, so up to
  that moment the main goroutine runs as it would alone. The line the goroutine logs
  first is unordered with the calls of the main goroutine: the trace records the
  launch, with that line, as the one event \<open>GoListenAndServe\<close>. \<open>go_pprof\<close> is the
  \<open>go\<close> statement.
\<close>

definition go_pprof :: "environment \<Rightarrow> proxy_state \<Rightarrow> proxy_state" where
  "go_pprof env st =
     (let st1 = emit (GoListenAndServe (fPprofAddr (flags st))) st
      in st1\<lparr>pprof_fatal :=
               (case ListenAndServe env (fPprofAddr (flags st)) of
                  None \<Rightarrow> None
                | Some (n, err) \<Rightarrow> Some (length (trace st1) + n, err))\<rparr>)"

text \<open>A call that starts a listener.\<close>

definition is_Start :: "event \<Rightarrow> bool" where
  "is_Start ev = (case ev of Start listener a b c d f w service \<Rightarrow> True | _ \<Rightarrow> False)"

text \<open>
  The state in which the goroutine's \<open>log.Fatal\<close> ends the process after the \<open>n\<close>-th
  call of a run of the main goroutine that would have reached \<open>st\<close>: the calls made
  are the first \<open>n\<close> and the line \<open>log.Fatal\<close> prints; the \<open>listeners\<close> slice, which
  only grows, by one listener before each \<open>Start\<close> call, holds the listeners of the
  \<open>Start\<close> calls made.
\<close>

definition fatal_at :: "nat \<Rightarrow> string \<Rightarrow> proxy_state \<Rightarrow> proxy_state" where
  "fatal_at n err st =
     st\<lparr>trace := take n (trace st) @ [Log err],
        listeners := take (length (filter is_Start (take n (trace st)))) (listeners st)\<rparr>"

text \<open>
  A stretch of the main goroutine's run with the pprof goroutine beside it: when the
  goroutine's \<open>log.Fatal\<close> falls before the last call of the stretch the process ends
  there; when it falls later and the main goroutine waits for ever, the process ends
  while it waits; otherwise the stretch is run to its end.
\<close>

definition with_pprof :: "outcome \<Rightarrow> outcome" where
  "with_pprof r =
     (case pprof_fatal (state_of r) of
        None \<Rightarrow> r
      | Some (n, err) \<Rightarrow>
          if n < length (trace (state_of r)) then Exit 1 (fatal_at n err (state_of r))
          else (case r of Blocked st \<Rightarrow> Exit 1 (emit (Log err) st) | _ \<Rightarrow> r))"

text \<open>\<open>main\<close> up to and including \<open>startListeners\<close>, and the whole of \<open>main\<close>.\<close>

definition startup :: "environment \<Rightarrow> outcome" where
  "startup env =
     andThen (checkFlags env (initial env)) (\<lambda>st.
       let st1 = emit (Log (''Starting Wavefront Proxy Version '' @ version env)) st
       in case GetOrRegisterGauge ''build.version'' (registry st1) of
            None \<Rightarrow> Panic st1
          | Some reg \<Rightarrow>
              let st2 = st1\<lparr>registry := Update ''build.version'' (buildVersion (version env)) reg\<rparr>;
                  st3 = (if fPprofAddr (flags st2) \<noteq> [] then go_pprof env st2 else st2);
                  agentID = CreateOrGetAgentId env (fIdFilePtr (flags st3));
                  service = apiService env agentID st3
              in with_pprof
                   (startListeners service
                      (initAgent agentID (fServerPtr (flags st3)) service st3)))"

definition main :: "environment \<Rightarrow> outcome" where
  "main env = andThen (startup env) (\<lambda>st. with_pprof (waitForShutdown (signals env) st))"

text \<open>
  The process under the Go runtime's handling of signals (package \<open>os/signal\<close>): as
  long as no channel is registered for it, an interrupt makes the program exit.
  \<open>waitForShutdown\<close> is the first to call \<open>signal.Notify\<close>, after start-up has made
  its last call; an interrupt that reaches the process while start-up has calls left
  to make ends it on the spot.
\<close>

datatype ending = Main outcome | Killed_by_Interrupt "event list"

definition process :: "environment \<Rightarrow> ending" where
  "process env =
     (case early_interrupt env of
        None \<Rightarrow> Main (main env)
      | Some n \<Rightarrow>
          if n < length (trace (state_of (startup env)))
          then Killed_by_Interrupt (take n (trace (state_of (startup env))))
          else Main (main env))"

subsection \<open>The agent's self-report (package agent)\<close>

datatype agent_log = CounterLine string int64 | ErrorLine string

text \<open>
  The callback passed to \<open>Each\<close>, run on the registered metrics in the order the
  registry hands them out: the type switch has the one case \<open>metrics.Counter\<close>.
\<close>

fun Each_agentMetrics ::
    "(string \<times> metric) list \<Rightarrow> (string \<rightharpoonup> int64) \<times> agent_log list \<Rightarrow>
       (string \<rightharpoonup> int64) \<times> agent_log list" where
  "Each_agentMetrics [] acc = acc"
| "Each_agentMetrics ((name, i) # rest) (agentMetrics, lg) =
     (case i of
        Counter count \<Rightarrow>
          Each_agentMetrics rest (agentMetrics(name \<mapsto> count), lg @ [CounterLine name count])
      | _ \<Rightarrow> Each_agentMetrics rest (agentMetrics, lg))"

text \<open>
  \<open>json.Marshal\<close> is a parameter: it answers an error or the bytes. On an error the
  bytes returned are \<open>nil\<close>, the empty slice.
\<close>

definition buildAgentMetrics ::
    "((string \<rightharpoonup> int64) \<Rightarrow> string + string) \<Rightarrow> (string \<times> metric) list \<Rightarrow>
       string \<times> agent_log list" where
  "buildAgentMetrics Marshal reg =
     (case Each_agentMetrics reg (Map.empty, []) of
        (agentMetrics, lg) \<Rightarrow>
          (case Marshal agentMetrics of
             Inl err \<Rightarrow> ([], lg @ [ErrorLine err])
           | Inr b \<Rightarrow> (b, lg)))"

section \<open>Properties\<close>

subsection \<open>Notions used to state the properties\<close>

text \<open>
  A decimal integer as \<open>Atoi\<close> reads it: an optional sign and at least one digit.
  \<open>decimal\<close> is the number a string of digits denotes.
\<close>

definition isDecimal :: "string \<Rightarrow> bool" where
  "isDecimal s =
     (let digits = (if s \<noteq> [] \<and> (hd s = CHR ''+'' \<or> hd s = CHR ''-'') then tl s else s)
      in digits \<noteq> [] \<and> list_all isDigit digits)"

definition decimal :: "string \<Rightarrow> nat" where
  "decimal s = foldl (\<lambda>n c. n * 10 + digitVal c) 0 s"

text \<open>
  The map from name to count that holds every counter of a registry and nothing
  else, and the lines the callback logs.
\<close>

definition counters_of :: "(string \<times> metric) list \<Rightarrow> (string \<rightharpoonup> int64)" where
  "counters_of reg = (\<lambda>name. case map_of reg name of Some (Counter count) \<Rightarrow> Some count | _ \<Rightarrow> None)"

primrec counter_lines :: "(string \<times> metric) list \<Rightarrow> agent_log list" where
  "counter_lines [] = []"
| "counter_lines (entry # rest) =
     (case snd entry of
        Counter count \<Rightarrow> CounterLine (fst entry) count # counter_lines rest
      | _ \<Rightarrow> counter_lines rest)"

text \<open>
  The listeners whose \<open>Start\<close> and \<open>Stop\<close> a trace records, in the order of the calls;
  the listeners that a list of port entries gives rise to, the first of them allocated
  as object \<open>n\<close>; the \<open>Start\<close> call the driver makes for a listener; a state after a
  run of such calls.
\<close>

primrec starts_of :: "event list \<Rightarrow> DefaultPointListener list" where
  "starts_of [] = []"
| "starts_of (ev # rest) =
     (case ev of
        Start listener a b c d f w service \<Rightarrow> listener # starts_of rest
      | _ \<Rightarrow> starts_of rest)"

primrec stops_of :: "event list \<Rightarrow> DefaultPointListener list" where
  "stops_of [] = []"
| "stops_of (ev # rest) =
     (case ev of
        Stop listener \<Rightarrow> listener # stops_of rest
      | _ \<Rightarrow> stops_of rest)"

definition new_listeners :: "nat \<Rightarrow> DecoderBuilder \<Rightarrow> string list \<Rightarrow> DefaultPointListener list" where
  "new_listeners n builder entries =
     map (\<lambda>(i, portStr). \<lparr>Addr = i, Port = fst (Atoi portStr), Builder = builder\<rparr>)
       (zip [n ..< n + length entries] entries)"

definition start_event :: "WavefrontAPIService \<Rightarrow> flag_values \<Rightarrow> DefaultPointListener \<Rightarrow> event" where
  "start_event service fl listener =
     Start listener (fFlushThreadsPtr fl) (fFlushIntervalPtr fl) (fMaxBufferSizePtr fl)
       (fFlushMaxPointsPtr fl) FormatGraphiteV2 GraphiteBlockWorkUnit service"

definition with_started ::
    "WavefrontAPIService \<Rightarrow> DefaultPointListener list \<Rightarrow> proxy_state \<Rightarrow> proxy_state" where
  "with_started service ls st =
     st\<lparr>listeners := listeners st @ ls,
        trace := trace st @ map (start_event service (flags st)) ls\<rparr>"

text \<open>
  The services a trace hands to the agent and to the listeners; the statement of
  \<open>checkFlags\<close> that loads the configuration file, and the flag values in force
  after it (the effective configuration); the entries of a port list as
  \<open>startListeners\<close> reads it, an empty list having none; the listeners both port
  lists give rise to; the entries of both lists in the order \<open>startListeners\<close> reads
  them, and those of a list of entries that come before the first one \<open>Atoi\<close>
  rejects; a run in which no pprof server is configured or the one configured serves
  for good; and a step that neither starts nor stops a listener nor hands out a
  service.
\<close>

primrec services_of :: "event list \<Rightarrow> WavefrontAPIService list" where
  "services_of [] = []"
| "services_of (ev # rest) =
     (case ev of
        InitAgent agentID service serverURL \<Rightarrow> service # services_of rest
      | Start listener a b c d f w service \<Rightarrow> service # services_of rest
      | _ \<Rightarrow> services_of rest)"

definition afterConfig :: "environment \<Rightarrow> proxy_state \<Rightarrow> outcome" where
  "afterConfig env st =
     (if fCfgPtr (flags st) \<noteq> [] then parseCfg env (fCfgPtr (flags st)) st else Continue st)"

definition effective :: "environment \<Rightarrow> flag_values" where
  "effective env = flags (state_of (afterConfig env (initial env)))"

definition port_entries :: "string \<Rightarrow> string list" where
  "port_entries portsList = (if portsList = [] then [] else Split portsList CHR '','')"

definition expected_listeners :: "flag_values \<Rightarrow> nat \<Rightarrow> DefaultPointListener list" where
  "expected_listeners fl n =
     new_listeners n GraphiteBuilder (port_entries (fWavefrontPortsPtr fl)) @
     new_listeners (n + length (port_entries (fWavefrontPortsPtr fl))) OpenTSDBBuilder
       (port_entries (fOpenTSDBPortsPtr fl))"

definition all_entries :: "flag_values \<Rightarrow> string list" where
  "all_entries fl = port_entries (fWavefrontPortsPtr fl) @ port_entries (fOpenTSDBPortsPtr fl)"

definition accepted :: "string list \<Rightarrow> string list" where
  "accepted entries = takeWhile (\<lambda>e. snd (Atoi e) = None) entries"

definition pprof_serves :: "environment \<Rightarrow> bool" where
  "pprof_serves env \<longleftrightarrow>
     fPprofAddr (effective env) = [] \<or> ListenAndServe env (fPprofAddr (effective env)) = None"

definition quiet :: "proxy_state \<Rightarrow> proxy_state \<Rightarrow> bool" where
  "quiet st st' \<longleftrightarrow>
     listeners st' = listeners st \<and> registry st' = registry st \<and>
     pprof_fatal st' = pprof_fatal st \<and>
     starts_of (trace st') = starts_of (trace st) \<and>
     stops_of (trace st') = stops_of (trace st) \<and>
     services_of (trace st') = services_of (trace st)"

text \<open>
  The invariant of listener start-up: the \<open>Start\<close> calls recorded are those of the
  listeners in the \<open>listeners\<close> slice, in its order, each with the configured values
  and the one service; the listeners are distinct objects; none has been stopped.
\<close>

definition started_ok :: "WavefrontAPIService \<Rightarrow> proxy_state \<Rightarrow> bool" where
  "started_ok service st \<longleftrightarrow>
     filter is_Start (trace st) = map (start_event service (flags st)) (listeners st) \<and>
     map Addr (listeners st) = [0 ..< length (listeners st)] \<and>
     stops_of (trace st) = [] \<and>
     set (services_of (trace st)) \<subseteq> {service}"

text \<open>
  The service \<open>main\<close> builds from the flags; the state \<open>main\<close> has reached when it
  calls \<open>startListeners\<close>; an outcome that waits for ever and one that ends the
  process; the host name in force after \<open>checkHostname\<close>.
\<close>

definition service_of :: "environment \<Rightarrow> flag_values \<Rightarrow> WavefrontAPIService" where
  "service_of env fl =
     \<lparr>ServerURL = fServerPtr fl,
      AgentID = CreateOrGetAgentId env (fIdFilePtr fl),
      ApiHostname = fHostnamePtr fl,
      ApiToken = fTokenPtr fl,
      ApiVersion = version env\<rparr>"

definition before_listeners ::
    "environment \<Rightarrow> proxy_state \<Rightarrow> (string \<times> metric) list \<Rightarrow> proxy_state" where
  "before_listeners env st reg =
     st\<lparr>registry := Update ''build.version'' (buildVersion (version env)) reg,
        trace := trace st @ [Log (''Starting Wavefront Proxy Version '' @ version env)] @
          (if fPprofAddr (flags st) \<noteq> []
           then [GoListenAndServe (fPprofAddr (flags st))]
           else []) @
          [InitAgent (CreateOrGetAgentId env (fIdFilePtr (flags st)))
             (service_of env (flags st)) (fServerPtr (flags st))],
        pprof_fatal :=
          (if fPprofAddr (flags st) \<noteq> []
           then (case ListenAndServe env (fPprofAddr (flags st)) of
                   None \<Rightarrow> None
                 | Some (n, err) \<Rightarrow> Some (length (trace st) + 2 + n, err))
           else pprof_fatal st)\<rparr>"

definition blocks :: "outcome \<Rightarrow> bool" where
  "blocks r = (case r of Blocked st \<Rightarrow> True | _ \<Rightarrow> False)"

definition ends :: "outcome \<Rightarrow> bool" where
  "ends r = (case r of Exit c st \<Rightarrow> True | Panic st \<Rightarrow> True | _ \<Rightarrow> False)"

definition effective_hostname :: "environment \<Rightarrow> string" where
  "effective_hostname env =
     (if fHostnamePtr (effective env) = []
      then (case os_Hostname env of Inr hostname \<Rightarrow> hostname | Inl err \<Rightarrow> [])
      else fHostnamePtr (effective env))"

text \<open>
  A run used to instantiate the properties below, the file it may load, and the same
  run with a pprof server whose \<open>ListenAndServe\<close> returns \<open>err\<close> after \<open>n\<close> more
  calls of the main goroutine.
\<close>

definition example_flags :: flag_values where
  "example_flags =
     \<lparr>fCfgPtr = [], fTokenPtr = ''t0ken'', fServerPtr = ''https://metrics.example.com/api/'',
      fHostnamePtr = [], fWavefrontPortsPtr = ''2878,2879'', fOpenTSDBPortsPtr = ''4242'',
      fFlushThreadsPtr = 2, fFlushIntervalPtr = 1000, fFlushMaxPointsPtr = 40000,
      fMaxBufferSizePtr = 100000, fIdFilePtr = ''.wavefront_id'', fLogFilePtr = [],
      fPprofAddr = [], fVersionPtr = False\<rparr>"

definition example_config :: ProxyConfig where
  "example_config =
     \<lparr>Token = ''file-token'', Server = ''https://example.org/api/'', Hostname = ''proxy-7'',
      PushListenerPorts = ''3878'', OpenTSDBPorts = [], FlushThreads = 4,
      PushFlushInterval = 500, PushFlushMaxPoints = 1000, PushMemoryBufferLimit = 5000,
      IdFile = ''/var/lib/wavefront/id'', LogFile = [], PprofAddr = []\<rparr>"

definition example_env :: environment where
  "example_env =
     \<lparr>args = example_flags,
      LoadConfig = (\<lambda>filename. if filename = ''proxy.conf'' then Inr example_config
                               else Inl ''no such file''),
      os_Hostname = Inr ''collector-1'',
      os_Create = (\<lambda>filename. None),
      version = ''4.2'', commit = ''abc123'', branch = ''master'', tag = [],
      CreateOrGetAgentId = (\<lambda>filename. ''agent-1''),
      DefaultRegistry = [(''points.received'', Counter 0)],
      signals = [Interrupt],
      ListenAndServe = (\<lambda>addr. None),
      early_interrupt = None\<rparr>"

definition failing_pprof_env :: "nat \<Rightarrow> string \<Rightarrow> environment" where
  "failing_pprof_env n err =
     example_env\<lparr>args := example_flags\<lparr>fPprofAddr := ''localhost:6060''\<rparr>,
                 ListenAndServe := (\<lambda>addr. Some (n, err))\<rparr>"

subsection \<open>Splitting and parsing\<close>

lemma Split_not_Nil: "Split s sep \<noteq> []"
  by (induction s) (auto split: list.splits)

lemma Split_no_sep: "sep \<notin> set s \<Longrightarrow> Split s sep = [s]"
  by (induction s) auto

lemma Split_append: "sep \<notin> set a \<Longrightarrow> Split (a @ sep # b) sep = a # Split b sep"
  by (induction a) (auto split: list.splits)

lemma buildVersion_loop_foldl:
  "buildVersion_loop acc segs = foldl (\<lambda>version seg. version * 1000 + fst (Atoi seg)) acc segs"
  by (induction segs arbitrary: acc) auto

lemma Atoi_Nil: "Atoi [] = (0, Some ErrSyntax)"
  by (simp add: Atoi_def ParseInt_def)

lemma Atoi_unfold:
  assumes "s \<noteq> []" "ParseUint (if hd s = CHR ''+'' \<or> hd s = CHR ''-'' then tl s else s) = (un, err)"
  shows "Atoi s =
     (if err = Some ErrSyntax then (0, Some ErrSyntax)
      else if hd s \<noteq> CHR ''-'' \<and> un \<ge> 9223372036854775808
        then (9223372036854775807, Some ErrRange)
      else if hd s = CHR ''-'' \<and> un > 9223372036854775808
        then (- 9223372036854775808, Some ErrRange)
      else (word_of_int (if hd s = CHR ''-'' then - int un else int un), None))"
proof (cases err)
  case None
  then show ?thesis using assms by (simp add: Atoi_def ParseInt_def Let_def)
next
  case (Some x)
  then show ?thesis using assms by (cases x) (simp_all add: Atoi_def ParseInt_def Let_def)
qed

lemma Atoi_syntax_zero: "snd (Atoi s) = Some ErrSyntax \<Longrightarrow> fst (Atoi s) = 0"
proof (cases "s = []")
  case True
  then show ?thesis by (simp add: Atoi_Nil)
next
  case False
  obtain un err where
    "ParseUint (if hd s = CHR ''+'' \<or> hd s = CHR ''-'' then tl s else s) = (un, err)"
    by (cases "ParseUint (if hd s = CHR ''+'' \<or> hd s = CHR ''-'' then tl s else s)")
  from Atoi_unfold[OF False this] show "snd (Atoi s) = Some ErrSyntax \<Longrightarrow> fst (Atoi s) = 0"
    by (simp split: if_splits)
qed

lemma ParseUint_loop_short_bad:
  "\<not> list_all isDigit s \<Longrightarrow> n < 10 ^ k \<Longrightarrow> k + length s \<le> 19 \<Longrightarrow>
     ParseUint_loop n s = (0, Some ErrSyntax)"
proof (induction s arbitrary: n k)
  case Nil
  then show ?case by simp
next
  case (Cons c cs)
  show ?case
  proof (cases "isDigit c")
    case False
    then show ?thesis by simp
  next
    case True
    from Cons.prems have k: "k \<le> 18" by simp
    have "(10::nat) ^ k \<le> 10 ^ 18" using k by (intro power_increasing) auto
    with Cons.prems have n: "n < 10 ^ 18" by linarith
    have d: "digitVal c \<le> 9" using True by (auto simp: isDigit_def digitVal_def)
    have n1: "n * 10 + digitVal c < 10 ^ Suc k" using Cons.prems(2) d by simp
    have "ParseUint_loop (n * 10 + digitVal c) cs = (0, Some ErrSyntax)"
      using Cons.IH[of "n * 10 + digitVal c" "Suc k"] Cons.prems True n1 by simp
    then show ?thesis using True n d by (simp add: maxUint64_def)
  qed
qed

lemma Atoi_not_decimal_short:
  assumes "\<not> isDecimal s" "length s < 20"
  shows "Atoi s = (0, Some ErrSyntax)"
proof (cases "s = []")
  case True
  then show ?thesis by (simp add: Atoi_def ParseInt_def)
next
  case False
  define d where "d = (if hd s = CHR ''+'' \<or> hd s = CHR ''-'' then tl s else s)"
  have len: "length d \<le> 19" using assms(2) by (auto simp: d_def)
  have bad: "d = [] \<or> \<not> list_all isDigit d"
    using assms(1) False by (auto simp: isDecimal_def d_def Let_def)
  have "ParseUint d = (0, Some ErrSyntax)"
  proof (cases "d = []")
    case True then show ?thesis by (simp add: ParseUint_def)
  next
    case False
    with bad have "\<not> list_all isDigit d" by simp
    from ParseUint_loop_short_bad[OF this, of 0 0] len
    show ?thesis using False by (simp add: ParseUint_def)
  qed
  then show ?thesis using False by (simp add: Atoi_def ParseInt_def d_def Let_def)
qed

lemma ParseUint_loop_digits:
  "list_all isDigit s \<Longrightarrow> n < 10 ^ k \<Longrightarrow> k + length s \<le> 19 \<Longrightarrow>
     ParseUint_loop n s = (foldl (\<lambda>n c. n * 10 + digitVal c) n s, None) \<and>
     foldl (\<lambda>n c. n * 10 + digitVal c) n s < 10 ^ (k + length s)"
proof (induction s arbitrary: n k)
  case Nil
  then show ?case by simp
next
  case (Cons c cs)
  from Cons.prems have k: "k \<le> 18" and c: "isDigit c" and cs: "list_all isDigit cs" by simp_all
  have "(10::nat) ^ k \<le> 10 ^ 18" using k by (intro power_increasing) auto
  with Cons.prems have n: "n < 10 ^ 18" by linarith
  have d: "digitVal c \<le> 9" using c by (auto simp: isDigit_def digitVal_def)
  have n1: "n * 10 + digitVal c < 10 ^ Suc k" using Cons.prems(2) d by simp
  from Cons.IH[OF cs n1] Cons.prems(3)
  have IH: "ParseUint_loop (n * 10 + digitVal c) cs =
              (foldl (\<lambda>n c. n * 10 + digitVal c) (n * 10 + digitVal c) cs, None)"
       "foldl (\<lambda>n c. n * 10 + digitVal c) (n * 10 + digitVal c) cs < 10 ^ (Suc k + length cs)"
    by simp_all
  show ?case using c n d IH by (simp add: maxUint64_def)
qed

lemma Atoi_digits:
  assumes "list_all isDigit s" "s \<noteq> []" "length s < 19"
  shows "Atoi s = (word_of_nat (decimal s), None)"
proof -
  have nosign: "hd s \<noteq> CHR ''+''" "hd s \<noteq> CHR ''-''"
    using assms(1,2) by (cases s; auto simp: isDigit_def)+
  from ParseUint_loop_digits[OF assms(1), of 0 0] assms(3)
  have pu: "ParseUint_loop 0 s = (decimal s, None)" and b: "decimal s < 10 ^ length s"
    by (simp_all add: decimal_def)
  have "(10::nat) ^ length s \<le> 10 ^ 18" using assms(3) by (intro power_increasing) auto
  with b have "decimal s < 9223372036854775808" by simp
  then show ?thesis using pu assms(2) nosign
    by (simp add: Atoi_def ParseInt_def ParseUint_def Let_def)
qed

lemma ParseUint_loop_range_value:
  "snd (ParseUint_loop n s) = Some ErrRange \<Longrightarrow> fst (ParseUint_loop n s) = maxUint64"
  by (induction s arbitrary: n) (auto split: if_splits)

lemma Atoi_range_saturates:
  "snd (Atoi s) = Some ErrRange \<Longrightarrow>
     fst (Atoi s) = 9223372036854775807 \<or> fst (Atoi s) = - 9223372036854775808"
proof (cases "s = []")
  case True
  then show "snd (Atoi s) = Some ErrRange \<Longrightarrow> ?thesis" by (simp add: Atoi_Nil)
next
  case False
  obtain un err where
    "ParseUint (if hd s = CHR ''+'' \<or> hd s = CHR ''-'' then tl s else s) = (un, err)"
    by (cases "ParseUint (if hd s = CHR ''+'' \<or> hd s = CHR ''-'' then tl s else s)")
  from Atoi_unfold[OF False this] show "snd (Atoi s) = Some ErrRange \<Longrightarrow> ?thesis"
    by (simp split: if_splits)
qed

lemma ParseUint_loop_ok_digits:
  "snd (ParseUint_loop n s) = None \<Longrightarrow> list_all isDigit s"
  by (induction s arbitrary: n) (auto split: if_splits)

lemma Atoi_ok_decimal: "snd (Atoi s) = None \<Longrightarrow> isDecimal s"
proof -
  assume a: "snd (Atoi s) = None"
  then have ne: "s \<noteq> []" by (auto simp: Atoi_Nil)
  define d where "d = (if hd s = CHR ''+'' \<or> hd s = CHR ''-'' then tl s else s)"
  obtain un err where pu: "ParseUint d = (un, err)" by (cases "ParseUint d")
  have range: "un = maxUint64" if "err = Some ErrRange"
    using that pu ParseUint_loop_range_value[of 0 d] by (auto simp: ParseUint_def split: if_splits)
  have "err = None"
  proof (cases err)
    case (Some x)
    then show ?thesis using a range Atoi_unfold[OF ne pu[unfolded d_def]]
      by (cases x) (auto simp: maxUint64_def split: if_splits)
  qed simp
  then have "d \<noteq> []" "list_all isDigit d"
    using pu ParseUint_loop_ok_digits[of 0 d] by (auto simp: ParseUint_def split: if_splits)
  then show ?thesis using ne by (simp add: isDecimal_def d_def Let_def)
qed

lemma Atoi_not_decimal: "\<not> isDecimal s \<Longrightarrow> snd (Atoi s) \<noteq> None"
  using Atoi_ok_decimal by blast

subsection \<open>The self-report\<close>

lemma counters_of_Nil: "counters_of [] = Map.empty"
  by (simp add: counters_of_def)

lemma counters_of_fresh: "name \<notin> fst ` set reg \<Longrightarrow> counters_of reg name = None"
  by (simp add: counters_of_def map_of_eq_None_iff[THEN iffD2])

lemma counters_of_Cons_Counter:
  "counters_of ((name, Counter count) # rest) = (counters_of rest)(name \<mapsto> count)"
  by (rule ext) (simp add: counters_of_def)

lemma counters_of_Cons_other:
  assumes "name \<notin> fst ` set rest" "\<And>count. i \<noteq> Counter count"
  shows "counters_of ((name, i) # rest) = counters_of rest"
proof (rule ext)
  fix x
  show "counters_of ((name, i) # rest) x = counters_of rest x"
  proof (cases "x = name")
    case True
    then show ?thesis using assms counters_of_fresh[of name rest]
      by (cases i) (auto simp: counters_of_def)
  next
    case False
    then show ?thesis by (simp add: counters_of_def)
  qed
qed

lemma Each_agentMetrics_map:
  "distinct (map fst reg) \<Longrightarrow>
     fst (Each_agentMetrics reg (m, lg)) = m ++ counters_of reg"
proof (induction reg arbitrary: m lg)
  case Nil
  then show ?case by (simp add: counters_of_Nil)
next
  case (Cons p rest)
  obtain name i where p: "p = (name, i)" by (cases p)
  from Cons.prems p have fresh: "name \<notin> fst ` set rest" and d: "distinct (map fst rest)"
    by auto
  show ?case
  proof (cases i)
    case (Counter count)
    have "fst (Each_agentMetrics (p # rest) (m, lg)) =
            fst (Each_agentMetrics rest (m(name \<mapsto> count), lg @ [CounterLine name count]))"
      unfolding p Counter by simp
    also have "\<dots> = m(name \<mapsto> count) ++ counters_of rest"
      by (rule Cons.IH[OF d])
    also have "\<dots> = m ++ counters_of ((name, Counter count) # rest)"
    proof (rule ext)
      fix x
      show "(m(name \<mapsto> count) ++ counters_of rest) x =
              (m ++ counters_of ((name, Counter count) # rest)) x"
        using counters_of_fresh[OF fresh]
        by (cases "x = name") (auto simp: map_add_def counters_of_Cons_Counter split: option.splits)
    qed
    finally show ?thesis unfolding p Counter .
  qed (use p Cons.IH[OF d] counters_of_Cons_other[OF fresh] in simp_all)
qed

lemma Each_agentMetrics_log:
  "snd (Each_agentMetrics reg (m, lg)) = lg @ counter_lines reg"
proof (induction reg arbitrary: m lg)
  case Nil
  then show ?case by simp
next
  case (Cons p rest)
  obtain name i where p: "p = (name, i)" by (cases p)
  show ?case using p Cons.IH by (cases i) simp_all
qed

lemma buildAgentMetrics_eq:
  "buildAgentMetrics Marshal reg =
     (case Marshal (fst (Each_agentMetrics reg (Map.empty, []))) of
        Inl err \<Rightarrow> ([], counter_lines reg @ [ErrorLine err])
      | Inr b \<Rightarrow> (b, counter_lines reg))"
  using Each_agentMetrics_log[of reg Map.empty "[]"]
  by (cases "Each_agentMetrics reg (Map.empty, [])") (simp add: buildAgentMetrics_def)

lemma map_of_Update:
  "map_of (Update name v reg) x =
     (if x = name then map_option (\<lambda>_. Gauge v) (map_of reg x) else map_of reg x)"
  by (induction reg) (auto simp: Update_def)

lemma GetOrRegisterGauge_registered:
  "GetOrRegisterGauge name reg = Some reg' \<Longrightarrow> \<exists>v. map_of reg' name = Some (Gauge v)"
  by (auto simp: GetOrRegisterGauge_def map_add_def
           split: option.splits metric.splits)

lemma build_gauge_not_counted:
  "GetOrRegisterGauge name reg = Some reg' \<Longrightarrow> counters_of (Update name v reg') name = None"
  using GetOrRegisterGauge_registered[of name reg reg']
  by (auto simp: counters_of_def map_of_Update)

lemma map_fst_Update: "map fst (Update name v reg) = map fst reg"
  by (induction reg) (auto simp: Update_def)

lemma distinct_GetOrRegisterGauge:
  "GetOrRegisterGauge name reg = Some reg' \<Longrightarrow> distinct (map fst reg) \<Longrightarrow>
     distinct (map fst reg')"
  by (auto simp: GetOrRegisterGauge_def map_of_eq_None_iff
           split: option.splits metric.splits)

text \<open>
  \<^bold>\<open>C1\<close>. For every registry (its names distinct, as the keys of a Go map are) in
  whatever order \<open>Each\<close> visits it, the map that \<open>buildAgentMetrics\<close> hands to
  \<open>json.Marshal\<close> is \<open>counters_of\<close> the registry, and the payload is the
  serialization of that map: a counter contributes its name with its count, a metric
  of any other kind is left out, and no other name appears. In particular the
  \<open>build.version\<close> gauge that \<open>main\<close> registers and updates is not in the payload.
\<close>

theorem buildAgentMetrics_counters_only:
  assumes "distinct (map fst reg)"
  shows "fst (Each_agentMetrics reg (Map.empty, [])) = counters_of reg
       \<and> (\<forall>b. Marshal (counters_of reg) = Inr b \<longrightarrow> fst (buildAgentMetrics Marshal reg) = b)
       \<and> (\<forall>name count. (name, Counter count) \<in> set reg \<longrightarrow> counters_of reg name = Some count)
       \<and> (\<forall>name i. (name, i) \<in> set reg \<and> (\<forall>count. i \<noteq> Counter count) \<longrightarrow>
             counters_of reg name = None)
       \<and> (\<forall>name. name \<notin> fst ` set reg \<longrightarrow> counters_of reg name = None)
       \<and> (\<forall>reg' v. GetOrRegisterGauge ''build.version'' reg = Some reg' \<longrightarrow>
             distinct (map fst (Update ''build.version'' v reg')) \<and>
             counters_of (Update ''build.version'' v reg') ''build.version'' = None)"
proof -
  have m: "fst (Each_agentMetrics reg (Map.empty, [])) = counters_of reg"
    using Each_agentMetrics_map[OF assms, of Map.empty "[]"] by simp
  have mo: "\<And>name i. (name, i) \<in> set reg \<Longrightarrow> map_of reg name = Some i"
    using assms by simp
  have payload: "\<forall>b. Marshal (counters_of reg) = Inr b \<longrightarrow> fst (buildAgentMetrics Marshal reg) = b"
    using m by (simp add: buildAgentMetrics_eq)
  have counted: "\<forall>name count. (name, Counter count) \<in> set reg \<longrightarrow> counters_of reg name = Some count"
    using mo by (simp add: counters_of_def)
  have omitted: "\<forall>name i. (name, i) \<in> set reg \<and> (\<forall>count. i \<noteq> Counter count) \<longrightarrow>
             counters_of reg name = None"
    using mo by (auto simp: counters_of_def split: metric.splits)
  have absent: "\<forall>name. name \<notin> fst ` set reg \<longrightarrow> counters_of reg name = None"
    using counters_of_fresh by blast
  have gauge: "\<forall>reg' v. GetOrRegisterGauge ''build.version'' reg = Some reg' \<longrightarrow>
             distinct (map fst (Update ''build.version'' v reg')) \<and>
             counters_of (Update ''build.version'' v reg') ''build.version'' = None"
    using build_gauge_not_counted distinct_GetOrRegisterGauge[OF _ assms]
    by (simp add: map_fst_Update)
  show ?thesis using m payload counted omitted absent gauge by blast
qed

theorem buildAgentMetrics_counters_only_witness:
  "distinct (map fst [(''points.received'', Counter 7), (''build.version'', Gauge 4002000),
                      (''flush.time'', Timer), (''points.dropped'', Counter 0)])
   \<and> fst (Each_agentMetrics [(''points.received'', Counter 7), (''build.version'', Gauge 4002000),
                      (''flush.time'', Timer), (''points.dropped'', Counter 0)] (Map.empty, []))
       = [''points.received'' \<mapsto> 7, ''points.dropped'' \<mapsto> 0]
   \<and> fst (buildAgentMetrics (\<lambda>m. if m ''build.version'' = None then Inr ''counters'' else Inr ''more'')
            [(''points.received'', Counter 7), (''build.version'', Gauge 4002000),
             (''flush.time'', Timer), (''points.dropped'', Counter 0)]) = ''counters''"
proof -
  let ?reg = "[(''points.received'', Counter 7), (''build.version'', Gauge 4002000),
               (''flush.time'', Timer), (''points.dropped'', Counter 0)]"
  let ?Marshal = "\<lambda>m :: string \<rightharpoonup> int64. if m ''build.version'' = None
                    then (Inr ''counters'' :: string + string) else Inr ''more''"
  have d: "distinct (map fst ?reg)" by simp
  have c: "counters_of ?reg = [''points.received'' \<mapsto> 7, ''points.dropped'' \<mapsto> 0]"
    by (rule ext) (simp add: counters_of_def)
  have mar: "?Marshal (counters_of ?reg) = Inr ''counters''"
    by (simp add: counters_of_def)
  from buildAgentMetrics_counters_only[OF d, of ?Marshal] c mar
  show ?thesis using d by simp
qed

text \<open>
  \<^bold>\<open>C7\<close>. \<open>buildAgentMetrics\<close> returns bytes and log lines for every registry and
  every behaviour of \<open>json.Marshal\<close>: when the serialization fails the error is
  logged after the counter lines and the empty slice is returned; when it succeeds
  the bytes are returned and nothing more is logged. No outcome carries an error to the
  caller.
\<close>

theorem buildAgentMetrics_best_effort:
  "(\<forall>err. Marshal (fst (Each_agentMetrics reg (Map.empty, []))) = Inl err \<longrightarrow>
       buildAgentMetrics Marshal reg = ([], counter_lines reg @ [ErrorLine err]))
   \<and> (\<forall>b. Marshal (fst (Each_agentMetrics reg (Map.empty, []))) = Inr b \<longrightarrow>
       buildAgentMetrics Marshal reg = (b, counter_lines reg))
   \<and> (\<exists>b lg. buildAgentMetrics Marshal reg = (b, lg) \<and>
         ((\<exists>err. ErrorLine err \<in> set lg) \<longleftrightarrow>
          (\<exists>err. Marshal (fst (Each_agentMetrics reg (Map.empty, []))) = Inl err)))"
proof -
  have no_err: "ErrorLine err \<notin> set (counter_lines reg)" for err
    by (induction reg) (auto split: metric.splits)
  show ?thesis
    using no_err
    by (cases "Marshal (fst (Each_agentMetrics reg (Map.empty, [])))")
       (auto simp: buildAgentMetrics_eq)
qed

theorem buildAgentMetrics_best_effort_witness:
  "buildAgentMetrics (\<lambda>m. Inl ''json: unsupported value'')
      [(''points.received'', Counter 7), (''build.version'', Gauge 4002000)] =
     ([], [CounterLine ''points.received'' 7, ErrorLine ''json: unsupported value''])
   \<and> buildAgentMetrics (\<lambda>m. Inr ''{}'') [(''build.version'', Gauge 4002000)] = (''{}'', [])"
  using buildAgentMetrics_best_effort[of "\<lambda>m. Inl ''json: unsupported value''"
          "[(''points.received'', Counter 7), (''build.version'', Gauge 4002000)]"]
        buildAgentMetrics_best_effort[of "\<lambda>m. Inr ''{}''" "[(''build.version'', Gauge 4002000)]"]
  by simp

subsection \<open>The encoding of the build number\<close>

lemmas Atoi_eval = Atoi_def ParseInt_def ParseUint_def isDigit_def digitVal_def maxUint64_def

text \<open>
  \<^bold>\<open>C9\<close>, amended. \<open>buildVersion\<close> splits the version at \<open>.\<close>, passes each
  segment through \<open>Atoi\<close> and drops the error, accumulates the values in base 1000
  (wrapping at 64 bits) and multiplies by 1000 for exactly two segments and by
  1000000 otherwise. A segment that \<open>Atoi\<close> rejects with a syntax error contributes
  0, and every segment of fewer than 20 bytes that is no decimal integer is rejected
  so; a string of at most 18 digits contributes the number it denotes; a segment whose
  digits run past the 64-bit range contributes the bound \<open>Atoi\<close> saturates at. Hence
  \<open>a.b\<close> yields \<open>(1000 * a + b) * 1000\<close> and \<open>a.b.0\<close> yields
  \<open>(1000 * a + b) * 1000 * 1000000\<close>.
\<close>

theorem buildVersion_encoding:
  "buildVersion v =
     foldl (\<lambda>version seg. version * 1000 + fst (Atoi seg)) 0 (Split v CHR ''.'') *
       (if length (Split v CHR ''.'') = 2 then 1000 else 1000000)
   \<and> (snd (Atoi seg) = Some ErrSyntax \<longrightarrow> fst (Atoi seg) = 0)
   \<and> (\<not> isDecimal seg \<and> length seg < 20 \<longrightarrow> Atoi seg = (0, Some ErrSyntax))
   \<and> (list_all isDigit seg \<and> seg \<noteq> [] \<and> length seg < 19 \<longrightarrow>
         Atoi seg = (word_of_nat (decimal seg), None))
   \<and> (snd (Atoi seg) = Some ErrRange \<longrightarrow>
         fst (Atoi seg) = 9223372036854775807 \<or> fst (Atoi seg) = - 9223372036854775808)
   \<and> (CHR ''.'' \<notin> set a \<and> CHR ''.'' \<notin> set b \<longrightarrow>
         buildVersion (a @ ''.'' @ b) = (1000 * fst (Atoi a) + fst (Atoi b)) * 1000 \<and>
         buildVersion (a @ ''.'' @ b @ ''.0'') =
           (1000 * fst (Atoi a) + fst (Atoi b)) * 1000 * 1000000)"
proof -
  have general: "buildVersion v =
     foldl (\<lambda>version seg. version * 1000 + fst (Atoi seg)) 0 (Split v CHR ''.'') *
       (if length (Split v CHR ''.'') = 2 then 1000 else 1000000)"
    by (simp add: buildVersion_def Let_def buildVersion_loop_foldl)
  have two: "buildVersion (a @ ''.'' @ b) = (1000 * fst (Atoi a) + fst (Atoi b)) * 1000"
    if "CHR ''.'' \<notin> set a" "CHR ''.'' \<notin> set b"
  proof -
    have "Split (a @ ''.'' @ b) CHR ''.'' = [a, b]"
      using that by (simp add: Split_append Split_no_sep)
    then show ?thesis by (simp add: buildVersion_def Let_def)
  qed
  have zero: "Atoi ''0'' = (0, None)" by (simp add: Atoi_eval)
  have three: "buildVersion (a @ ''.'' @ b @ ''.0'') =
                 (1000 * fst (Atoi a) + fst (Atoi b)) * 1000 * 1000000"
    if "CHR ''.'' \<notin> set a" "CHR ''.'' \<notin> set b"
  proof -
    have "Split (a @ ''.'' @ b @ ''.0'') CHR ''.'' = [a, b, ''0'']"
      using that Split_append[of "CHR ''.''" b "''0''"]
      by (simp add: Split_append)
    then show ?thesis using zero by (simp add: buildVersion_def Let_def)
  qed
  show ?thesis
    using general two three Atoi_syntax_zero[of seg] Atoi_not_decimal_short[of seg]
      Atoi_digits[of seg] Atoi_range_saturates[of seg]
    by blast
qed

theorem buildVersion_encoding_witness:
  "CHR ''.'' \<notin> set ''4'' \<and> CHR ''.'' \<notin> set ''2''
   \<and> buildVersion ''4.2'' = 4002000 \<and> buildVersion ''4.2.0'' = 4002000000000
   \<and> \<not> isDecimal ''rc1'' \<and> length ''rc1'' < 20 \<and> Atoi ''rc1'' = (0, Some ErrSyntax)
   \<and> buildVersion ''4.rc1'' = 4000000"
proof -
  have a: "Atoi ''4'' = (4, None)" and b: "Atoi ''2'' = (2, None)"
    by (simp_all add: Atoi_eval)
  have nd: "\<not> isDecimal ''rc1''" by (simp add: isDecimal_def isDigit_def)
  have h: "CHR ''.'' \<notin> set ''4'' \<and> CHR ''.'' \<notin> set ''2''" by simp
  have h': "CHR ''.'' \<notin> set ''4'' \<and> CHR ''.'' \<notin> set ''rc1''" by simp
  from buildVersion_encoding[of "''4.2''" "''rc1''" "''4''" "''2''"] h nd a b
  have 1: "buildVersion ''4.2'' = 4002000 \<and> buildVersion ''4.2.0'' = 4002000000000
           \<and> Atoi ''rc1'' = (0, Some ErrSyntax)"
    by simp
  from buildVersion_encoding[of "''4.rc1''" "''rc1''" "''4''" "''rc1''"] h' nd a
  have 2: "buildVersion ''4.rc1'' = 4000000" by simp
  show ?thesis using 1 2 nd by simp
qed

text \<open>
  As stated, with every non-numeric segment contributing 0, the claim fails: the
  segment below is no decimal integer, its first twenty digits overflow before the
  scan reaches the letter, and \<open>Atoi\<close> answers the largest \<open>int\<close> together with a
  range error, which \<open>buildVersion\<close> drops.
\<close>

theorem buildVersion_nonnumeric_counterexample:
  "\<not> isDecimal ''99999999999999999999x''
   \<and> Atoi ''99999999999999999999x'' = (9223372036854775807, Some ErrRange)
   \<and> buildVersion ''99999999999999999999x'' = - 1000000
   \<and> buildVersion ''99999999999999999999x'' \<noteq> 0"
proof -
  have nd: "\<not> isDecimal ''99999999999999999999x''" by (simp add: isDecimal_def isDigit_def)
  have at: "Atoi ''99999999999999999999x'' = (9223372036854775807, Some ErrRange)"
    by (simp add: Atoi_eval)
  have sp: "Split ''99999999999999999999x'' CHR ''.'' = [''99999999999999999999x'']" by simp
  have bv: "buildVersion ''99999999999999999999x'' = - 1000000"
    unfolding buildVersion_def Let_def sp using at by simp
  show ?thesis using nd at bv by simp
qed

subsection \<open>Starting the listeners of one port list\<close>

lemma starts_of_append: "starts_of (xs @ ys) = starts_of xs @ starts_of ys"
  by (induction xs) (auto split: event.splits)

lemma stops_of_append: "stops_of (xs @ ys) = stops_of xs @ stops_of ys"
  by (induction xs) (auto split: event.splits)

lemma starts_of_start_events: "starts_of (map (start_event service fl) ls) = ls"
  by (induction ls) (auto simp: start_event_def)

lemma starts_of_stops: "starts_of (map Stop ls) = []"
  by (induction ls) auto

lemma stops_of_stops: "stops_of (map Stop ls) = ls"
  by (induction ls) auto

lemma new_listeners_Nil: "new_listeners n builder [] = []"
  by (simp add: new_listeners_def)

lemma new_listeners_Cons:
  "new_listeners n builder (e # es) =
     \<lparr>Addr = n, Port = fst (Atoi e), Builder = builder\<rparr> # new_listeners (Suc n) builder es"
proof -
  have "[n ..< n + length (e # es)] = n # [Suc n ..< Suc n + length es]"
    by (subst upt_rec) simp
  then show ?thesis by (simp add: new_listeners_def del: upt_Suc)
qed

lemma length_new_listeners: "length (new_listeners n builder es) = length es"
  by (simp add: new_listeners_def)

lemma with_started_Nil: "with_started service [] st = st"
  by (simp add: with_started_def)

lemma with_started_twice:
  "with_started service ls2 (with_started service ls1 st) = with_started service (ls1 @ ls2) st"
  by (simp add: with_started_def)

lemma with_started_simps:
  "flags (with_started service ls st) = flags st"
  "registry (with_started service ls st) = registry st"
  "listeners (with_started service ls st) = listeners st @ ls"
  "trace (with_started service ls st) = trace st @ map (start_event service (flags st)) ls"
  by (simp_all add: with_started_def)

lemma startPointListeners_loop_append:
  "\<forall>e \<in> set good. snd (Atoi e) = None \<Longrightarrow>
     startPointListeners_loop service builder (good @ others) st =
       startPointListeners_loop service builder others
         (with_started service (new_listeners (length (listeners st)) builder good) st)"
proof (induction good arbitrary: st)
  case Nil
  then show ?case by (simp add: new_listeners_Nil with_started_Nil)
next
  case (Cons e es)
  obtain port where e: "Atoi e = (port, None)" using Cons.prems by (cases "Atoi e") auto
  define l where "l = \<lparr>Addr = length (listeners st), Port = port, Builder = builder\<rparr>"
  have step: "startPointListener l service (st\<lparr>listeners := listeners st @ [l]\<rparr>) =
                with_started service [l] st"
    by (simp add: startPointListener_def emit_def with_started_def start_event_def)
  have "startPointListeners_loop service builder ((e # es) @ others) st =
          startPointListeners_loop service builder (es @ others) (with_started service [l] st)"
    using e step by (simp add: l_def Let_def)
  also have "\<dots> = startPointListeners_loop service builder others
       (with_started service (new_listeners (Suc (length (listeners st))) builder es)
          (with_started service [l] st))"
    using Cons.IH[of "with_started service [l] st"] Cons.prems
    by (simp add: with_started_simps)
  also have "\<dots> = startPointListeners_loop service builder others
       (with_started service (new_listeners (length (listeners st)) builder (e # es)) st)"
    using e by (simp add: with_started_twice new_listeners_Cons l_def)
  finally show ?case .
qed

lemma startPointListeners_loop_valid:
  "\<forall>e \<in> set es. snd (Atoi e) = None \<Longrightarrow>
     startPointListeners_loop service builder es st =
       Continue (with_started service (new_listeners (length (listeners st)) builder es) st)"
  using startPointListeners_loop_append[of es service builder "[]" st] by simp

lemma startPointListeners_loop_invalid:
  "\<forall>e \<in> set good. snd (Atoi e) = None \<Longrightarrow> snd (Atoi bad) \<noteq> None \<Longrightarrow>
     startPointListeners_loop service builder (good @ bad # rest) st =
       Exit 1 (emit (Log (''Invalid port '' @ bad))
         (with_started service (new_listeners (length (listeners st)) builder good) st))"
  using startPointListeners_loop_append[of good service builder "bad # rest" st]
  by (cases "Atoi bad") (auto simp: log_Fatal_def)

lemma split_at_first_invalid:
  "\<exists>e \<in> set es. snd (Atoi e) \<noteq> None \<Longrightarrow>
     \<exists>good bad rest. es = good @ bad # rest \<and> (\<forall>e \<in> set good. snd (Atoi e) = None) \<and>
        snd (Atoi bad) \<noteq> None"
proof -
  assume "\<exists>e \<in> set es. snd (Atoi e) \<noteq> None"
  then obtain good bad rest where "es = good @ bad # rest" "snd (Atoi bad) \<noteq> None"
      "\<forall>e \<in> set good. \<not> snd (Atoi e) \<noteq> None"
    using split_list_first_prop[of es "\<lambda>e. snd (Atoi e) \<noteq> None"] by blast
  then show ?thesis by auto
qed

subsection \<open>Checking the flags\<close>

lemma services_of_append: "services_of (xs @ ys) = services_of xs @ services_of ys"
  by (induction xs) (auto split: event.splits)

lemma quiet_refl: "quiet st st"
  by (simp add: quiet_def)

lemma quiet_trans: "quiet st st' \<Longrightarrow> quiet st' st'' \<Longrightarrow> quiet st st''"
  by (simp add: quiet_def)

lemma quiet_emit_Log: "quiet st (emit (Log msg) st)"
  by (simp add: quiet_def emit_def starts_of_append stops_of_append services_of_append)

lemma quiet_emit_Usage: "quiet st (emit Usage st)"
  by (simp add: quiet_def emit_def starts_of_append stops_of_append services_of_append)

lemma quiet_emit_SetOutput: "quiet st (emit (SetOutput f) st)"
  by (simp add: quiet_def emit_def starts_of_append stops_of_append services_of_append)

lemma quiet_flags: "quiet st (st\<lparr>flags := fl\<rparr>)"
  by (simp add: quiet_def)

lemma quiet_andThen:
  assumes "quiet st (state_of r)" "\<And>s. r = Continue s \<Longrightarrow> quiet s (state_of (f s))"
  shows "quiet st (state_of (andThen r f))"
  using assms by (cases r) (auto simp: andThen_def intro: quiet_trans)

lemma quiet_parseCfg: "quiet st (state_of (parseCfg env filename st))"
  by (auto simp: parseCfg_def log_Fatal_def split: sum.splits
           intro: quiet_emit_Log quiet_flags)

lemma quiet_afterConfig: "quiet st (state_of (afterConfig env st))"
  by (simp add: afterConfig_def quiet_parseCfg quiet_refl)

lemma quiet_checkRequiredFlag: "quiet st (state_of (checkRequiredFlag val msg st))"
  by (auto simp: checkRequiredFlag_def quiet_refl
           intro: quiet_trans[OF quiet_emit_Log quiet_emit_Usage])

lemma quiet_checkHostname: "quiet st (state_of (checkHostname env st))"
  by (auto simp: checkHostname_def log_Fatal_def quiet_refl split: sum.splits
           intro: quiet_emit_Log quiet_flags)

lemma quiet_setupLogger: "quiet st (state_of (setupLogger env st))"
  by (auto simp: setupLogger_def quiet_refl split: option.splits
           intro: quiet_emit_SetOutput)

lemma checkFlags_alt:
  "checkFlags env st =
     (if fVersionPtr (flags st)
      then Exit 0 (emit (Log (''wavefront-proxy v'' @ getVersion env @ '' (git: '' @
                               branch env @ '' '' @ commit env @ '')'')) st)
      else
        andThen (andThen (andThen (andThen (afterConfig env st)
          (\<lambda>st. checkRequiredFlag (fTokenPtr (flags st)) ''Missing token'' st))
          (\<lambda>st. checkRequiredFlag (fServerPtr (flags st)) ''Missing server'' st))
          (checkHostname env))
          (setupLogger env))"
  by (simp add: checkFlags_def afterConfig_def)

lemma quiet_checkFlags: "quiet st (state_of (checkFlags env st))"
  unfolding checkFlags_alt
  by (auto intro!: quiet_andThen quiet_afterConfig quiet_checkRequiredFlag
        quiet_checkHostname quiet_setupLogger quiet_emit_Log)

lemma andThen_Continue_iff:
  "andThen r f = Continue st' \<longleftrightarrow> (\<exists>s. r = Continue s \<and> f s = Continue st')"
  by (cases r) (auto simp: andThen_def)

lemma andThen_Continue: "andThen (Continue s) f = f s"
  by (simp add: andThen_def)

lemma andThen_Exit: "andThen (Exit c s) f = Exit c s"
  by (simp add: andThen_def)

lemma checkRequiredFlag_Continue_iff:
  "checkRequiredFlag val msg st = Continue st' \<longleftrightarrow> val \<noteq> [] \<and> st' = st"
  by (auto simp: checkRequiredFlag_def)

lemma checkFlags_Continue_iff:
  "checkFlags env st = Continue st' \<longleftrightarrow>
     \<not> fVersionPtr (flags st) \<and>
     (\<exists>s1 s2. afterConfig env st = Continue s1 \<and>
        fTokenPtr (flags s1) \<noteq> [] \<and> fServerPtr (flags s1) \<noteq> [] \<and>
        checkHostname env s1 = Continue s2 \<and> setupLogger env s2 = Continue st')"
  unfolding checkFlags_alt
  by (auto simp: andThen_Continue_iff checkRequiredFlag_Continue_iff)

lemma checkFlags_missing:
  assumes "fTokenPtr (flags (state_of (afterConfig env st))) = [] \<or>
           fServerPtr (flags (state_of (afterConfig env st))) = []"
  shows "\<exists>c st'. checkFlags env st = Exit c st'"
proof (cases "afterConfig env st")
  case (Continue s1)
  then show ?thesis using assms unfolding checkFlags_alt
    by (auto simp: andThen_def checkRequiredFlag_def)
next
  case (Exit c s)
  then show ?thesis unfolding checkFlags_alt by (simp add: andThen_def)
next
  case (Panic s)
  then show ?thesis by (auto simp: afterConfig_def parseCfg_def log_Fatal_def split: if_splits sum.splits)
next
  case (Blocked s)
  then show ?thesis by (auto simp: afterConfig_def parseCfg_def log_Fatal_def split: if_splits sum.splits)
qed

lemma checkHostname_Continue_flags:
  "checkHostname env s1 = Continue s2 \<Longrightarrow>
     s2 = s1\<lparr>flags := (flags s1)\<lparr>fHostnamePtr := fHostnamePtr (flags s2)\<rparr>\<rparr> \<and>
     fHostnamePtr (flags s2) =
       (if fHostnamePtr (flags s1) = []
        then (case os_Hostname env of Inr h \<Rightarrow> h | Inl e \<Rightarrow> [])
        else fHostnamePtr (flags s1))"
  by (auto simp: checkHostname_def log_Fatal_def split: if_splits sum.splits)

lemma setupLogger_flags: "flags (state_of (setupLogger env st)) = flags st"
  by (auto simp: setupLogger_def emit_def split: option.splits)

lemma checkFlags_Continue_flags:
  assumes "checkFlags env st = Continue st'"
  shows "flags st' = (flags (state_of (afterConfig env st)))
            \<lparr>fHostnamePtr := fHostnamePtr (flags st')\<rparr>"
    and "fHostnamePtr (flags st') =
           (if fHostnamePtr (flags (state_of (afterConfig env st))) = []
            then (case os_Hostname env of Inr h \<Rightarrow> h | Inl e \<Rightarrow> [])
            else fHostnamePtr (flags (state_of (afterConfig env st))))"
    and "fTokenPtr (flags st') \<noteq> []" and "fServerPtr (flags st') \<noteq> []"
proof -
  from assms obtain s1 s2 where s: "afterConfig env st = Continue s1"
      "fTokenPtr (flags s1) \<noteq> []" "fServerPtr (flags s1) \<noteq> []"
      "checkHostname env s1 = Continue s2" "setupLogger env s2 = Continue st'"
    unfolding checkFlags_Continue_iff by blast
  have f2: "flags st' = flags s2" using setupLogger_flags[of env s2] s(5) by simp
  from checkHostname_Continue_flags[OF s(4)]
  have h: "s2 = s1\<lparr>flags := (flags s1)\<lparr>fHostnamePtr := fHostnamePtr (flags s2)\<rparr>\<rparr>"
    and hv: "fHostnamePtr (flags s2) =
       (if fHostnamePtr (flags s1) = []
        then (case os_Hostname env of Inr h \<Rightarrow> h | Inl e \<Rightarrow> [])
        else fHostnamePtr (flags s1))" by blast+
  have fl: "flags s2 = (flags s1)\<lparr>fHostnamePtr := fHostnamePtr (flags s2)\<rparr>"
    by (subst h) simp
  show "flags st' = (flags (state_of (afterConfig env st)))
            \<lparr>fHostnamePtr := fHostnamePtr (flags st')\<rparr>"
    using fl f2 s(1) by simp
  show "fHostnamePtr (flags st') =
           (if fHostnamePtr (flags (state_of (afterConfig env st))) = []
            then (case os_Hostname env of Inr h \<Rightarrow> h | Inl e \<Rightarrow> [])
            else fHostnamePtr (flags (state_of (afterConfig env st))))"
    using hv f2 s(1) by simp
  have "fTokenPtr (flags s2) = fTokenPtr (flags s1)" "fServerPtr (flags s2) = fServerPtr (flags s1)"
    by (subst fl, simp)+
  then show "fTokenPtr (flags st') \<noteq> []" and "fServerPtr (flags st') \<noteq> []"
    using s(2,3) f2 by simp_all
qed

subsection \<open>Starting the listeners of both port lists\<close>

lemma startPointListeners_valid:
  "\<forall>e \<in> set (Split portsList CHR '',''). snd (Atoi e) = None \<Longrightarrow>
     startPointListeners service portsList builder st =
       Continue (with_started service
         (new_listeners (length (listeners st)) builder (Split portsList CHR '','')) st)"
  by (simp add: startPointListeners_def startPointListeners_loop_valid)

lemma startPointListeners_invalid:
  "Split portsList CHR '','' = good @ bad # rest \<Longrightarrow>
   \<forall>e \<in> set good. snd (Atoi e) = None \<Longrightarrow> snd (Atoi bad) \<noteq> None \<Longrightarrow>
     startPointListeners service portsList builder st =
       Exit 1 (emit (Log (''Invalid port '' @ bad))
         (with_started service (new_listeners (length (listeners st)) builder good) st))"
  by (simp add: startPointListeners_def startPointListeners_loop_invalid)

lemma port_list_valid:
  "\<forall>e \<in> set (port_entries portsList). snd (Atoi e) = None \<Longrightarrow>
     (if portsList \<noteq> [] then startPointListeners service portsList builder st else Continue st) =
       Continue (with_started service
         (new_listeners (length (listeners st)) builder (port_entries portsList)) st)"
  by (auto simp: port_entries_def startPointListeners_valid new_listeners_Nil with_started_Nil)

lemma port_list_invalid:
  "port_entries portsList = good @ bad # rest \<Longrightarrow>
   \<forall>e \<in> set good. snd (Atoi e) = None \<Longrightarrow> snd (Atoi bad) \<noteq> None \<Longrightarrow>
     (if portsList \<noteq> [] then startPointListeners service portsList builder st else Continue st) =
       Exit 1 (emit (Log (''Invalid port '' @ bad))
         (with_started service (new_listeners (length (listeners st)) builder good) st))"
  by (auto simp: port_entries_def startPointListeners_invalid split: if_splits)

lemma startListeners_valid:
  assumes "\<forall>e \<in> set (port_entries (fWavefrontPortsPtr (flags st))). snd (Atoi e) = None"
      and "\<forall>e \<in> set (port_entries (fOpenTSDBPortsPtr (flags st))). snd (Atoi e) = None"
  shows "startListeners service st =
           Continue (with_started service
             (expected_listeners (flags st) (length (listeners st))) st)"
proof -
  let ?push = "port_entries (fWavefrontPortsPtr (flags st))"
  let ?st1 = "with_started service
                (new_listeners (length (listeners st)) GraphiteBuilder ?push) st"
  have 1: "(if fWavefrontPortsPtr (flags st) \<noteq> []
            then startPointListeners service (fWavefrontPortsPtr (flags st)) GraphiteBuilder st
            else Continue st) = Continue ?st1"
    by (rule port_list_valid[OF assms(1)])
  have 2: "(if fOpenTSDBPortsPtr (flags ?st1) \<noteq> []
            then startPointListeners service (fOpenTSDBPortsPtr (flags ?st1)) OpenTSDBBuilder ?st1
            else Continue ?st1) =
           Continue (with_started service
             (new_listeners (length (listeners ?st1)) OpenTSDBBuilder
                (port_entries (fOpenTSDBPortsPtr (flags ?st1)))) ?st1)"
    by (rule port_list_valid) (simp add: with_started_simps assms(2))
  show ?thesis
    unfolding startListeners_def 1 andThen_Continue 2
    by (simp add: with_started_simps with_started_twice expected_listeners_def
          length_new_listeners)
qed

lemma startListeners_push_invalid:
  assumes "port_entries (fWavefrontPortsPtr (flags st)) = good @ bad # rest"
      and "\<forall>e \<in> set good. snd (Atoi e) = None" and "snd (Atoi bad) \<noteq> None"
  shows "startListeners service st =
           Exit 1 (emit (Log (''Invalid port '' @ bad))
             (with_started service
                (new_listeners (length (listeners st)) GraphiteBuilder good) st))"
  unfolding startListeners_def port_list_invalid[OF assms] andThen_Exit ..

lemma startListeners_opentsdb_invalid:
  assumes "\<forall>e \<in> set (port_entries (fWavefrontPortsPtr (flags st))). snd (Atoi e) = None"
      and "port_entries (fOpenTSDBPortsPtr (flags st)) = good @ bad # rest"
      and "\<forall>e \<in> set good. snd (Atoi e) = None" and "snd (Atoi bad) \<noteq> None"
  shows "startListeners service st =
           Exit 1 (emit (Log (''Invalid port '' @ bad))
             (with_started service
                (new_listeners (length (listeners st)) GraphiteBuilder
                   (port_entries (fWavefrontPortsPtr (flags st))) @
                 new_listeners
                   (length (listeners st) + length (port_entries (fWavefrontPortsPtr (flags st))))
                   OpenTSDBBuilder good) st))"
proof -
  let ?push = "port_entries (fWavefrontPortsPtr (flags st))"
  let ?st1 = "with_started service
                (new_listeners (length (listeners st)) GraphiteBuilder ?push) st"
  have 1: "(if fWavefrontPortsPtr (flags st) \<noteq> []
            then startPointListeners service (fWavefrontPortsPtr (flags st)) GraphiteBuilder st
            else Continue st) = Continue ?st1"
    by (rule port_list_valid[OF assms(1)])
  have 2: "(if fOpenTSDBPortsPtr (flags ?st1) \<noteq> []
            then startPointListeners service (fOpenTSDBPortsPtr (flags ?st1)) OpenTSDBBuilder ?st1
            else Continue ?st1) =
           Exit 1 (emit (Log (''Invalid port '' @ bad))
             (with_started service
                (new_listeners (length (listeners ?st1)) OpenTSDBBuilder good) ?st1))"
    by (rule port_list_invalid[where rest = rest]) (simp_all add: with_started_simps assms)
  show ?thesis
    unfolding startListeners_def 1 andThen_Continue 2
    by (simp add: with_started_simps with_started_twice length_new_listeners)
qed

subsection \<open>What has been started\<close>

lemma is_Start_simps [simp]:
  "is_Start (Start listener a b c d f w service)" "\<not> is_Start (Log msg)" "\<not> is_Start Usage"
  "\<not> is_Start (SetOutput file)" "\<not> is_Start (GoListenAndServe addr)"
  "\<not> is_Start (InitAgent agentID service serverURL)" "\<not> is_Start (Stop listener)"
  by (simp_all add: is_Start_def)

lemma starts_of_filter: "starts_of (filter is_Start es) = starts_of es"
  by (induction es) (auto split: event.splits)

lemma started_ok_starts: "started_ok service st \<Longrightarrow> starts_of (trace st) = listeners st"
  using starts_of_filter[of "trace st"] by (simp add: started_ok_def starts_of_start_events)

lemma started_ok_distinct: "started_ok service st \<Longrightarrow> distinct (listeners st)"
proof -
  assume "started_ok service st"
  then have "distinct (map Addr (listeners st))" by (simp add: started_ok_def)
  then show ?thesis by (simp add: distinct_map)
qed

lemma started_ok_emit_Log: "started_ok service st \<Longrightarrow> started_ok service (emit (Log msg) st)"
  by (simp add: started_ok_def emit_def stops_of_append services_of_append)

lemma started_ok_step:
  assumes "started_ok service st"
  shows "started_ok service
           (startPointListener \<lparr>Addr = length (listeners st), Port = port, Builder = builder\<rparr>
              service
              (st\<lparr>listeners := listeners st @
                     [\<lparr>Addr = length (listeners st), Port = port, Builder = builder\<rparr>]\<rparr>))"
  using assms
  by (simp add: started_ok_def startPointListener_def emit_def start_event_def
        stops_of_append services_of_append)

lemma startPointListener_frame:
  "flags (startPointListener l service st) = flags st"
  "registry (startPointListener l service st) = registry st"
  "pprof_fatal (startPointListener l service st) = pprof_fatal st"
  by (simp_all add: startPointListener_def emit_def)

lemma startPointListeners_loop_inv:
  "started_ok service st \<Longrightarrow>
     started_ok service (state_of (startPointListeners_loop service builder es st)) \<and>
     flags (state_of (startPointListeners_loop service builder es st)) = flags st \<and>
     registry (state_of (startPointListeners_loop service builder es st)) = registry st \<and>
     pprof_fatal (state_of (startPointListeners_loop service builder es st)) = pprof_fatal st"
proof (induction es arbitrary: st)
  case Nil
  then show ?case by simp
next
  case (Cons e es)
  obtain port err where a: "Atoi e = (port, err)" by (cases "Atoi e")
  show ?case
  proof (cases err)
    case None
    let ?l = "\<lparr>Addr = length (listeners st), Port = port, Builder = builder\<rparr>"
    let ?st = "startPointListener ?l service (st\<lparr>listeners := listeners st @ [?l]\<rparr>)"
    have ok: "started_ok service ?st" by (rule started_ok_step[OF Cons.prems])
    have eq: "startPointListeners_loop service builder (e # es) st =
                startPointListeners_loop service builder es ?st"
      using a None by (simp add: Let_def)
    show ?thesis unfolding eq using Cons.IH[OF ok] by (simp add: startPointListener_frame)
  next
    case (Some x)
    then show ?thesis using a Cons.prems
      by (simp add: log_Fatal_def started_ok_emit_Log) (simp add: emit_def)
  qed
qed

lemma startListeners_inv:
  assumes "started_ok service st"
  shows "started_ok service (state_of (startListeners service st)) \<and>
         flags (state_of (startListeners service st)) = flags st \<and>
         registry (state_of (startListeners service st)) = registry st \<and>
         pprof_fatal (state_of (startListeners service st)) = pprof_fatal st"
proof -
  let ?P = "\<lambda>s s'. started_ok service s' \<and> flags s' = flags s \<and> registry s' = registry s \<and>
              pprof_fatal s' = pprof_fatal s"
  have one: "?P s (state_of (if p \<noteq> [] then startPointListeners service p b s else Continue s))"
    if "started_ok service s" for s p b
    using startPointListeners_loop_inv[OF that] that by (simp add: startPointListeners_def)
  let ?r = "if fWavefrontPortsPtr (flags st) \<noteq> []
            then startPointListeners service (fWavefrontPortsPtr (flags st)) GraphiteBuilder st
            else Continue st"
  have r: "?P st (state_of ?r)" by (rule one[OF assms])
  show ?thesis
  proof (cases ?r)
    case (Continue s)
    then have s: "started_ok service s" "flags s = flags st" "registry s = registry st"
        "pprof_fatal s = pprof_fatal st"
      using r by simp_all
    from one[OF s(1), of "fOpenTSDBPortsPtr (flags s)" OpenTSDBBuilder] s(2,3,4) Continue
    show ?thesis unfolding startListeners_def by (simp add: andThen_def)
  qed (use r in \<open>simp_all add: startListeners_def andThen_def\<close>)
qed

subsection \<open>The pprof goroutine\<close>

lemma filter_take_prefix:
  "filter P (take n xs) = take (length (filter P (take n xs))) (filter P xs)"
proof -
  have "filter P xs = filter P (take n xs) @ filter P (drop n xs)"
    by (metis append_take_drop_id filter_append)
  then show ?thesis by simp
qed

lemma starts_of_take: "starts_of (take n xs) = take (length (starts_of (take n xs))) (starts_of xs)"
proof -
  have "starts_of xs = starts_of (take n xs) @ starts_of (drop n xs)"
    by (metis append_take_drop_id starts_of_append)
  then show ?thesis by simp
qed

lemma stops_of_take: "stops_of (take n xs) = take (length (stops_of (take n xs))) (stops_of xs)"
proof -
  have "stops_of xs = stops_of (take n xs) @ stops_of (drop n xs)"
    by (metis append_take_drop_id stops_of_append)
  then show ?thesis by simp
qed

lemma services_of_take: "set (services_of (take n xs)) \<subseteq> set (services_of xs)"
proof -
  have "services_of xs = services_of (take n xs) @ services_of (drop n xs)"
    by (metis append_take_drop_id services_of_append)
  then show ?thesis by simp
qed

lemma fatal_at_simps:
  "flags (fatal_at n err st) = flags st"
  "registry (fatal_at n err st) = registry st"
  "pprof_fatal (fatal_at n err st) = pprof_fatal st"
  "trace (fatal_at n err st) = take n (trace st) @ [Log err]"
  "listeners (fatal_at n err st) =
     take (length (filter is_Start (take n (trace st)))) (listeners st)"
  by (simp_all add: fatal_at_def)

lemma started_ok_fatal_at:
  assumes "started_ok service st"
  shows "started_ok service (fatal_at n err st)"
proof -
  let ?k = "length (filter is_Start (take n (trace st)))"
  have f: "filter is_Start (trace st) = map (start_event service (flags st)) (listeners st)"
    and a: "map Addr (listeners st) = [0 ..< length (listeners st)]"
    and p: "stops_of (trace st) = []"
    and s: "set (services_of (trace st)) \<subseteq> {service}"
    using assms by (simp_all add: started_ok_def)
  have 1: "filter is_Start (take n (trace st)) =
             map (start_event service (flags st)) (take ?k (listeners st))"
    using filter_take_prefix[of is_Start n "trace st"] f by (metis take_map)
  have "map Addr (take ?k (listeners st)) = take ?k [0 ..< length (listeners st)]"
    using a by (metis take_map)
  then have 2: "map Addr (take ?k (listeners st)) = [0 ..< length (take ?k (listeners st))]"
    by (simp add: min_def)
  have 3: "stops_of (take n (trace st)) = []"
    using stops_of_take[of n "trace st"] p by simp
  have 4: "set (services_of (take n (trace st))) \<subseteq> {service}"
    using services_of_take[of n "trace st"] s by blast
  show ?thesis
    unfolding started_ok_def fatal_at_simps
    using 1 2 3 4 by (simp add: stops_of_append services_of_append)
qed

lemma with_pprof_None: "pprof_fatal (state_of r) = None \<Longrightarrow> with_pprof r = r"
  by (simp add: with_pprof_def)

lemma with_pprof_cases:
  "with_pprof r = r
   \<or> (\<exists>n err. pprof_fatal (state_of r) = Some (n, err) \<and> n < length (trace (state_of r)) \<and>
         with_pprof r = Exit 1 (fatal_at n err (state_of r)))
   \<or> (\<exists>n err st. r = Blocked st \<and> pprof_fatal st = Some (n, err) \<and>
         length (trace st) \<le> n \<and> with_pprof r = Exit 1 (emit (Log err) st))"
  by (cases r) (auto simp: with_pprof_def split: option.splits)

lemma with_pprof_Continue_iff:
  "with_pprof r = Continue st \<longleftrightarrow>
     r = Continue st \<and> (\<forall>n err. pprof_fatal st = Some (n, err) \<longrightarrow> length (trace st) \<le> n)"
  by (cases r) (auto simp: with_pprof_def split: option.splits)

lemma not_blocks_with_pprof: "\<not> blocks r \<Longrightarrow> \<not> blocks (with_pprof r)"
  by (cases r) (auto simp: with_pprof_def blocks_def split: option.splits)

subsection \<open>Start-up and shutdown\<close>

lemma startup_unfold:
  "startup env =
     (case checkFlags env (initial env) of
        Continue st \<Rightarrow>
          (case GetOrRegisterGauge ''build.version'' (registry st) of
             None \<Rightarrow> Panic (emit (Log (''Starting Wavefront Proxy Version '' @ version env)) st)
           | Some reg \<Rightarrow>
               with_pprof
                 (startListeners (service_of env (flags st)) (before_listeners env st reg)))
      | r \<Rightarrow> r)"
proof (cases "checkFlags env (initial env)")
  case (Continue st)
  show ?thesis
  proof (cases "GetOrRegisterGauge ''build.version'' (registry st)")
    case None
    then show ?thesis using Continue
      by (simp add: startup_def andThen_def Let_def emit_def)
  next
    case (Some reg)
    have "initAgent agentID url svc s = emit (InitAgent agentID svc url) s" for agentID url svc s
      by (simp add: initAgent_def)
    then show ?thesis using Continue Some
      by (cases st)
         (simp add: startup_def andThen_def Let_def emit_def apiService_def service_of_def
            before_listeners_def go_pprof_def split: option.splits)
  qed
qed (simp_all add: startup_def andThen_def)

lemma filter_is_Start_Nil: "starts_of es = [] \<Longrightarrow> filter is_Start es = []"
  by (induction es) (auto split: event.splits)

lemma initial_simps:
  "flags (initial env) = args env" "listeners (initial env) = []"
  "registry (initial env) = DefaultRegistry env" "trace (initial env) = []"
  "pprof_fatal (initial env) = None"
  by (simp_all add: initial_def)

lemma quiet_initial_started_ok:
  assumes "quiet (initial env) st"
  shows "started_ok service st" "listeners st = []" "starts_of (trace st) = []"
    "stops_of (trace st) = []" "services_of (trace st) = []"
    "registry st = DefaultRegistry env" "pprof_fatal st = None"
  using assms filter_is_Start_Nil[of "trace st"]
  by (simp_all add: quiet_def started_ok_def initial_simps)

lemma effective_afterConfig: "flags (state_of (afterConfig env (initial env))) = effective env"
  by (simp add: effective_def)

lemma checkFlags_Continue_effective:
  assumes "checkFlags env (initial env) = Continue st1"
  shows "flags st1 = (effective env)\<lparr>fHostnamePtr := effective_hostname env\<rparr>"
  using checkFlags_Continue_flags(1,2)[OF assms]
  unfolding effective_afterConfig effective_hostname_def by simp

lemma before_listeners_simps:
  "flags (before_listeners env st reg) = flags st"
  "listeners (before_listeners env st reg) = listeners st"
  "registry (before_listeners env st reg) =
     Update ''build.version'' (buildVersion (version env)) reg"
  "fPprofAddr (flags st) = [] \<Longrightarrow>
     pprof_fatal (before_listeners env st reg) = pprof_fatal st"
  "ListenAndServe env (fPprofAddr (flags st)) = None \<Longrightarrow> pprof_fatal st = None \<Longrightarrow>
     pprof_fatal (before_listeners env st reg) = None"
  by (simp_all add: before_listeners_def)

lemma before_listeners_started_ok:
  assumes "quiet (initial env) st"
  shows "started_ok (service_of env (flags st)) (before_listeners env st reg)"
  using quiet_initial_started_ok(1)[OF assms, where service = "service_of env (flags st)"]
    quiet_initial_started_ok(2-5)[OF assms]
  by (simp add: started_ok_def before_listeners_def stops_of_append services_of_append)

lemma ends_simps:
  "ends (Exit c st)" "ends (Panic st)" "\<not> ends (Continue st)" "\<not> ends (Blocked st)"
  by (simp_all add: ends_def)

lemma blocks_simps [simp]:
  "\<not> blocks (Continue st)" "\<not> blocks (Exit c st)" "\<not> blocks (Panic st)" "blocks (Blocked st)"
  by (simp_all add: blocks_def)

lemma not_blocks_andThen:
  "\<not> blocks r \<Longrightarrow> (\<And>s. \<not> blocks (f s)) \<Longrightarrow> \<not> blocks (andThen r f)"
  by (cases r) (simp_all add: andThen_def)

lemma not_blocks_afterConfig: "\<not> blocks (afterConfig env st)"
  by (simp add: afterConfig_def parseCfg_def log_Fatal_def split: sum.splits)

lemma not_blocks_checkRequiredFlag: "\<not> blocks (checkRequiredFlag val msg st)"
  by (simp add: checkRequiredFlag_def)

lemma not_blocks_checkHostname: "\<not> blocks (checkHostname env st)"
  by (simp add: checkHostname_def log_Fatal_def split: sum.splits)

lemma not_blocks_setupLogger: "\<not> blocks (setupLogger env st)"
  by (simp add: setupLogger_def split: option.splits)

lemma not_blocks_checkFlags: "\<not> blocks (checkFlags env st)"
proof (cases "fVersionPtr (flags st)")
  case True
  then show ?thesis by (simp add: checkFlags_alt)
next
  case False
  have "\<not> blocks (andThen (andThen (andThen (andThen (afterConfig env st)
          (\<lambda>st. checkRequiredFlag (fTokenPtr (flags st)) ''Missing token'' st))
          (\<lambda>st. checkRequiredFlag (fServerPtr (flags st)) ''Missing server'' st))
          (checkHostname env))
          (setupLogger env))"
    by (intro not_blocks_andThen not_blocks_afterConfig not_blocks_checkRequiredFlag
          not_blocks_checkHostname not_blocks_setupLogger)
  then show ?thesis using False by (simp add: checkFlags_alt)
qed

lemma not_blocks_startPointListeners_loop:
  "\<not> blocks (startPointListeners_loop service builder es st)"
proof (induction es arbitrary: st)
  case Nil
  then show ?case by simp
next
  case (Cons e es)
  obtain port err where a: "Atoi e = (port, err)" by (cases "Atoi e")
  show ?case using a Cons.IH by (cases err) (simp_all add: log_Fatal_def Let_def)
qed

lemma not_blocks_port_list:
  "\<not> blocks (if p \<noteq> [] then startPointListeners service p builder st else Continue st)"
  by (simp add: startPointListeners_def not_blocks_startPointListeners_loop)

lemma not_blocks_startListeners: "\<not> blocks (startListeners service st)"
  unfolding startListeners_def
  by (intro not_blocks_andThen not_blocks_port_list)

lemma not_blocks_startup: "\<not> blocks (startup env)"
proof (cases "checkFlags env (initial env)")
  case (Continue st)
  then show ?thesis unfolding startup_unfold
    by (cases "GetOrRegisterGauge ''build.version'' (registry st)")
       (simp_all add: not_blocks_startListeners not_blocks_with_pprof)
next
  case (Blocked st)
  then show ?thesis using not_blocks_checkFlags[of env "initial env"] by simp
qed (simp_all add: startup_unfold)

lemma startup_not_Blocked: "startup env \<noteq> Blocked st'"
  using not_blocks_startup[of env] by auto

lemma checkFlags_not_Blocked: "checkFlags env st \<noteq> Blocked st'"
  using not_blocks_checkFlags[of env st] by auto

lemma startup_Continue_or_ends: "(\<exists>st. startup env = Continue st) \<or> ends (startup env)"
  using not_blocks_startup[of env] by (cases "startup env") (simp_all add: ends_simps)

lemma startup_state:
  "(\<exists>st1. checkFlags env (initial env) = Continue st1 \<and>
          flags (state_of (startup env)) = flags st1 \<and>
          started_ok (service_of env (flags st1)) (state_of (startup env)))
   \<or> (ends (startup env) \<and> quiet (initial env) (state_of (startup env)))"
proof (cases "checkFlags env (initial env)")
  case (Continue st1)
  have q: "quiet (initial env) st1" using quiet_checkFlags[of "initial env" env] Continue by simp
  show ?thesis
  proof (cases "GetOrRegisterGauge ''build.version'' (registry st1)")
    case None
    have "quiet (initial env) (emit (Log (''Starting Wavefront Proxy Version '' @ version env)) st1)"
      by (rule quiet_trans[OF q quiet_emit_Log])
    then show ?thesis using Continue None unfolding startup_unfold by (simp add: ends_simps)
  next
    case (Some reg)
    let ?r = "startListeners (service_of env (flags st1)) (before_listeners env st1 reg)"
    have i: "started_ok (service_of env (flags st1)) (state_of ?r)"
        "flags (state_of ?r) = flags st1"
      using startListeners_inv[OF before_listeners_started_ok[OF q, of reg]]
      by (simp_all add: before_listeners_simps)
    have "started_ok (service_of env (flags st1)) (state_of (with_pprof ?r)) \<and>
          flags (state_of (with_pprof ?r)) = flags st1"
      using with_pprof_cases[of ?r] i not_blocks_startListeners[of "service_of env (flags st1)"
          "before_listeners env st1 reg"]
      by (auto simp: started_ok_fatal_at fatal_at_simps)
    then show ?thesis using Continue Some unfolding startup_unfold by simp
  qed
next
  case (Exit c st)
  then show ?thesis using quiet_checkFlags[of "initial env" env]
    unfolding startup_unfold by (simp add: ends_simps)
next
  case (Panic st)
  then show ?thesis using quiet_checkFlags[of "initial env" env]
    unfolding startup_unfold by (simp add: ends_simps)
next
  case (Blocked st)
  then show ?thesis using checkFlags_not_Blocked by blast
qed

lemma startup_started_ok:
  "started_ok (service_of env ((effective env)\<lparr>fHostnamePtr := effective_hostname env\<rparr>))
     (state_of (startup env))"
  using startup_state[of env] checkFlags_Continue_effective[of env]
    quiet_initial_started_ok(1)[where env = env and st = "state_of (startup env)"]
  by auto

lemma startup_listeners_length:
  "length (filter is_Start (trace (state_of (startup env)))) =
     length (listeners (state_of (startup env)))"
proof -
  have "filter is_Start (trace (state_of (startup env))) =
          map (start_event
                 (service_of env ((effective env)\<lparr>fHostnamePtr := effective_hostname env\<rparr>))
                 (flags (state_of (startup env))))
            (listeners (state_of (startup env)))"
    using startup_started_ok[of env] by (simp add: started_ok_def)
  then show ?thesis by (metis length_map)
qed

lemma stopListeners_loop_trace:
  "stopListeners_loop ls st = st\<lparr>trace := trace st @ map Stop ls\<rparr>"
  by (induction ls arbitrary: st) (simp_all add: emit_def)

lemma stopListeners_eq: "stopListeners st = st\<lparr>trace := trace st @ map Stop (listeners st)\<rparr>"
  by (simp add: stopListeners_def stopListeners_loop_trace)

lemma waitForShutdown_Interrupt:
  "Interrupt \<in> set sigs \<Longrightarrow>
     waitForShutdown sigs st =
       Exit 0 (st\<lparr>trace := trace st @ Log ''Stopping Wavefront Proxy'' # map Stop (listeners st)\<rparr>)"
  by (induction sigs) (auto simp: stopListeners_eq emit_def)

lemma waitForShutdown_no_Interrupt:
  "Interrupt \<notin> set sigs \<Longrightarrow> waitForShutdown sigs st = Blocked st"
  by (induction sigs) auto

lemma startup_Continue_pending:
  assumes "startup env = Continue st"
  shows "\<forall>n err. pprof_fatal st = Some (n, err) \<longrightarrow> length (trace st) \<le> n"
proof (cases "checkFlags env (initial env)")
  case (Continue st1)
  have q: "quiet (initial env) st1" using quiet_checkFlags[of "initial env" env] Continue by simp
  show ?thesis
  proof (cases "GetOrRegisterGauge ''build.version'' (registry st1)")
    case None
    then show ?thesis using assms Continue unfolding startup_unfold by simp
  next
    case (Some reg)
    then show ?thesis using assms Continue unfolding startup_unfold
      by (simp add: with_pprof_Continue_iff)
  qed
qed (use assms in \<open>simp_all add: startup_unfold\<close>)

lemma shutdown_calls:
  "filter is_Start (Log msg # map Stop ls) = []" "services_of (Log msg # map Stop ls) = []"
  "stops_of (Log msg # map Stop ls) = ls"
proof -
  show "filter is_Start (Log msg # map Stop ls) = []" by (induction ls) auto
  show "services_of (Log msg # map Stop ls) = []" by (induction ls) auto
  show "stops_of (Log msg # map Stop ls) = ls" by (induction ls) auto
qed

lemma shutdown_calls_take:
  "filter is_Start (take m (Log msg # map Stop ls)) = []"
  "services_of (take m (Log msg # map Stop ls)) = []"
  "\<exists>j. stops_of (take m (Log msg # map Stop ls)) = take j ls"
proof -
  show "filter is_Start (take m (Log msg # map Stop ls)) = []"
    using filter_take_prefix[of is_Start m "Log msg # map Stop ls"]
    unfolding shutdown_calls by simp
  show "services_of (take m (Log msg # map Stop ls)) = []"
    using services_of_take[of m "Log msg # map Stop ls"] unfolding shutdown_calls by simp
  show "\<exists>j. stops_of (take m (Log msg # map Stop ls)) = take j ls"
    using stops_of_take[of m "Log msg # map Stop ls"] unfolding shutdown_calls by blast
qed

lemma main_Continue_cases:
  assumes st: "startup env = Continue st"
  shows "(Interrupt \<notin> set (signals env) \<and> pprof_fatal st = None \<and> main env = Blocked st)
   \<or> (Interrupt \<notin> set (signals env) \<and>
        (\<exists>n err. pprof_fatal st = Some (n, err) \<and> main env = Exit 1 (emit (Log err) st)))
   \<or> (Interrupt \<in> set (signals env) \<and>
        (\<forall>n err. pprof_fatal st = Some (n, err) \<longrightarrow>
           length (trace st) + 1 + length (listeners st) \<le> n) \<and>
        main env = Exit 0 (st\<lparr>trace := trace st @
           Log ''Stopping Wavefront Proxy'' # map Stop (listeners st)\<rparr>))
   \<or> (Interrupt \<in> set (signals env) \<and>
        (\<exists>n err. pprof_fatal st = Some (n, err) \<and>
           n < length (trace st) + 1 + length (listeners st) \<and>
           main env = Exit 1 (st\<lparr>trace := trace st @
             take (n - length (trace st))
               (Log ''Stopping Wavefront Proxy'' # map Stop (listeners st)) @ [Log err]\<rparr>)))"
proof (cases "Interrupt \<in> set (signals env)")
  case False
  have m: "main env = with_pprof (Blocked st)"
    using st waitForShutdown_no_Interrupt[OF False, of st] by (simp add: main_def andThen_def)
  show ?thesis
  proof (cases "pprof_fatal st")
    case None
    then show ?thesis using False m by (simp add: with_pprof_def)
  next
    case (Some a)
    obtain n err where a: "a = (n, err)" by (cases a)
    have "length (trace st) \<le> n" using startup_Continue_pending[OF st] Some a by simp
    then show ?thesis using False m Some a by (simp add: with_pprof_def)
  qed
next
  case True
  let ?X = "Log ''Stopping Wavefront Proxy'' # map Stop (listeners st)"
  let ?st2 = "st\<lparr>trace := trace st @ ?X\<rparr>"
  have m: "main env = with_pprof (Exit 0 ?st2)"
    using st waitForShutdown_Interrupt[OF True, of st] by (simp add: main_def andThen_def)
  show ?thesis
  proof (cases "pprof_fatal st")
    case None
    then show ?thesis using True m by (simp add: with_pprof_def)
  next
    case (Some a)
    obtain n err where a: "a = (n, err)" by (cases a)
    have le: "length (trace st) \<le> n" using startup_Continue_pending[OF st] Some a by simp
    show ?thesis
    proof (cases "n < length (trace st) + 1 + length (listeners st)")
      case False
      then show ?thesis using True m Some a by (simp add: with_pprof_def)
    next
      case lt: True
      have k: "filter is_Start (take n (trace st @ ?X)) = filter is_Start (trace st)"
        using le shutdown_calls_take(1)[of "n - length (trace st)" "''Stopping Wavefront Proxy''"
            "listeners st"]
        by simp
      have "length (filter is_Start (trace st)) = length (listeners st)"
        using startup_listeners_length[of env] st by simp
      then have "fatal_at n err ?st2 =
          st\<lparr>trace := trace st @ take (n - length (trace st)) ?X @ [Log err]\<rparr>"
        using le k by (simp add: fatal_at_def)
      then show ?thesis using True m Some a lt by (simp add: with_pprof_def)
    qed
  qed
qed

lemma main_trace:
  "\<exists>extra j. trace (state_of (main env)) = trace (state_of (startup env)) @ extra \<and>
     filter is_Start extra = [] \<and> services_of extra = [] \<and>
     stops_of extra = take j (listeners (state_of (startup env)))"
proof (cases "startup env")
  case (Continue st)
  let ?X = "Log ''Stopping Wavefront Proxy'' # map Stop (listeners st)"
  from main_Continue_cases[OF Continue]
  consider (a) "main env = Blocked st"
    | (b) err where "main env = Exit 1 (emit (Log err) st)"
    | (c) "main env = Exit 0 (st\<lparr>trace := trace st @ ?X\<rparr>)"
    | (d) m err where "main env = Exit 1 (st\<lparr>trace := trace st @ take m ?X @ [Log err]\<rparr>)"
    by blast
  then show ?thesis
  proof cases
    case a
    then show ?thesis using Continue by (intro exI[of _ "[]"] exI[of _ 0]) simp
  next
    case b
    then show ?thesis using Continue
      by (intro exI[of _ "[Log err]"] exI[of _ 0]) (simp add: emit_def)
  next
    case c
    then show ?thesis using Continue shutdown_calls[of "''Stopping Wavefront Proxy''" "listeners st"]
      by (intro exI[of _ ?X] exI[of _ "length (listeners st)"]) simp
  next
    case d
    obtain j where j: "stops_of (take m ?X) = take j (listeners st)"
      using shutdown_calls_take(3) by blast
    show ?thesis using d Continue j
        shutdown_calls_take(1,2)[of m "''Stopping Wavefront Proxy''" "listeners st"]
      by (intro exI[of _ "take m ?X @ [Log err]"] exI[of _ j])
         (simp add: stops_of_append services_of_append)
  qed
qed (simp_all add: main_def andThen_def)

lemma startListeners_Continue_valid:
  assumes "startListeners service st = Continue st'"
  shows "\<forall>e \<in> set (port_entries (fWavefrontPortsPtr (flags st))) \<union>
                 set (port_entries (fOpenTSDBPortsPtr (flags st))). snd (Atoi e) = None"
proof (rule ccontr)
  let ?push = "port_entries (fWavefrontPortsPtr (flags st))"
  let ?tsdb = "port_entries (fOpenTSDBPortsPtr (flags st))"
  assume "\<not> (\<forall>e \<in> set ?push \<union> set ?tsdb. snd (Atoi e) = None)"
  then consider (push) "\<exists>e \<in> set ?push. snd (Atoi e) \<noteq> None"
    | (tsdb) "\<forall>e \<in> set ?push. snd (Atoi e) = None" "\<exists>e \<in> set ?tsdb. snd (Atoi e) \<noteq> None"
    by blast
  then show False
  proof cases
    case push
    from split_at_first_invalid[OF push] obtain good bad rest where
      "?push = good @ bad # rest" "\<forall>e \<in> set good. snd (Atoi e) = None" "snd (Atoi bad) \<noteq> None"
      by blast
    from startListeners_push_invalid[OF this] assms show False by simp
  next
    case tsdb
    from split_at_first_invalid[OF tsdb(2)] obtain good bad rest where
      "?tsdb = good @ bad # rest" "\<forall>e \<in> set good. snd (Atoi e) = None" "snd (Atoi bad) \<noteq> None"
      by blast
    from startListeners_opentsdb_invalid[OF tsdb(1) this] assms show False by simp
  qed
qed

lemma expected_listeners_hostname:
  "expected_listeners (fl\<lparr>fHostnamePtr := h\<rparr>) n = expected_listeners fl n"
  by (simp add: expected_listeners_def)

lemma startup_Continue:
  assumes "startup env = Continue st"
  shows "\<exists>st1 reg. checkFlags env (initial env) = Continue st1 \<and>
           GetOrRegisterGauge ''build.version'' (DefaultRegistry env) = Some reg \<and>
           startListeners (service_of env (flags st1)) (before_listeners env st1 reg) = Continue st"
proof (cases "checkFlags env (initial env)")
  case (Continue st1)
  have q: "quiet (initial env) st1" using quiet_checkFlags[of "initial env" env] Continue by simp
  then have r: "registry st1 = DefaultRegistry env" by (rule quiet_initial_started_ok(6))
  show ?thesis using assms Continue r unfolding startup_unfold
    by (auto simp: with_pprof_Continue_iff split: option.splits)
qed (use assms in \<open>simp_all add: startup_unfold\<close>)

lemma startup_Continue_listeners:
  assumes "startup env = Continue st"
  shows "listeners st = expected_listeners (effective env) 0"
    and "\<forall>e \<in> set (port_entries (fWavefrontPortsPtr (effective env))) \<union>
                 set (port_entries (fOpenTSDBPortsPtr (effective env))). snd (Atoi e) = None"
proof -
  from startup_Continue[OF assms] obtain st1 reg where
    c: "checkFlags env (initial env) = Continue st1" and
    s: "startListeners (service_of env (flags st1)) (before_listeners env st1 reg) = Continue st"
    by blast
  have q: "quiet (initial env) st1" using quiet_checkFlags[of "initial env" env] c by simp
  have l: "listeners st1 = []" using q by (rule quiet_initial_started_ok(2))
  have fl: "flags st1 = (effective env)\<lparr>fHostnamePtr := effective_hostname env\<rparr>"
    by (rule checkFlags_Continue_effective[OF c])
  from startListeners_Continue_valid[OF s]
  have v: "\<forall>e \<in> set (port_entries (fWavefrontPortsPtr (flags st1))) \<union>
                 set (port_entries (fOpenTSDBPortsPtr (flags st1))). snd (Atoi e) = None"
    by (simp add: before_listeners_simps)
  then show "\<forall>e \<in> set (port_entries (fWavefrontPortsPtr (effective env))) \<union>
                 set (port_entries (fOpenTSDBPortsPtr (effective env))). snd (Atoi e) = None"
    unfolding fl by simp
  from v have "startListeners (service_of env (flags st1)) (before_listeners env st1 reg) =
      Continue (with_started (service_of env (flags st1))
         (expected_listeners (flags st1) 0) (before_listeners env st1 reg))"
    using startListeners_valid[of "before_listeners env st1 reg" "service_of env (flags st1)"]
    by (simp add: before_listeners_simps l)
  with s have "st = with_started (service_of env (flags st1))
         (expected_listeners (flags st1) 0) (before_listeners env st1 reg)" by simp
  then show "listeners st = expected_listeners (effective env) 0"
    by (simp add: with_started_simps before_listeners_simps l fl expected_listeners_hostname)
qed

lemma main_of_ended_startup: "ends (startup env) \<Longrightarrow> main env = startup env"
  by (cases "startup env") (simp_all add: ends_def main_def andThen_def)

lemma checkHostname_Continue_other:
  "checkHostname env s1 = Continue s2 \<Longrightarrow>
     flags s2 = (flags s1)\<lparr>fHostnamePtr := fHostnamePtr (flags s2)\<rparr>"
  by (auto simp: checkHostname_def log_Fatal_def split: if_splits sum.splits)

lemma checkFlags_passes:
  assumes "\<not> fVersionPtr (args env)"
      and "afterConfig env (initial env) = Continue s"
      and "fTokenPtr (effective env) \<noteq> []" and "fServerPtr (effective env) \<noteq> []"
      and "fHostnamePtr (effective env) = [] \<longrightarrow> (\<exists>h. os_Hostname env = Inr h)"
      and "fLogFilePtr (effective env) \<noteq> [] \<longrightarrow> os_Create env (fLogFilePtr (effective env)) = None"
  shows "\<exists>st1. checkFlags env (initial env) = Continue st1"
proof -
  have fs: "flags s = effective env" using assms(2) by (simp add: effective_def)
  have "\<exists>s2. checkHostname env s = Continue s2"
    using assms(5) fs by (auto simp: checkHostname_def split: sum.splits)
  then obtain s2 where h: "checkHostname env s = Continue s2" ..
  have "fLogFilePtr (flags s2) = fLogFilePtr (flags s)"
    by (subst checkHostname_Continue_other[OF h]) simp
  then have "\<exists>st1. setupLogger env s2 = Continue st1"
    using assms(6) fs by (auto simp: setupLogger_def split: option.splits)
  then obtain st1 where l: "setupLogger env s2 = Continue st1" ..
  show ?thesis
    unfolding checkFlags_Continue_iff
    using assms(1,2,3,4) fs h l by (auto simp: initial_simps)
qed

lemma main_filter_Start:
  "filter is_Start (trace (state_of (main env))) = filter is_Start (trace (state_of (startup env)))"
  using main_trace[of env] by auto

lemma main_services:
  "services_of (trace (state_of (main env))) = services_of (trace (state_of (startup env)))"
  using main_trace[of env] by (auto simp: services_of_append)

lemma checkFlags_plain:
  "\<not> fVersionPtr (args env) \<Longrightarrow> fCfgPtr (args env) = [] \<Longrightarrow> fTokenPtr (args env) \<noteq> [] \<Longrightarrow>
   fServerPtr (args env) \<noteq> [] \<Longrightarrow> fHostnamePtr (args env) = [] \<Longrightarrow>
   os_Hostname env = Inr h \<Longrightarrow> fLogFilePtr (args env) = [] \<Longrightarrow>
     checkFlags env (initial env) =
       Continue ((initial env)\<lparr>flags := (args env)\<lparr>fHostnamePtr := h\<rparr>\<rparr>)"
  by (simp add: checkFlags_def andThen_def checkRequiredFlag_def checkHostname_def
        setupLogger_def initial_def)

lemma effective_plain: "fCfgPtr (args env) = [] \<Longrightarrow> effective env = args env"
  by (simp add: effective_def afterConfig_def initial_def)

lemma startup_no_pprof:
  assumes c: "checkFlags env (initial env) = Continue st1"
      and r: "GetOrRegisterGauge ''build.version'' (DefaultRegistry env) = Some reg"
      and p: "fPprofAddr (flags st1) = [] \<or> ListenAndServe env (fPprofAddr (flags st1)) = None"
  shows "startup env =
           startListeners (service_of env (flags st1)) (before_listeners env st1 reg)"
    and "pprof_fatal (state_of (startup env)) = None"
proof -
  let ?r = "startListeners (service_of env (flags st1)) (before_listeners env st1 reg)"
  have q: "quiet (initial env) st1" using quiet_checkFlags[of "initial env" env] c by simp
  have reg: "GetOrRegisterGauge ''build.version'' (registry st1) = Some reg"
    using r quiet_initial_started_ok(6)[OF q] by simp
  have "pprof_fatal (before_listeners env st1 reg) = None"
    using p quiet_initial_started_ok(7)[OF q] by (auto simp: before_listeners_simps)
  then have n: "pprof_fatal (state_of ?r) = None"
    using startListeners_inv[OF before_listeners_started_ok[OF q, of reg]] by simp
  show "startup env = ?r"
    unfolding startup_unfold c using reg with_pprof_None[OF n] by simp
  then show "pprof_fatal (state_of (startup env)) = None" using n by simp
qed

lemma startup_push_invalid:
  assumes c: "checkFlags env (initial env) = Continue st1"
      and r: "GetOrRegisterGauge ''build.version'' (DefaultRegistry env) = Some reg"
      and p: "port_entries (fWavefrontPortsPtr (flags st1)) = good @ bad # rest"
             "\<forall>e \<in> set good. snd (Atoi e) = None" "snd (Atoi bad) \<noteq> None"
      and n: "fPprofAddr (flags st1) = []"
  shows "startup env =
           Exit 1 (emit (Log (''Invalid port '' @ bad))
             (with_started (service_of env (flags st1))
                (new_listeners 0 GraphiteBuilder good) (before_listeners env st1 reg)))"
proof -
  have q: "quiet (initial env) st1" using quiet_checkFlags[of "initial env" env] c by simp
  have l: "listeners (before_listeners env st1 reg) = []"
    using quiet_initial_started_ok(2)[OF q] by (simp add: before_listeners_simps)
  have p': "port_entries (fWavefrontPortsPtr (flags (before_listeners env st1 reg))) =
              good @ bad # rest"
    using p(1) by (simp add: before_listeners_simps)
  show ?thesis
    unfolding startup_no_pprof(1)[OF c r disjI1[OF n]]
    using startListeners_push_invalid[OF p' p(2,3)] by (simp add: l)
qed

subsection \<open>The listeners of the accepted entries\<close>

lemma new_listeners_append:
  "new_listeners n builder (xs @ ys) =
     new_listeners n builder xs @ new_listeners (n + length xs) builder ys"
  by (induction xs arbitrary: n) (simp_all add: new_listeners_Nil new_listeners_Cons)

lemma length_expected_listeners: "length (expected_listeners fl n) = length (all_entries fl)"
  by (simp add: expected_listeners_def all_entries_def length_new_listeners)

lemma all_entries_hostname: "all_entries (fl\<lparr>fHostnamePtr := h\<rparr>) = all_entries fl"
  by (simp add: all_entries_def)

lemma accepted_all: "\<forall>e \<in> set es. snd (Atoi e) = None \<Longrightarrow> accepted es = es"
  by (simp add: accepted_def)

lemma accepted_first_invalid:
  "\<forall>e \<in> set good. snd (Atoi e) = None \<Longrightarrow> snd (Atoi bad) \<noteq> None \<Longrightarrow>
     accepted (good @ bad # rest) = good"
  by (simp add: accepted_def takeWhile_tail)

lemma startListeners_first_invalid:
  assumes a: "all_entries (flags st) = good @ bad # rest"
      and g: "\<forall>e \<in> set good. snd (Atoi e) = None" and b: "snd (Atoi bad) \<noteq> None"
  shows "startListeners service st =
           Exit 1 (emit (Log (''Invalid port '' @ bad))
             (with_started service
                (take (length good) (expected_listeners (flags st) (length (listeners st)))) st))"
proof -
  let ?push = "port_entries (fWavefrontPortsPtr (flags st))"
  let ?tsdb = "port_entries (fOpenTSDBPortsPtr (flags st))"
  let ?n = "length (listeners st)"
  from a have "?push @ ?tsdb = good @ bad # rest" by (simp add: all_entries_def)
  then consider (push) us where "?push = good @ bad # us"
    | (tsdb) us where "good = ?push @ us" "?tsdb = us @ bad # rest"
    by (auto simp: append_eq_append_conv2 append_eq_Cons_conv Cons_eq_append_conv)
  then show ?thesis
  proof cases
    case push
    have "take (length good) (expected_listeners (flags st) ?n) =
            new_listeners ?n GraphiteBuilder good"
      by (simp add: expected_listeners_def push new_listeners_append length_new_listeners)
    then show ?thesis using startListeners_push_invalid[OF push g b, of service] by simp
  next
    case tsdb
    have v: "\<forall>e \<in> set ?push. snd (Atoi e) = None" "\<forall>e \<in> set us. snd (Atoi e) = None"
      using g tsdb(1) by (metis Un_iff set_append)+
    have "take (length good) (expected_listeners (flags st) ?n) =
            new_listeners ?n GraphiteBuilder ?push @
            new_listeners (?n + length ?push) OpenTSDBBuilder us"
      unfolding expected_listeners_def tsdb(2)
      by (subst tsdb(1)) (simp add: new_listeners_append length_new_listeners)
    then show ?thesis
      using startListeners_opentsdb_invalid[OF v(1) tsdb(2) v(2) b, of service] by simp
  qed
qed

lemma startListeners_all_valid:
  assumes "\<forall>e \<in> set (all_entries (flags st)). snd (Atoi e) = None"
  shows "startListeners service st =
           Continue (with_started service
             (expected_listeners (flags st) (length (listeners st))) st)"
  using assms by (intro startListeners_valid) (simp_all add: all_entries_def)

lemma startListeners_starts:
  "starts_of (trace (state_of (startListeners service st))) =
     starts_of (trace st) @
     take (length (accepted (all_entries (flags st))))
       (expected_listeners (flags st) (length (listeners st)))"
proof (cases "\<forall>e \<in> set (all_entries (flags st)). snd (Atoi e) = None")
  case True
  show ?thesis
    unfolding startListeners_all_valid[OF True] accepted_all[OF True]
    by (simp add: with_started_simps starts_of_append starts_of_start_events
          length_expected_listeners)
next
  case False
  then obtain good bad rest where s: "all_entries (flags st) = good @ bad # rest"
      "\<forall>e \<in> set good. snd (Atoi e) = None" "snd (Atoi bad) \<noteq> None"
    using split_at_first_invalid[of "all_entries (flags st)"] by blast
  show ?thesis
    unfolding startListeners_first_invalid[OF s] s(1) accepted_first_invalid[OF s(2,3)]
    by (simp add: emit_def with_started_simps starts_of_append starts_of_start_events)
qed

lemma starts_of_main: "starts_of (trace (state_of (main env))) = starts_of (trace (state_of (startup env)))"
  using main_filter_Start[of env] starts_of_filter by metis

lemma startup_starts:
  "\<exists>j \<le> length (accepted (all_entries (effective env))).
     starts_of (trace (state_of (startup env))) = take j (expected_listeners (effective env) 0)"
proof (cases "checkFlags env (initial env)")
  case (Continue st1)
  have q: "quiet (initial env) st1" using quiet_checkFlags[of "initial env" env] Continue by simp
  have fl: "flags st1 = (effective env)\<lparr>fHostnamePtr := effective_hostname env\<rparr>"
    by (rule checkFlags_Continue_effective[OF Continue])
  show ?thesis
  proof (cases "GetOrRegisterGauge ''build.version'' (registry st1)")
    case None
    have "starts_of (trace (emit (Log (''Starting Wavefront Proxy Version '' @ version env)) st1)) = []"
      using quiet_initial_started_ok(3)[OF q] by (simp add: emit_def starts_of_append)
    then show ?thesis using Continue None unfolding startup_unfold
      by (intro exI[of _ 0]) simp
  next
    case (Some reg)
    let ?b = "before_listeners env st1 reg"
    let ?r = "startListeners (service_of env (flags st1)) ?b"
    let ?J = "length (accepted (all_entries (effective env)))"
    have b: "starts_of (trace ?b) = []" "listeners ?b = []" "flags ?b = flags st1"
      using quiet_initial_started_ok(2,3)[OF q]
      by (simp_all add: before_listeners_def starts_of_append)
    have r: "starts_of (trace (state_of ?r)) = take ?J (expected_listeners (effective env) 0)"
      unfolding startListeners_starts b
      by (simp add: fl all_entries_hostname expected_listeners_hostname)
    have s: "startup env = with_pprof ?r" using Continue Some unfolding startup_unfold by simp
    from with_pprof_cases[of ?r] not_blocks_startListeners[of "service_of env (flags st1)" ?b]
    consider (same) "with_pprof ?r = ?r"
      | (cut) n err where "with_pprof ?r = Exit 1 (fatal_at n err (state_of ?r))"
      by auto
    then show ?thesis
    proof cases
      case same
      then show ?thesis unfolding s using r by (intro exI[of _ ?J]) simp
    next
      case cut
      let ?k = "length (starts_of (take n (trace (state_of ?r))))"
      have "starts_of (trace (state_of (startup env))) =
              take ?k (take ?J (expected_listeners (effective env) 0))"
        unfolding s cut using starts_of_take[of n "trace (state_of ?r)"] r
        by (simp add: fatal_at_simps starts_of_append)
      then show ?thesis by (intro exI[of _ "min ?k ?J"]) (simp add: min.commute)
    qed
  qed
next
  case (Exit c st)
  then show ?thesis
    using quiet_checkFlags[of "initial env" env] quiet_initial_started_ok(3)[of env st]
    unfolding startup_unfold by (intro exI[of _ 0]) simp
next
  case (Panic st)
  then show ?thesis
    using quiet_checkFlags[of "initial env" env] quiet_initial_started_ok(3)[of env st]
    unfolding startup_unfold by (intro exI[of _ 0]) simp
next
  case (Blocked st)
  then show ?thesis using checkFlags_not_Blocked by blast
qed

lemma pprof_serves_flags:
  assumes "pprof_serves env" "checkFlags env (initial env) = Continue st1"
  shows "fPprofAddr (flags st1) = [] \<or> ListenAndServe env (fPprofAddr (flags st1)) = None"
  using assms checkFlags_Continue_effective[OF assms(2)] by (simp add: pprof_serves_def)

subsection \<open>A pprof server that fails\<close>

lemma startup_Continue_failing_pprof:
  assumes st: "startup env = Continue st"
      and a: "fPprofAddr (effective env) \<noteq> []"
      and l: "ListenAndServe env (fPprofAddr (effective env)) = Some (n, err)"
  shows "\<exists>d. pprof_fatal st = Some (d, err)"
proof -
  from startup_Continue[OF st] obtain st1 reg where
    c: "checkFlags env (initial env) = Continue st1" and
    s: "startListeners (service_of env (flags st1)) (before_listeners env st1 reg) = Continue st"
    by blast
  have q: "quiet (initial env) st1" using quiet_checkFlags[of "initial env" env] c by simp
  have fl: "fPprofAddr (flags st1) = fPprofAddr (effective env)"
    using checkFlags_Continue_effective[OF c] by simp
  have "pprof_fatal st = pprof_fatal (before_listeners env st1 reg)"
    using startListeners_inv[OF before_listeners_started_ok[OF q, of reg]] s by simp
  then show ?thesis using a l fl by (simp add: before_listeners_def)
qed

lemma failing_pprof_ends:
  assumes "fPprofAddr (effective env) \<noteq> []"
      and "ListenAndServe env (fPprofAddr (effective env)) = Some (n, err)"
  shows "ends (main env)"
proof (cases "startup env")
  case (Continue st)
  from startup_Continue_failing_pprof[OF Continue assms]
  obtain d where "pprof_fatal st = Some (d, err)" ..
  then show ?thesis using main_Continue_cases[OF Continue] by (auto simp: ends_simps)
next
  case (Blocked st)
  then show ?thesis using startup_not_Blocked by blast
qed (simp_all add: main_def andThen_def ends_simps)

subsection \<open>The example run\<close>

lemmas example_defs = example_env_def example_flags_def example_config_def

lemma effective_example: "effective example_env = example_flags"
  by (simp add: effective_def afterConfig_def initial_def example_defs)

lemma entries_example:
  "port_entries ''2878,2879'' = [''2878'', ''2879'']" "port_entries ''4242'' = [''4242'']"
  "port_entries ''4242,x'' = [''4242'', ''x'']"
  by (simp_all add: port_entries_def)

lemma Atoi_example:
  "Atoi ''2878'' = (2878, None)" "Atoi ''2879'' = (2879, None)" "Atoi ''4242'' = (4242, None)"
  by (simp_all add: Atoi_eval)

lemma expected_example:
  "expected_listeners (effective example_env) 0 =
     [\<lparr>Addr = 0, Port = 2878, Builder = GraphiteBuilder\<rparr>,
      \<lparr>Addr = 1, Port = 2879, Builder = GraphiteBuilder\<rparr>,
      \<lparr>Addr = 2, Port = 4242, Builder = OpenTSDBBuilder\<rparr>]"
  unfolding effective_example
  by (simp add: expected_listeners_def example_flags_def entries_example
        new_listeners_Cons new_listeners_Nil Atoi_example)

lemma checkFlags_example:
  "checkFlags example_env (initial example_env) =
     Continue ((initial example_env)\<lparr>flags := example_flags\<lparr>fHostnamePtr := ''collector-1''\<rparr>\<rparr>)"
  by (simp add: checkFlags_def andThen_def checkRequiredFlag_def checkHostname_def
        setupLogger_def initial_def example_defs)

lemma startup_example_unfold:
  "startup example_env =
     startListeners (service_of example_env (example_flags\<lparr>fHostnamePtr := ''collector-1''\<rparr>))
       (before_listeners example_env
          ((initial example_env)\<lparr>flags := example_flags\<lparr>fHostnamePtr := ''collector-1''\<rparr>\<rparr>)
          [(''points.received'', Counter 0), (''build.version'', Gauge 0)])"
proof -
  have reg: "GetOrRegisterGauge ''build.version'' (DefaultRegistry example_env) =
               Some [(''points.received'', Counter 0), (''build.version'', Gauge 0)]"
    by (simp add: GetOrRegisterGauge_def example_defs)
  show ?thesis
    using startup_no_pprof(1)[OF checkFlags_example reg] by (simp add: example_flags_def)
qed

lemma startup_example: "\<exists>st. startup example_env = Continue st"
proof -
  let ?st1 = "(initial example_env)\<lparr>flags := example_flags\<lparr>fHostnamePtr := ''collector-1''\<rparr>\<rparr>"
  have v: "\<forall>e \<in> set (port_entries (fWavefrontPortsPtr (flags (before_listeners example_env ?st1 reg)))).
             snd (Atoi e) = None"
          "\<forall>e \<in> set (port_entries (fOpenTSDBPortsPtr (flags (before_listeners example_env ?st1 reg)))).
             snd (Atoi e) = None" for reg
    by (simp_all add: before_listeners_simps example_flags_def entries_example Atoi_example)
  show ?thesis
    unfolding startup_example_unfold using startListeners_valid[OF v] by simp
qed

lemma buildVersion_example: "buildVersion ''4.2'' = 4002000"
  by (simp add: buildVersion_def Atoi_eval)

lemma service_example:
  "service_of example_env (example_flags\<lparr>fHostnamePtr := ''collector-1''\<rparr>) =
     \<lparr>ServerURL = ''https://metrics.example.com/api/'', AgentID = ''agent-1'',
      ApiHostname = ''collector-1'', ApiToken = ''t0ken'', ApiVersion = ''4.2''\<rparr>"
  by (simp add: service_of_def example_defs)

lemma startup_example_eq:
  "startup example_env =
     Continue
       \<lparr>flags = example_flags\<lparr>fHostnamePtr := ''collector-1''\<rparr>,
        listeners = expected_listeners (effective example_env) 0,
        registry = [(''points.received'', Counter 0), (''build.version'', Gauge 4002000)],
        trace =
          Log ''Starting Wavefront Proxy Version 4.2'' #
          InitAgent ''agent-1''
            (service_of example_env (example_flags\<lparr>fHostnamePtr := ''collector-1''\<rparr>))
            ''https://metrics.example.com/api/'' #
          map (start_event
                 (service_of example_env (example_flags\<lparr>fHostnamePtr := ''collector-1''\<rparr>))
                 (example_flags\<lparr>fHostnamePtr := ''collector-1''\<rparr>))
            (expected_listeners (effective example_env) 0),
        pprof_fatal = None\<rparr>"
proof -
  let ?fl = "example_flags\<lparr>fHostnamePtr := ''collector-1''\<rparr>"
  let ?st1 = "(initial example_env)\<lparr>flags := ?fl\<rparr>"
  let ?reg = "[(''points.received'', Counter 0), (''build.version'', Gauge 0)]"
  have v: "\<forall>e \<in> set (port_entries (fWavefrontPortsPtr (flags (before_listeners example_env ?st1 ?reg)))).
             snd (Atoi e) = None"
          "\<forall>e \<in> set (port_entries (fOpenTSDBPortsPtr (flags (before_listeners example_env ?st1 ?reg)))).
             snd (Atoi e) = None"
    by (simp_all add: before_listeners_simps example_flags_def entries_example Atoi_example)
  have ex: "expected_listeners ?fl 0 = expected_listeners (effective example_env) 0"
    unfolding effective_example by (rule expected_listeners_hostname)
  have up: "Update ''build.version'' (buildVersion ''4.2'') ?reg =
              [(''points.received'', Counter 0), (''build.version'', Gauge 4002000)]"
    by (simp add: Update_def buildVersion_example)
  have bl: "before_listeners example_env ?st1 ?reg =
       \<lparr>flags = ?fl, listeners = [],
        registry = [(''points.received'', Counter 0), (''build.version'', Gauge 4002000)],
        trace = [Log ''Starting Wavefront Proxy Version 4.2'',
                 InitAgent ''agent-1'' (service_of example_env ?fl)
                   ''https://metrics.example.com/api/''],
        pprof_fatal = None\<rparr>"
    using up by (simp add: before_listeners_def initial_def example_defs)
  show ?thesis
    unfolding startup_example_unfold
    using startListeners_valid[OF v, of "service_of example_env ?fl"] ex
    by (simp add: bl with_started_def)
qed

lemma main_example_eq:
  "main example_env =
     Exit 0
       \<lparr>flags = example_flags\<lparr>fHostnamePtr := ''collector-1''\<rparr>,
        listeners = expected_listeners (effective example_env) 0,
        registry = [(''points.received'', Counter 0), (''build.version'', Gauge 4002000)],
        trace =
          Log ''Starting Wavefront Proxy Version 4.2'' #
          InitAgent ''agent-1''
            (service_of example_env (example_flags\<lparr>fHostnamePtr := ''collector-1''\<rparr>))
            ''https://metrics.example.com/api/'' #
          map (start_event
                 (service_of example_env (example_flags\<lparr>fHostnamePtr := ''collector-1''\<rparr>))
                 (example_flags\<lparr>fHostnamePtr := ''collector-1''\<rparr>))
            (expected_listeners (effective example_env) 0) @
          Log ''Stopping Wavefront Proxy'' #
          map Stop (expected_listeners (effective example_env) 0),
        pprof_fatal = None\<rparr>"
proof -
  have "Interrupt \<in> set (signals example_env)" by (simp add: example_env_def)
  from waitForShutdown_Interrupt[OF this] show ?thesis
    by (simp add: main_def andThen_def startup_example_eq with_pprof_def)
qed

lemma failing_pprof_simps:
  "args (failing_pprof_env n err) = example_flags\<lparr>fPprofAddr := ''localhost:6060''\<rparr>"
  "os_Hostname (failing_pprof_env n err) = Inr ''collector-1''"
  "DefaultRegistry (failing_pprof_env n err) = [(''points.received'', Counter 0)]"
  "version (failing_pprof_env n err) = ''4.2''"
  "signals (failing_pprof_env n err) = [Interrupt]"
  "ListenAndServe (failing_pprof_env n err) addr = Some (n, err)"
  "CreateOrGetAgentId (failing_pprof_env n err) file = ''agent-1''"
  "early_interrupt (failing_pprof_env n err) = None"
  by (simp_all add: failing_pprof_env_def example_env_def)

lemma effective_failing_pprof:
  "effective (failing_pprof_env n err) = example_flags\<lparr>fPprofAddr := ''localhost:6060''\<rparr>"
  by (simp add: effective_plain failing_pprof_simps example_flags_def)

lemma startup_failing_pprof:
  "startup (failing_pprof_env n err) =
     with_pprof (Continue
       \<lparr>flags = example_flags\<lparr>fHostnamePtr := ''collector-1'', fPprofAddr := ''localhost:6060''\<rparr>,
        listeners = expected_listeners (effective example_env) 0,
        registry = [(''points.received'', Counter 0), (''build.version'', Gauge 4002000)],
        trace =
          Log ''Starting Wavefront Proxy Version 4.2'' #
          GoListenAndServe ''localhost:6060'' #
          InitAgent ''agent-1''
            (service_of example_env (example_flags\<lparr>fHostnamePtr := ''collector-1''\<rparr>))
            ''https://metrics.example.com/api/'' #
          map (start_event
                 (service_of example_env (example_flags\<lparr>fHostnamePtr := ''collector-1''\<rparr>))
                 (example_flags\<lparr>fHostnamePtr := ''collector-1''\<rparr>))
            (expected_listeners (effective example_env) 0),
        pprof_fatal = Some (2 + n, err)\<rparr>)"
proof -
  let ?env = "failing_pprof_env n err"
  let ?fl = "example_flags\<lparr>fHostnamePtr := ''collector-1'', fPprofAddr := ''localhost:6060''\<rparr>"
  let ?st1 = "(initial ?env)\<lparr>flags := (args ?env)\<lparr>fHostnamePtr := ''collector-1''\<rparr>\<rparr>"
  let ?reg = "[(''points.received'', Counter 0), (''build.version'', Gauge 0)]"
  have c: "checkFlags ?env (initial ?env) = Continue ?st1"
    by (rule checkFlags_plain) (simp_all add: failing_pprof_simps example_flags_def)
  have reg: "GetOrRegisterGauge ''build.version'' (registry ?st1) = Some ?reg"
    by (simp add: GetOrRegisterGauge_def initial_def failing_pprof_simps)
  have v: "\<forall>e \<in> set (port_entries (fWavefrontPortsPtr (flags (before_listeners ?env ?st1 ?reg)))).
             snd (Atoi e) = None"
          "\<forall>e \<in> set (port_entries (fOpenTSDBPortsPtr (flags (before_listeners ?env ?st1 ?reg)))).
             snd (Atoi e) = None"
    by (simp_all add: before_listeners_simps failing_pprof_simps example_flags_def
          entries_example Atoi_example)
  have ex: "expected_listeners (flags (before_listeners ?env ?st1 ?reg)) 0 =
              expected_listeners (effective example_env) 0"
    unfolding effective_example
    by (simp add: before_listeners_simps failing_pprof_simps expected_listeners_def
          example_flags_def)
  have up: "Update ''build.version'' (buildVersion ''4.2'') ?reg =
              [(''points.received'', Counter 0), (''build.version'', Gauge 4002000)]"
    by (simp add: Update_def buildVersion_example)
  have svc: "service_of ?env ((args ?env)\<lparr>fHostnamePtr := ''collector-1''\<rparr>) =
               service_of example_env (example_flags\<lparr>fHostnamePtr := ''collector-1''\<rparr>)"
    by (simp add: service_of_def failing_pprof_simps example_defs)
  have bl: "before_listeners ?env ?st1 ?reg =
       \<lparr>flags = ?fl, listeners = [],
        registry = [(''points.received'', Counter 0), (''build.version'', Gauge 4002000)],
        trace = [Log ''Starting Wavefront Proxy Version 4.2'',
                 GoListenAndServe ''localhost:6060'',
                 InitAgent ''agent-1''
                   (service_of example_env (example_flags\<lparr>fHostnamePtr := ''collector-1''\<rparr>))
                   ''https://metrics.example.com/api/''],
        pprof_fatal = Some (2 + n, err)\<rparr>"
    using up svc
    by (simp add: before_listeners_def initial_def failing_pprof_simps example_flags_def)
  have se: "start_event svc ?fl = start_event svc (example_flags\<lparr>fHostnamePtr := ''collector-1''\<rparr>)"
    for svc
    by (rule ext) (simp add: start_event_def example_flags_def)
  show ?thesis
    unfolding startup_unfold c
    using startListeners_valid[OF v, of "service_of ?env (flags ?st1)"] reg ex
    by (simp add: bl svc se with_started_def)
qed

lemma startup_early_interrupt: "startup (env\<lparr>early_interrupt := x\<rparr>) = startup env"
proof -
  have h: "checkHostname (env\<lparr>early_interrupt := x\<rparr>) = checkHostname env"
    by (rule ext) (simp add: checkHostname_def)
  have l: "setupLogger (env\<lparr>early_interrupt := x\<rparr>) = setupLogger env"
    by (rule ext) (simp add: setupLogger_def)
  have p: "parseCfg (env\<lparr>early_interrupt := x\<rparr>) = parseCfg env"
    by (rule ext)+ (simp add: parseCfg_def)
  have c: "checkFlags (env\<lparr>early_interrupt := x\<rparr>) = checkFlags env"
    by (rule ext) (simp add: checkFlags_def h l p getVersion_def)
  have i: "initial (env\<lparr>early_interrupt := x\<rparr>) = initial env" by (simp add: initial_def)
  have s: "service_of (env\<lparr>early_interrupt := x\<rparr>) = service_of env"
    by (rule ext) (simp add: service_of_def)
  have b: "before_listeners (env\<lparr>early_interrupt := x\<rparr>) = before_listeners env"
    by (rule ext)+ (simp add: before_listeners_def s)
  show ?thesis
    unfolding startup_unfold c i s b by (simp split: outcome.splits option.splits)
qed

lemma main_failing_pprof_6:
  "main (failing_pprof_env 6 err) =
     Exit 1
       \<lparr>flags = example_flags\<lparr>fHostnamePtr := ''collector-1'', fPprofAddr := ''localhost:6060''\<rparr>,
        listeners = expected_listeners (effective example_env) 0,
        registry = [(''points.received'', Counter 0), (''build.version'', Gauge 4002000)],
        trace =
          Log ''Starting Wavefront Proxy Version 4.2'' #
          GoListenAndServe ''localhost:6060'' #
          InitAgent ''agent-1''
            (service_of example_env (example_flags\<lparr>fHostnamePtr := ''collector-1''\<rparr>))
            ''https://metrics.example.com/api/'' #
          map (start_event
                 (service_of example_env (example_flags\<lparr>fHostnamePtr := ''collector-1''\<rparr>))
                 (example_flags\<lparr>fHostnamePtr := ''collector-1''\<rparr>))
            (expected_listeners (effective example_env) 0) @
          [Log ''Stopping Wavefront Proxy'', Stop \<lparr>Addr = 0, Port = 2878, Builder = GraphiteBuilder\<rparr>,
           Log err],
        pprof_fatal = Some (8, err)\<rparr>"
proof -
  have s: "startup (failing_pprof_env 6 err) = Continue
       \<lparr>flags = example_flags\<lparr>fHostnamePtr := ''collector-1'', fPprofAddr := ''localhost:6060''\<rparr>,
        listeners = expected_listeners (effective example_env) 0,
        registry = [(''points.received'', Counter 0), (''build.version'', Gauge 4002000)],
        trace =
          Log ''Starting Wavefront Proxy Version 4.2'' #
          GoListenAndServe ''localhost:6060'' #
          InitAgent ''agent-1''
            (service_of example_env (example_flags\<lparr>fHostnamePtr := ''collector-1''\<rparr>))
            ''https://metrics.example.com/api/'' #
          map (start_event
                 (service_of example_env (example_flags\<lparr>fHostnamePtr := ''collector-1''\<rparr>))
                 (example_flags\<lparr>fHostnamePtr := ''collector-1''\<rparr>))
            (expected_listeners (effective example_env) 0),
        pprof_fatal = Some (8, err)\<rparr>"
    unfolding startup_failing_pprof by (simp add: with_pprof_def expected_example)
  show ?thesis
    unfolding main_def s
    by (simp add: andThen_def failing_pprof_simps stopListeners_eq emit_def with_pprof_def
          fatal_at_def expected_example start_event_def)
qed

subsection \<open>Configuration errors\<close>

text \<open>
  \<^bold>\<open>C3\<close>, amended. With the effective token or server URL empty, start-up ends the
  process by \<open>os.Exit\<close> and no listener has been created or started. An entry of a
  port list that is no decimal integer is rejected by \<open>Atoi\<close>, as is a decimal
  integer that does not fit \<open>int\<close>; with a rejected entry in a non-empty port list,
  start-up ends the process, so \<open>main\<close> never waits for signals, and in no run at all
  is a listener started for the first rejected entry or for an entry after it, in
  either list: the listeners started are those of some of the entries before it, in
  order. \<open>startPointListeners\<close> exits with status 1 at the first rejected entry of its
  list, having started the listeners of the entries before it. With token and server
  URL non-empty, start-up reaches \<open>startListeners\<close> and runs it to its end provided
  no other exit intervenes: the \<open>-version\<close> flag is off, the configuration file, if
  one is named, loads, an empty host name is resolved, a log file that is named can be
  created, \<open>build.version\<close> is not registered as a metric of another kind than a
  gauge, and the pprof server, if an address is set, does not fail. Then, with every
  entry accepted by \<open>Atoi\<close>, start-up starts the listeners of both lists and returns;
  with a rejected entry, it exits with status 1 and \<open>Invalid port\<close>, the listeners
  started being exactly those of the entries before the first rejected one.
\<close>

theorem config_errors_fatal:
  "(fTokenPtr (effective env) = [] \<or> fServerPtr (effective env) = [] \<longrightarrow>
      (\<exists>c st. startup env = Exit c st \<and> main env = Exit c st \<and>
         listeners st = [] \<and> starts_of (trace st) = []))
   \<and> (\<not> isDecimal entry \<longrightarrow> snd (Atoi entry) \<noteq> None)
   \<and> ((\<exists>e \<in> set (all_entries (effective env)). snd (Atoi e) \<noteq> None) \<longrightarrow>
        ends (startup env) \<and> main env = startup env)
   \<and> (\<exists>j \<le> length (accepted (all_entries (effective env))).
        starts_of (trace (state_of (main env))) = take j (expected_listeners (effective env) 0))
   \<and> (\<forall>good bad rest.
         Split portsList CHR '','' = good @ bad # rest \<and>
         (\<forall>e \<in> set good. snd (Atoi e) = None) \<and> snd (Atoi bad) \<noteq> None \<longrightarrow>
         (\<exists>st'. startPointListeners service portsList builder st = Exit 1 st' \<and>
            listeners st' = listeners st @ new_listeners (length (listeners st)) builder good \<and>
            starts_of (trace st') = starts_of (trace st) @
              new_listeners (length (listeners st)) builder good \<and>
            last (trace st') = Log (''Invalid port '' @ bad)))
   \<and> (\<not> fVersionPtr (args env) \<and>
        (\<exists>s. afterConfig env (initial env) = Continue s) \<and>
        fTokenPtr (effective env) \<noteq> [] \<and> fServerPtr (effective env) \<noteq> [] \<and>
        (fHostnamePtr (effective env) = [] \<longrightarrow> (\<exists>h. os_Hostname env = Inr h)) \<and>
        (fLogFilePtr (effective env) \<noteq> [] \<longrightarrow>
           os_Create env (fLogFilePtr (effective env)) = None) \<and>
        GetOrRegisterGauge ''build.version'' (DefaultRegistry env) \<noteq> None \<and>
        pprof_serves env \<longrightarrow>
        ((\<forall>e \<in> set (all_entries (effective env)). snd (Atoi e) = None) \<longrightarrow>
           (\<exists>st. startup env = Continue st \<and>
              listeners st = expected_listeners (effective env) 0 \<and>
              starts_of (trace st) = expected_listeners (effective env) 0)) \<and>
        (\<forall>good bad rest.
           all_entries (effective env) = good @ bad # rest \<and>
           (\<forall>e \<in> set good. snd (Atoi e) = None) \<and> snd (Atoi bad) \<noteq> None \<longrightarrow>
           (\<exists>st. startup env = Exit 1 st \<and> main env = Exit 1 st \<and>
              listeners st = take (length good) (expected_listeners (effective env) 0) \<and>
              starts_of (trace st) = take (length good) (expected_listeners (effective env) 0) \<and>
              last (trace st) = Log (''Invalid port '' @ bad))))"
proof -
  have missing: "\<exists>c st. startup env = Exit c st \<and> main env = Exit c st \<and>
         listeners st = [] \<and> starts_of (trace st) = []"
    if "fTokenPtr (effective env) = [] \<or> fServerPtr (effective env) = []"
  proof -
    from checkFlags_missing[of env "initial env"] that
    obtain c st where c: "checkFlags env (initial env) = Exit c st"
      unfolding effective_afterConfig by blast
    have q: "quiet (initial env) st" using quiet_checkFlags[of "initial env" env] c by simp
    have "startup env = Exit c st" using c by (simp add: startup_unfold)
    moreover from this have "main env = Exit c st" by (simp add: main_def andThen_def)
    ultimately show ?thesis using quiet_initial_started_ok(2,3)[OF q] by blast
  qed
  have invalid: "ends (startup env) \<and> main env = startup env"
    if "\<exists>e \<in> set (all_entries (effective env)). snd (Atoi e) \<noteq> None"
  proof -
    from that
    have "\<not> (\<forall>e \<in> set (port_entries (fWavefrontPortsPtr (effective env))) \<union>
               set (port_entries (fOpenTSDBPortsPtr (effective env))). snd (Atoi e) = None)"
      by (auto simp: all_entries_def)
    then have "\<not> (\<exists>st. startup env = Continue st)"
      using startup_Continue_listeners(2) by blast
    then have "ends (startup env)" using startup_Continue_or_ends[of env] by blast
    then show ?thesis using main_of_ended_startup by blast
  qed
  have never: "\<exists>j \<le> length (accepted (all_entries (effective env))).
        starts_of (trace (state_of (main env))) = take j (expected_listeners (effective env) 0)"
    unfolding starts_of_main by (rule startup_starts)
  have one: "\<exists>st'. startPointListeners service portsList builder st = Exit 1 st' \<and>
            listeners st' = listeners st @ new_listeners (length (listeners st)) builder good \<and>
            starts_of (trace st') = starts_of (trace st) @
              new_listeners (length (listeners st)) builder good \<and>
            last (trace st') = Log (''Invalid port '' @ bad)"
    if "Split portsList CHR '','' = good @ bad # rest"
       "\<forall>e \<in> set good. snd (Atoi e) = None" "snd (Atoi bad) \<noteq> None" for good bad rest
    using startPointListeners_invalid[OF that, of service builder st]
    by (simp add: emit_def with_started_simps starts_of_append starts_of_start_events)
  have reached: "((\<forall>e \<in> set (all_entries (effective env)). snd (Atoi e) = None) \<longrightarrow>
           (\<exists>st. startup env = Continue st \<and>
              listeners st = expected_listeners (effective env) 0 \<and>
              starts_of (trace st) = expected_listeners (effective env) 0)) \<and>
        (\<forall>good bad rest.
           all_entries (effective env) = good @ bad # rest \<and>
           (\<forall>e \<in> set good. snd (Atoi e) = None) \<and> snd (Atoi bad) \<noteq> None \<longrightarrow>
           (\<exists>st. startup env = Exit 1 st \<and> main env = Exit 1 st \<and>
              listeners st = take (length good) (expected_listeners (effective env) 0) \<and>
              starts_of (trace st) = take (length good) (expected_listeners (effective env) 0) \<and>
              last (trace st) = Log (''Invalid port '' @ bad)))"
    if g: "\<not> fVersionPtr (args env)" "\<exists>s. afterConfig env (initial env) = Continue s"
        "fTokenPtr (effective env) \<noteq> []" "fServerPtr (effective env) \<noteq> []"
        "fHostnamePtr (effective env) = [] \<longrightarrow> (\<exists>h. os_Hostname env = Inr h)"
        "fLogFilePtr (effective env) \<noteq> [] \<longrightarrow> os_Create env (fLogFilePtr (effective env)) = None"
        "GetOrRegisterGauge ''build.version'' (DefaultRegistry env) \<noteq> None"
        "pprof_serves env"
  proof -
    from g(2) obtain s where s: "afterConfig env (initial env) = Continue s" ..
    from checkFlags_passes[OF g(1) s g(3,4,5,6)]
    obtain st1 where c: "checkFlags env (initial env) = Continue st1" ..
    have q: "quiet (initial env) st1" using quiet_checkFlags[of "initial env" env] c by simp
    have fl: "flags st1 = (effective env)\<lparr>fHostnamePtr := effective_hostname env\<rparr>"
      by (rule checkFlags_Continue_effective[OF c])
    from g(7) obtain reg where
      reg: "GetOrRegisterGauge ''build.version'' (DefaultRegistry env) = Some reg" by auto
    let ?b = "before_listeners env st1 reg"
    let ?svc = "service_of env (flags st1)"
    have su: "startup env = startListeners ?svc ?b"
      by (rule startup_no_pprof(1)[OF c reg pprof_serves_flags[OF g(8) c]])
    have b: "listeners ?b = []" "starts_of (trace ?b) = []"
        "all_entries (flags ?b) = all_entries (effective env)"
        "expected_listeners (flags ?b) 0 = expected_listeners (effective env) 0"
      using quiet_initial_started_ok(2,3)[OF q]
      by (simp_all add: before_listeners_def starts_of_append fl all_entries_hostname
            expected_listeners_hostname)
    have valid: "\<exists>st. startup env = Continue st \<and>
              listeners st = expected_listeners (effective env) 0 \<and>
              starts_of (trace st) = expected_listeners (effective env) 0"
      if v: "\<forall>e \<in> set (all_entries (effective env)). snd (Atoi e) = None"
    proof -
      have "\<forall>e \<in> set (all_entries (flags ?b)). snd (Atoi e) = None" using v b(3) by simp
      from startListeners_all_valid[OF this, of ?svc] show ?thesis
        unfolding su using b
        by (simp add: with_started_simps starts_of_append starts_of_start_events)
    qed
    have rejected: "\<exists>st. startup env = Exit 1 st \<and> main env = Exit 1 st \<and>
              listeners st = take (length good) (expected_listeners (effective env) 0) \<and>
              starts_of (trace st) = take (length good) (expected_listeners (effective env) 0) \<and>
              last (trace st) = Log (''Invalid port '' @ bad)"
      if r: "all_entries (effective env) = good @ bad # rest"
         "\<forall>e \<in> set good. snd (Atoi e) = None" "snd (Atoi bad) \<noteq> None" for good bad rest
    proof -
      have a: "all_entries (flags ?b) = good @ bad # rest" using r(1) b(3) by simp
      let ?st = "emit (Log (''Invalid port '' @ bad))
             (with_started ?svc (take (length good) (expected_listeners (flags ?b) 0)) ?b)"
      have e: "startup env = Exit 1 ?st"
        unfolding su using startListeners_first_invalid[OF a r(2,3), of ?svc] b(1) by simp
      then have "ends (startup env)" by (simp add: ends_simps)
      then have m: "main env = Exit 1 ?st" using main_of_ended_startup[of env] e by simp
      show ?thesis
        using e m b
        by (simp add: emit_def with_started_simps starts_of_append starts_of_start_events)
    qed
    show ?thesis using valid rejected by blast
  qed
  have rejects: "\<not> isDecimal entry \<longrightarrow> snd (Atoi entry) \<noteq> None"
    using Atoi_not_decimal by blast
  show ?thesis using missing rejects invalid never one reached by blast
qed

theorem config_errors_fatal_witness:
  "fTokenPtr (effective (example_env\<lparr>args := example_flags\<lparr>fTokenPtr := []\<rparr>\<rparr>)) = []
   \<and> (\<exists>c st. startup (example_env\<lparr>args := example_flags\<lparr>fTokenPtr := []\<rparr>\<rparr>) = Exit c st \<and>
         main (example_env\<lparr>args := example_flags\<lparr>fTokenPtr := []\<rparr>\<rparr>) = Exit c st \<and>
         listeners st = [] \<and> starts_of (trace st) = [])
   \<and> \<not> isDecimal ''x'' \<and> snd (Atoi ''x'') \<noteq> None
   \<and> all_entries (effective (example_env\<lparr>args := example_flags\<lparr>fOpenTSDBPortsPtr := ''4242,x''\<rparr>\<rparr>))
        = [''2878'', ''2879'', ''4242''] @ ''x'' # []
   \<and> ends (startup (example_env\<lparr>args := example_flags\<lparr>fOpenTSDBPortsPtr := ''4242,x''\<rparr>\<rparr>))
   \<and> (\<exists>st. startup (example_env\<lparr>args := example_flags\<lparr>fOpenTSDBPortsPtr := ''4242,x''\<rparr>\<rparr>)
               = Exit 1 st \<and>
          main (example_env\<lparr>args := example_flags\<lparr>fOpenTSDBPortsPtr := ''4242,x''\<rparr>\<rparr>)
               = Exit 1 st \<and>
          listeners st =
            [\<lparr>Addr = 0, Port = 2878, Builder = GraphiteBuilder\<rparr>,
             \<lparr>Addr = 1, Port = 2879, Builder = GraphiteBuilder\<rparr>,
             \<lparr>Addr = 2, Port = 4242, Builder = OpenTSDBBuilder\<rparr>] \<and>
          starts_of (trace st) =
            [\<lparr>Addr = 0, Port = 2878, Builder = GraphiteBuilder\<rparr>,
             \<lparr>Addr = 1, Port = 2879, Builder = GraphiteBuilder\<rparr>,
             \<lparr>Addr = 2, Port = 4242, Builder = OpenTSDBBuilder\<rparr>] \<and>
          last (trace st) = Log ''Invalid port x'')
   \<and> (\<exists>st'. startPointListeners (service_of example_env example_flags) ''4242,x''
                OpenTSDBBuilder (initial example_env) = Exit 1 st' \<and>
          listeners st' = [\<lparr>Addr = 0, Port = 4242, Builder = OpenTSDBBuilder\<rparr>] \<and>
          starts_of (trace st') = [\<lparr>Addr = 0, Port = 4242, Builder = OpenTSDBBuilder\<rparr>] \<and>
          last (trace st') = Log ''Invalid port x'')
   \<and> pprof_serves example_env
   \<and> (\<exists>st. startup example_env = Continue st \<and>
          listeners st =
            [\<lparr>Addr = 0, Port = 2878, Builder = GraphiteBuilder\<rparr>,
             \<lparr>Addr = 1, Port = 2879, Builder = GraphiteBuilder\<rparr>,
             \<lparr>Addr = 2, Port = 4242, Builder = OpenTSDBBuilder\<rparr>] \<and>
          starts_of (trace st) =
            [\<lparr>Addr = 0, Port = 2878, Builder = GraphiteBuilder\<rparr>,
             \<lparr>Addr = 1, Port = 2879, Builder = GraphiteBuilder\<rparr>,
             \<lparr>Addr = 2, Port = 4242, Builder = OpenTSDBBuilder\<rparr>])"
proof -
  let ?env1 = "example_env\<lparr>args := example_flags\<lparr>fTokenPtr := []\<rparr>\<rparr>"
  let ?env2 = "example_env\<lparr>args := example_flags\<lparr>fOpenTSDBPortsPtr := ''4242,x''\<rparr>\<rparr>"
  have e1: "effective ?env1 = example_flags\<lparr>fTokenPtr := []\<rparr>"
    by (simp add: effective_def afterConfig_def initial_def example_defs)
  have e2: "effective ?env2 = example_flags\<lparr>fOpenTSDBPortsPtr := ''4242,x''\<rparr>"
    by (simp add: effective_def afterConfig_def initial_def example_defs)
  have nd: "\<not> isDecimal ''x''" by (simp add: isDecimal_def isDigit_def)
  have 1: "fTokenPtr (effective ?env1) = []" by (simp add: e1)
  note tx = config_errors_fatal[where entry = "''x''", THEN conjunct2, THEN conjunct1,
              THEN mp, OF nd]
  have a2: "all_entries (effective ?env2) = [''2878'', ''2879'', ''4242''] @ ''x'' # []"
    unfolding e2 by (simp add: all_entries_def example_flags_def entries_example)
  have 2: "\<exists>e \<in> set (all_entries (effective ?env2)). snd (Atoi e) \<noteq> None"
    unfolding a2 using tx by simp
  have 3: "Split ''4242,x'' CHR '','' = [''4242''] @ ''x'' # [] \<and>
           (\<forall>e \<in> set [''4242'']. snd (Atoi e) = None) \<and> snd (Atoi ''x'') \<noteq> None"
    using tx by (simp add: Atoi_example)
  have g: "\<not> fVersionPtr (args example_env) \<and>
        (\<exists>s. afterConfig example_env (initial example_env) = Continue s) \<and>
        fTokenPtr (effective example_env) \<noteq> [] \<and> fServerPtr (effective example_env) \<noteq> [] \<and>
        (fHostnamePtr (effective example_env) = [] \<longrightarrow> (\<exists>h. os_Hostname example_env = Inr h)) \<and>
        (fLogFilePtr (effective example_env) \<noteq> [] \<longrightarrow>
           os_Create example_env (fLogFilePtr (effective example_env)) = None) \<and>
        GetOrRegisterGauge ''build.version'' (DefaultRegistry example_env) \<noteq> None \<and>
        pprof_serves example_env"
    unfolding pprof_serves_def effective_example
    by (simp add: example_defs afterConfig_def initial_def GetOrRegisterGauge_def)
  have g2: "\<not> fVersionPtr (args ?env2) \<and>
        (\<exists>s. afterConfig ?env2 (initial ?env2) = Continue s) \<and>
        fTokenPtr (effective ?env2) \<noteq> [] \<and> fServerPtr (effective ?env2) \<noteq> [] \<and>
        (fHostnamePtr (effective ?env2) = [] \<longrightarrow> (\<exists>h. os_Hostname ?env2 = Inr h)) \<and>
        (fLogFilePtr (effective ?env2) \<noteq> [] \<longrightarrow>
           os_Create ?env2 (fLogFilePtr (effective ?env2)) = None) \<and>
        GetOrRegisterGauge ''build.version'' (DefaultRegistry ?env2) \<noteq> None \<and>
        pprof_serves ?env2"
    unfolding pprof_serves_def e2
    by (simp add: example_defs afterConfig_def initial_def GetOrRegisterGauge_def)
  have v: "\<forall>e \<in> set (all_entries (effective example_env)). snd (Atoi e) = None"
    unfolding effective_example
    by (simp add: all_entries_def example_flags_def entries_example Atoi_example)
  have r2: "all_entries (effective ?env2) = [''2878'', ''2879'', ''4242''] @ ''x'' # [] \<and>
            (\<forall>e \<in> set [''2878'', ''2879'', ''4242'']. snd (Atoi e) = None) \<and>
            snd (Atoi ''x'') \<noteq> None"
    using a2 tx by (simp add: Atoi_example)
  have ex: "expected_listeners (effective example_env) 0 =
            [\<lparr>Addr = 0, Port = 2878, Builder = GraphiteBuilder\<rparr>,
             \<lparr>Addr = 1, Port = 2879, Builder = GraphiteBuilder\<rparr>,
             \<lparr>Addr = 2, Port = 4242, Builder = OpenTSDBBuilder\<rparr>]"
    by (rule expected_example)
  have ex2: "take (length [''2878'', ''2879'', ''4242'']) (expected_listeners (effective ?env2) 0) =
            [\<lparr>Addr = 0, Port = 2878, Builder = GraphiteBuilder\<rparr>,
             \<lparr>Addr = 1, Port = 2879, Builder = GraphiteBuilder\<rparr>,
             \<lparr>Addr = 2, Port = 4242, Builder = OpenTSDBBuilder\<rparr>]"
    unfolding e2
    by (simp add: expected_listeners_def example_flags_def entries_example
          new_listeners_Cons new_listeners_Nil Atoi_example)
  have nl: "new_listeners 0 OpenTSDBBuilder [''4242''] =
              [\<lparr>Addr = 0, Port = 4242, Builder = OpenTSDBBuilder\<rparr>]"
    by (simp add: new_listeners_Cons new_listeners_Nil Atoi_example)
  note t1 = config_errors_fatal[of ?env1, THEN conjunct1, THEN mp, OF disjI1[OF 1]]
  note t3 = config_errors_fatal[of ?env2, THEN conjunct2, THEN conjunct2, THEN conjunct1,
              THEN mp, OF 2]
  note t5 = config_errors_fatal[of example_env _ "''4242,x''" "service_of example_env example_flags"
              OpenTSDBBuilder "initial example_env",
              THEN conjunct2, THEN conjunct2, THEN conjunct2, THEN conjunct2, THEN conjunct1,
              THEN spec, THEN spec, THEN spec, THEN mp, OF 3]
  note t6 = config_errors_fatal[of ?env2, THEN conjunct2, THEN conjunct2, THEN conjunct2,
              THEN conjunct2, THEN conjunct2, THEN mp, OF g2, THEN conjunct2,
              THEN spec, THEN spec, THEN spec, THEN mp, OF r2]
  note t7 = config_errors_fatal[of example_env, THEN conjunct2, THEN conjunct2, THEN conjunct2,
              THEN conjunct2, THEN conjunct2, THEN mp, OF g, THEN conjunct1, THEN mp, OF v]
  have p: "pprof_serves example_env" using g by blast
  show ?thesis
    using 1 t1 nd tx a2 t3 t5 t6 t7 p unfolding ex ex2
    by (simp add: nl initial_simps)
qed

text \<open>
  As stated the claim fails in its last part. In the first run below the token and
  the server URL are set and every port entry is a decimal integer, yet start-up exits
  with \<open>Invalid port\<close> before any listener is started: the entry does not fit
  \<open>int\<close>, and \<open>Atoi\<close> reports a range error. In the second run token, server URL
  and port lists are as in the example run, the host name is not configured and
  \<open>os.Hostname\<close> fails: start-up exits in \<open>checkHostname\<close>. In the third run they are
  so too, a pprof address is set and \<open>http.ListenAndServe\<close> fails at once: the
  goroutine's \<open>log.Fatal\<close> ends the process before a listener is started.
\<close>

theorem config_errors_fatal_counterexample:
  "fTokenPtr (effective (example_env\<lparr>args :=
       example_flags\<lparr>fWavefrontPortsPtr := ''99999999999999999999''\<rparr>\<rparr>)) = ''t0ken''
   \<and> fServerPtr (effective (example_env\<lparr>args :=
       example_flags\<lparr>fWavefrontPortsPtr := ''99999999999999999999''\<rparr>\<rparr>))
        = ''https://metrics.example.com/api/''
   \<and> port_entries (fWavefrontPortsPtr (effective (example_env\<lparr>args :=
       example_flags\<lparr>fWavefrontPortsPtr := ''99999999999999999999''\<rparr>\<rparr>)))
        = [''99999999999999999999'']
   \<and> port_entries (fOpenTSDBPortsPtr (effective (example_env\<lparr>args :=
       example_flags\<lparr>fWavefrontPortsPtr := ''99999999999999999999''\<rparr>\<rparr>))) = [''4242'']
   \<and> isDecimal ''99999999999999999999'' \<and> isDecimal ''4242''
   \<and> startup (example_env\<lparr>args := example_flags\<lparr>fWavefrontPortsPtr := ''99999999999999999999''\<rparr>\<rparr>)
        = Exit 1 (state_of (startup (example_env\<lparr>args :=
            example_flags\<lparr>fWavefrontPortsPtr := ''99999999999999999999''\<rparr>\<rparr>)))
   \<and> starts_of (trace (state_of (startup (example_env\<lparr>args :=
            example_flags\<lparr>fWavefrontPortsPtr := ''99999999999999999999''\<rparr>\<rparr>)))) = []
   \<and> last (trace (state_of (startup (example_env\<lparr>args :=
            example_flags\<lparr>fWavefrontPortsPtr := ''99999999999999999999''\<rparr>\<rparr>))))
        = Log ''Invalid port 99999999999999999999''
   \<and> fTokenPtr (effective (example_env\<lparr>os_Hostname := Inl ''lookup failed''\<rparr>)) = ''t0ken''
   \<and> fServerPtr (effective (example_env\<lparr>os_Hostname := Inl ''lookup failed''\<rparr>))
        = ''https://metrics.example.com/api/''
   \<and> port_entries (fWavefrontPortsPtr (effective (example_env\<lparr>os_Hostname := Inl ''lookup failed''\<rparr>)))
        = [''2878'', ''2879'']
   \<and> port_entries (fOpenTSDBPortsPtr (effective (example_env\<lparr>os_Hostname := Inl ''lookup failed''\<rparr>)))
        = [''4242'']
   \<and> isDecimal ''2878'' \<and> isDecimal ''2879''
   \<and> startup (example_env\<lparr>os_Hostname := Inl ''lookup failed''\<rparr>) =
        Exit 1 \<lparr>flags = example_flags, listeners = [],
                registry = [(''points.received'', Counter 0)],
                trace = [Log ''Error resolving hostname''], pprof_fatal = None\<rparr>
   \<and> fTokenPtr (effective (failing_pprof_env 0 ''listen tcp 127.0.0.1:6060: bind: address already in use''))
        = ''t0ken''
   \<and> fServerPtr (effective (failing_pprof_env 0 ''listen tcp 127.0.0.1:6060: bind: address already in use''))
        = ''https://metrics.example.com/api/''
   \<and> all_entries (effective (failing_pprof_env 0 ''listen tcp 127.0.0.1:6060: bind: address already in use''))
        = [''2878'', ''2879'', ''4242'']
   \<and> startup (failing_pprof_env 0 ''listen tcp 127.0.0.1:6060: bind: address already in use'') =
        Exit 1 (state_of (startup
          (failing_pprof_env 0 ''listen tcp 127.0.0.1:6060: bind: address already in use'')))
   \<and> trace (state_of (startup
          (failing_pprof_env 0 ''listen tcp 127.0.0.1:6060: bind: address already in use''))) =
        [Log ''Starting Wavefront Proxy Version 4.2'', GoListenAndServe ''localhost:6060'',
         Log ''listen tcp 127.0.0.1:6060: bind: address already in use'']
   \<and> listeners (state_of (startup
          (failing_pprof_env 0 ''listen tcp 127.0.0.1:6060: bind: address already in use''))) = []"
proof -
  let ?envA = "example_env\<lparr>args := example_flags\<lparr>fWavefrontPortsPtr := ''99999999999999999999''\<rparr>\<rparr>"
  let ?envB = "example_env\<lparr>os_Hostname := Inl ''lookup failed''\<rparr>"
  let ?err = "''listen tcp 127.0.0.1:6060: bind: address already in use''"
  let ?envC = "failing_pprof_env 0 ?err"
  let ?flA = "example_flags\<lparr>fWavefrontPortsPtr := ''99999999999999999999''\<rparr>"
  have eA: "effective ?envA = ?flA" by (simp add: effective_plain example_defs)
  have eB: "effective ?envB = example_flags" by (simp add: effective_plain example_defs)
  have dec: "isDecimal ''99999999999999999999''" "isDecimal ''4242''" "isDecimal ''2878''"
    "isDecimal ''2879''"
    by (simp_all add: isDecimal_def isDigit_def)
  have big: "Atoi ''99999999999999999999'' = (9223372036854775807, Some ErrRange)"
    by (simp add: Atoi_eval)
  have entA: "port_entries ''99999999999999999999'' = [''99999999999999999999'']"
    by (simp add: port_entries_def)
  have cA: "checkFlags ?envA (initial ?envA) =
              Continue ((initial ?envA)\<lparr>flags := (args ?envA)\<lparr>fHostnamePtr := ''collector-1''\<rparr>\<rparr>)"
    by (rule checkFlags_plain) (simp_all add: example_defs)
  have rA: "GetOrRegisterGauge ''build.version'' (DefaultRegistry ?envA) =
              Some [(''points.received'', Counter 0), (''build.version'', Gauge 0)]"
    by (simp add: GetOrRegisterGauge_def example_defs)
  have sA: "startup ?envA = Exit 1 (emit (Log (''Invalid port '' @ ''99999999999999999999''))
             (with_started (service_of ?envA (flags ((initial ?envA)\<lparr>flags := (args ?envA)\<lparr>fHostnamePtr := ''collector-1''\<rparr>\<rparr>)))
                (new_listeners 0 GraphiteBuilder [])
                (before_listeners ?envA ((initial ?envA)\<lparr>flags := (args ?envA)\<lparr>fHostnamePtr := ''collector-1''\<rparr>\<rparr>)
                   [(''points.received'', Counter 0), (''build.version'', Gauge 0)])))"
    by (rule startup_push_invalid[OF cA rA, where rest = "[]"])
       (simp_all add: example_defs entA big)
  have tA: "startup ?envA = Exit 1 (state_of (startup ?envA))"
           "starts_of (trace (state_of (startup ?envA))) = []"
           "last (trace (state_of (startup ?envA))) = Log ''Invalid port 99999999999999999999''"
    unfolding sA
    by (simp_all add: emit_def with_started_def new_listeners_Nil before_listeners_def
          initial_def starts_of_append)
  have sB: "startup ?envB =
        Exit 1 \<lparr>flags = example_flags, listeners = [],
                registry = [(''points.received'', Counter 0)],
                trace = [Log ''Error resolving hostname''], pprof_fatal = None\<rparr>"
    by (simp add: startup_unfold checkFlags_def andThen_def checkRequiredFlag_def
          checkHostname_def log_Fatal_def emit_def initial_def example_defs)
  have eC: "fTokenPtr (effective ?envC) = ''t0ken''"
       "fServerPtr (effective ?envC) = ''https://metrics.example.com/api/''"
       "all_entries (effective ?envC) = [''2878'', ''2879'', ''4242'']"
    unfolding effective_failing_pprof
    by (simp_all add: all_entries_def example_flags_def entries_example)
  have len: "length (expected_listeners (effective example_env) 0) = 3"
    by (simp add: expected_example)
  have tC: "startup ?envC = Exit 1 (state_of (startup ?envC))"
       "trace (state_of (startup ?envC)) =
          [Log ''Starting Wavefront Proxy Version 4.2'', GoListenAndServe ''localhost:6060'',
           Log ?err]"
       "listeners (state_of (startup ?envC)) = []"
    unfolding startup_failing_pprof
    by (simp_all add: with_pprof_def fatal_at_def len)
  show ?thesis
    unfolding eA eB using dec tA sB eC tC
    by (simp add: example_flags_def entries_example entA)
qed

subsection \<open>One listener per port\<close>




subsection \<open>The arguments of Start\<close>

text \<open>
  \<^bold>\<open>C5\<close>. Every \<open>Start\<close> call of a run, whatever the listener's port and builder,
  carries the flush thread count, the flush interval, the buffer limit and the
  maximal number of points per flush of the effective configuration, in this order,
  then the Graphite wire format and the Graphite block work unit, and the one service
  built in \<open>main\<close>; \<open>startPointListener\<close> makes exactly this call.
\<close>

theorem listeners_share_configuration:
  "(\<forall>ev \<in> set (trace (state_of (main env))). is_Start ev \<longrightarrow>
      (\<exists>listener. ev =
         Start listener (fFlushThreadsPtr (effective env)) (fFlushIntervalPtr (effective env))
           (fMaxBufferSizePtr (effective env)) (fFlushMaxPointsPtr (effective env))
           FormatGraphiteV2 GraphiteBlockWorkUnit
           (service_of env ((effective env)\<lparr>fHostnamePtr := effective_hostname env\<rparr>))))
   \<and> trace (startPointListener listener service st) = trace st @
         [Start listener (fFlushThreadsPtr (flags st)) (fFlushIntervalPtr (flags st))
            (fMaxBufferSizePtr (flags st)) (fFlushMaxPointsPtr (flags st))
            FormatGraphiteV2 GraphiteBlockWorkUnit service]"
proof -
  let ?fl = "(effective env)\<lparr>fHostnamePtr := effective_hostname env\<rparr>"
  let ?st = "state_of (startup env)"
  have ok: "started_ok (service_of env ?fl) ?st" by (rule startup_started_ok)
  have ev: "\<exists>listener. ev =
         Start listener (fFlushThreadsPtr (effective env)) (fFlushIntervalPtr (effective env))
           (fMaxBufferSizePtr (effective env)) (fFlushMaxPointsPtr (effective env))
           FormatGraphiteV2 GraphiteBlockWorkUnit (service_of env ?fl)"
    if "ev \<in> set (trace (state_of (main env)))" "is_Start ev" for ev
  proof -
    from that have "ev \<in> set (filter is_Start (trace ?st))"
      using main_filter_Start[of env, symmetric] by simp
    moreover have "filter is_Start (trace ?st) =
        map (start_event (service_of env ?fl) (flags ?st)) (listeners ?st)"
      using ok by (simp add: started_ok_def)
    ultimately have in_map:
      "ev \<in> set (map (start_event (service_of env ?fl) (flags ?st)) (listeners ?st))"
      by simp
    then obtain l where l: "ev = start_event (service_of env ?fl) (flags ?st) l" by auto
    from in_map have "listeners ?st \<noteq> []" by auto
    then obtain st1 where "checkFlags env (initial env) = Continue st1"
        "flags ?st = flags st1"
      using startup_state[of env] quiet_initial_started_ok(2)[of env ?st] by auto
    then have "flags ?st = ?fl" using checkFlags_Continue_effective by simp
    then show ?thesis using l by (auto simp: start_event_def)
  qed
  show ?thesis using ev by (simp add: startPointListener_def emit_def)
qed

theorem listeners_share_configuration_witness:
  "Start \<lparr>Addr = 2, Port = 4242, Builder = OpenTSDBBuilder\<rparr> 2 1000 100000 40000
      FormatGraphiteV2 GraphiteBlockWorkUnit
      \<lparr>ServerURL = ''https://metrics.example.com/api/'', AgentID = ''agent-1'',
       ApiHostname = ''collector-1'', ApiToken = ''t0ken'', ApiVersion = ''4.2''\<rparr>
     \<in> set (trace (state_of (main example_env)))
   \<and> (\<exists>listener.
         Start \<lparr>Addr = 2, Port = 4242, Builder = OpenTSDBBuilder\<rparr> 2 1000 100000 40000
           FormatGraphiteV2 GraphiteBlockWorkUnit
           \<lparr>ServerURL = ''https://metrics.example.com/api/'', AgentID = ''agent-1'',
            ApiHostname = ''collector-1'', ApiToken = ''t0ken'', ApiVersion = ''4.2''\<rparr> =
         Start listener (fFlushThreadsPtr (effective example_env))
           (fFlushIntervalPtr (effective example_env))
           (fMaxBufferSizePtr (effective example_env))
           (fFlushMaxPointsPtr (effective example_env))
           FormatGraphiteV2 GraphiteBlockWorkUnit
           (service_of example_env
              ((effective example_env)\<lparr>fHostnamePtr := effective_hostname example_env\<rparr>)))
   \<and> fFlushThreadsPtr (effective example_env) = 2
   \<and> fMaxBufferSizePtr (effective example_env) = 100000"
proof -
  let ?ev = "Start \<lparr>Addr = 2, Port = 4242, Builder = OpenTSDBBuilder\<rparr> 2 1000 100000 40000
      FormatGraphiteV2 GraphiteBlockWorkUnit
      \<lparr>ServerURL = ''https://metrics.example.com/api/'', AgentID = ''agent-1'',
       ApiHostname = ''collector-1'', ApiToken = ''t0ken'', ApiVersion = ''4.2''\<rparr>"
  have hn: "effective_hostname example_env = ''collector-1''"
    by (simp add: effective_hostname_def effective_example) (simp add: example_defs)
  have mem: "?ev \<in> set (trace (state_of (main example_env)))"
    unfolding main_example_eq expected_example service_example
    by (simp add: start_event_def example_flags_def)
  have st: "is_Start ?ev" by simp
  from listeners_share_configuration[of example_env, THEN conjunct1, THEN bspec, OF mem,
         THEN mp, OF st]
  show ?thesis using mem
    unfolding hn effective_example service_example by (simp add: example_flags_def)
qed

subsection \<open>Shutdown\<close>

text \<open>
  \<^bold>\<open>C8\<close>, amended. When an interrupt arrives on the signal channel, \<open>waitForShutdown\<close>
  logs, calls \<open>Stop\<close> on the listeners of the \<open>listeners\<close> slice in order and exits
  with status 0. After a completed start-up that slice holds exactly the listeners
  started, in the order they were started, each a distinct object and none stopped
  before: so, provided the pprof server, if one is configured, does not fail, every
  started listener is stopped exactly once, in start order, before the exit. This is
  what the process does unless an interrupt has reached it while start-up had calls
  left to make: such an interrupt ends the process on the spot, with no \<open>Stop\<close> call.
  In every run of \<open>main\<close> the listeners stopped are the first of the listeners
  started, in start order, and the listeners started are distinct objects, so that
  \<open>Stop\<close> is called at most once on a listener and on no other listener.
\<close>

theorem interrupt_stops_every_listener:
  "(Interrupt \<in> set sigs \<longrightarrow>
      waitForShutdown sigs st =
        Exit 0 (st\<lparr>trace := trace st @ Log ''Stopping Wavefront Proxy'' # map Stop (listeners st)\<rparr>))
   \<and> (\<forall>st'. startup env = Continue st' \<and> Interrupt \<in> set (signals env) \<and> pprof_serves env \<longrightarrow>
        (\<exists>st''. main env = Exit 0 st'' \<and>
           trace st'' = trace st' @ Log ''Stopping Wavefront Proxy'' # map Stop (listeners st') \<and>
           starts_of (trace st') = listeners st' \<and> stops_of (trace st') = [] \<and>
           stops_of (trace st'') = starts_of (trace st'') \<and>
           distinct (stops_of (trace st''))))
   \<and> ((\<forall>n. early_interrupt env = Some n \<longrightarrow> length (trace (state_of (startup env))) \<le> n) \<longrightarrow>
        process env = Main (main env))
   \<and> (\<forall>n. early_interrupt env = Some n \<and> n < length (trace (state_of (startup env))) \<longrightarrow>
        process env = Killed_by_Interrupt (take n (trace (state_of (startup env)))) \<and>
        stops_of (take n (trace (state_of (startup env)))) = [])
   \<and> (\<exists>j. stops_of (trace (state_of (main env))) =
             take j (starts_of (trace (state_of (main env)))))
   \<and> distinct (starts_of (trace (state_of (main env))))"
proof -
  let ?svc = "service_of env ((effective env)\<lparr>fHostnamePtr := effective_hostname env\<rparr>)"
  have ok: "started_ok ?svc (state_of (startup env))" by (rule startup_started_ok)
  have s: "starts_of (trace (state_of (startup env))) = listeners (state_of (startup env))"
    by (rule started_ok_starts[OF ok])
  have p: "stops_of (trace (state_of (startup env))) = []" using ok by (simp add: started_ok_def)
  have d: "distinct (listeners (state_of (startup env)))" by (rule started_ok_distinct[OF ok])
  have run: "\<exists>st''. main env = Exit 0 st'' \<and>
           trace st'' = trace st' @ Log ''Stopping Wavefront Proxy'' # map Stop (listeners st') \<and>
           starts_of (trace st') = listeners st' \<and> stops_of (trace st') = [] \<and>
           stops_of (trace st'') = starts_of (trace st'') \<and>
           distinct (stops_of (trace st''))"
    if st: "startup env = Continue st'" and sig: "Interrupt \<in> set (signals env)"
      and pp: "pprof_serves env" for st'
  proof -
    from startup_Continue[OF st] obtain st1 reg where
      c: "checkFlags env (initial env) = Continue st1" and
      r: "GetOrRegisterGauge ''build.version'' (DefaultRegistry env) = Some reg" by blast
    have n: "pprof_fatal st' = None"
      using startup_no_pprof(2)[OF c r pprof_serves_flags[OF pp c]] st by simp
    have m: "main env = Exit 0 (st'\<lparr>trace := trace st' @
               Log ''Stopping Wavefront Proxy'' # map Stop (listeners st')\<rparr>)"
      using main_Continue_cases[OF st] sig n by auto
    show ?thesis
      unfolding m using s p d st
      by (simp add: starts_of_append stops_of_append starts_of_stops stops_of_stops)
  qed
  have late: "process env = Main (main env)"
    if "\<forall>n. early_interrupt env = Some n \<longrightarrow> length (trace (state_of (startup env))) \<le> n"
    using that by (cases "early_interrupt env") (auto simp: process_def)
  have early: "process env = Killed_by_Interrupt (take n (trace (state_of (startup env)))) \<and>
        stops_of (take n (trace (state_of (startup env)))) = []"
    if "early_interrupt env = Some n" "n < length (trace (state_of (startup env)))" for n
    using that stops_of_take[of n "trace (state_of (startup env))"] p
    by (simp add: process_def)
  obtain extra j where e: "trace (state_of (main env)) = trace (state_of (startup env)) @ extra"
      "filter is_Start extra = []" "stops_of extra = take j (listeners (state_of (startup env)))"
    using main_trace[of env] by blast
  have se: "starts_of extra = []" using starts_of_filter[of extra] e(2) by simp
  have prefix: "\<exists>j. stops_of (trace (state_of (main env))) =
             take j (starts_of (trace (state_of (main env))))"
    unfolding e(1) using e(3) s p se by (auto simp: starts_of_append stops_of_append)
  have dist: "distinct (starts_of (trace (state_of (main env))))"
    unfolding e(1) using s d se by (simp add: starts_of_append)
  show ?thesis using run late early prefix dist waitForShutdown_Interrupt[of sigs st] by blast
qed

theorem interrupt_stops_every_listener_witness:
  "Interrupt \<in> set [OtherSignal, Interrupt]
   \<and> waitForShutdown [OtherSignal, Interrupt] (state_of (startup example_env)) =
        Exit 0 (state_of (main example_env))
   \<and> Interrupt \<in> set (signals example_env) \<and> pprof_serves example_env
   \<and> (\<exists>st'. startup example_env = Continue st')
   \<and> (\<exists>st''. main example_env = Exit 0 st'' \<and>
         starts_of (trace st'') =
           [\<lparr>Addr = 0, Port = 2878, Builder = GraphiteBuilder\<rparr>,
            \<lparr>Addr = 1, Port = 2879, Builder = GraphiteBuilder\<rparr>,
            \<lparr>Addr = 2, Port = 4242, Builder = OpenTSDBBuilder\<rparr>] \<and>
         stops_of (trace st'') = starts_of (trace st'') \<and>
         distinct (stops_of (trace st'')))
   \<and> early_interrupt example_env = None
   \<and> process example_env = Main (main example_env)
   \<and> early_interrupt (example_env\<lparr>early_interrupt := Some 3\<rparr>) = Some 3
   \<and> 3 < length (trace (state_of (startup (example_env\<lparr>early_interrupt := Some 3\<rparr>))))
   \<and> process (example_env\<lparr>early_interrupt := Some 3\<rparr>) =
        Killed_by_Interrupt (take 3 (trace (state_of (startup example_env))))
   \<and> stops_of (take 3 (trace (state_of (startup example_env)))) = []"
proof -
  have sig: "Interrupt \<in> set (signals example_env)" by (simp add: example_env_def)
  have pp: "pprof_serves example_env"
    unfolding pprof_serves_def effective_example by (simp add: example_flags_def)
  obtain st' where st: "startup example_env = Continue st'" using startup_example by blast
  from interrupt_stops_every_listener[where env = example_env, THEN conjunct2, THEN conjunct1,
         THEN spec, THEN mp, OF conjI[OF st conjI[OF sig pp]]]
  obtain st'' where m: "main example_env = Exit 0 st''"
      "trace st'' = trace st' @ Log ''Stopping Wavefront Proxy'' # map Stop (listeners st')"
      "starts_of (trace st') = listeners st'"
      "stops_of (trace st'') = starts_of (trace st'')" "distinct (stops_of (trace st''))"
    by blast
  have "listeners st' = expected_listeners (effective example_env) 0"
    using st unfolding startup_example_eq by auto
  then have ls: "starts_of (trace st'') =
           [\<lparr>Addr = 0, Port = 2878, Builder = GraphiteBuilder\<rparr>,
            \<lparr>Addr = 1, Port = 2879, Builder = GraphiteBuilder\<rparr>,
            \<lparr>Addr = 2, Port = 4242, Builder = OpenTSDBBuilder\<rparr>]"
    using m(2,3) by (simp add: starts_of_append starts_of_stops expected_example)
  have i: "Interrupt \<in> set [OtherSignal, Interrupt]" by simp
  note t1 = interrupt_stops_every_listener[where sigs = "[OtherSignal, Interrupt]"
              and st = "state_of (startup example_env)", THEN conjunct1, THEN mp, OF i]
  have w: "waitForShutdown [OtherSignal, Interrupt] (state_of (startup example_env)) =
        Exit 0 (state_of (main example_env))"
    using t1 unfolding main_example_eq startup_example_eq by simp
  have n: "\<forall>n. early_interrupt example_env = Some n \<longrightarrow>
              length (trace (state_of (startup example_env))) \<le> n"
    by (simp add: example_env_def)
  note t3 = interrupt_stops_every_listener[where env = example_env, THEN conjunct2, THEN conjunct2,
              THEN conjunct1, THEN mp, OF n]
  let ?envE = "example_env\<lparr>early_interrupt := Some 3\<rparr>"
  have e: "early_interrupt ?envE = Some 3 \<and> 3 < length (trace (state_of (startup ?envE)))"
    unfolding startup_early_interrupt startup_example_eq by (simp add: expected_example)
  note t4 = interrupt_stops_every_listener[where env = ?envE, THEN conjunct2, THEN conjunct2,
              THEN conjunct2, THEN conjunct1, THEN spec, THEN mp, OF e]
  show ?thesis
    using i w sig pp st m(1,4,5) ls t3 e t4
    unfolding startup_early_interrupt by (auto simp: example_env_def)
qed

text \<open>
  As stated, for every receipt of an interrupt, the claim fails. In the first run
  below the interrupt reaches the process when start-up has made three calls, the
  third of which has started a listener: no channel is registered yet, the process
  ends, and the listener is not stopped. In the second run a pprof server is
  configured; start-up completes, the interrupt arrives on the channel and
  \<open>waitForShutdown\<close> has stopped the first of the three listeners when
  \<open>http.ListenAndServe\<close> returns an error: the goroutine's \<open>log.Fatal\<close> ends the
  process with status 1 and two started listeners are never stopped.
\<close>

theorem interrupt_stops_every_listener_counterexample:
  "process (example_env\<lparr>early_interrupt := Some 3\<rparr>) =
     Killed_by_Interrupt
       [Log ''Starting Wavefront Proxy Version 4.2'',
        InitAgent ''agent-1''
          \<lparr>ServerURL = ''https://metrics.example.com/api/'', AgentID = ''agent-1'',
           ApiHostname = ''collector-1'', ApiToken = ''t0ken'', ApiVersion = ''4.2''\<rparr>
          ''https://metrics.example.com/api/'',
        Start \<lparr>Addr = 0, Port = 2878, Builder = GraphiteBuilder\<rparr> 2 1000 100000 40000
          FormatGraphiteV2 GraphiteBlockWorkUnit
          \<lparr>ServerURL = ''https://metrics.example.com/api/'', AgentID = ''agent-1'',
           ApiHostname = ''collector-1'', ApiToken = ''t0ken'', ApiVersion = ''4.2''\<rparr>]
   \<and> Interrupt \<in> set (signals (failing_pprof_env 6 ''accept tcp 127.0.0.1:6060: use of closed network connection''))
   \<and> main (failing_pprof_env 6 ''accept tcp 127.0.0.1:6060: use of closed network connection'') =
        Exit 1 (state_of (main
          (failing_pprof_env 6 ''accept tcp 127.0.0.1:6060: use of closed network connection'')))
   \<and> starts_of (trace (state_of (main
          (failing_pprof_env 6 ''accept tcp 127.0.0.1:6060: use of closed network connection'')))) =
        [\<lparr>Addr = 0, Port = 2878, Builder = GraphiteBuilder\<rparr>,
         \<lparr>Addr = 1, Port = 2879, Builder = GraphiteBuilder\<rparr>,
         \<lparr>Addr = 2, Port = 4242, Builder = OpenTSDBBuilder\<rparr>]
   \<and> stops_of (trace (state_of (main
          (failing_pprof_env 6 ''accept tcp 127.0.0.1:6060: use of closed network connection'')))) =
        [\<lparr>Addr = 0, Port = 2878, Builder = GraphiteBuilder\<rparr>]
   \<and> drop 6 (trace (state_of (main
          (failing_pprof_env 6 ''accept tcp 127.0.0.1:6060: use of closed network connection'')))) =
        [Log ''Stopping Wavefront Proxy'', Stop \<lparr>Addr = 0, Port = 2878, Builder = GraphiteBuilder\<rparr>,
         Log ''accept tcp 127.0.0.1:6060: use of closed network connection'']"
proof -
  let ?envE = "example_env\<lparr>early_interrupt := Some 3\<rparr>"
  let ?envP = "failing_pprof_env 6 ''accept tcp 127.0.0.1:6060: use of closed network connection''"
  have e: "process ?envE = Killed_by_Interrupt (take 3 (trace (state_of (startup example_env))))"
    unfolding process_def startup_early_interrupt startup_example_eq
    by (simp add: expected_example)
  have t: "take 3 (trace (state_of (startup example_env))) =
       [Log ''Starting Wavefront Proxy Version 4.2'',
        InitAgent ''agent-1''
          \<lparr>ServerURL = ''https://metrics.example.com/api/'', AgentID = ''agent-1'',
           ApiHostname = ''collector-1'', ApiToken = ''t0ken'', ApiVersion = ''4.2''\<rparr>
          ''https://metrics.example.com/api/'',
        Start \<lparr>Addr = 0, Port = 2878, Builder = GraphiteBuilder\<rparr> 2 1000 100000 40000
          FormatGraphiteV2 GraphiteBlockWorkUnit
          \<lparr>ServerURL = ''https://metrics.example.com/api/'', AgentID = ''agent-1'',
           ApiHostname = ''collector-1'', ApiToken = ''t0ken'', ApiVersion = ''4.2''\<rparr>]"
    unfolding startup_example_eq expected_example service_example
    by (simp add: start_event_def example_flags_def)
  have p: "Interrupt \<in> set (signals ?envP)" by (simp add: failing_pprof_simps)
  have m: "main ?envP = Exit 1 (state_of (main ?envP))"
      "starts_of (trace (state_of (main ?envP))) =
        [\<lparr>Addr = 0, Port = 2878, Builder = GraphiteBuilder\<rparr>,
         \<lparr>Addr = 1, Port = 2879, Builder = GraphiteBuilder\<rparr>,
         \<lparr>Addr = 2, Port = 4242, Builder = OpenTSDBBuilder\<rparr>]"
      "stops_of (trace (state_of (main ?envP))) =
        [\<lparr>Addr = 0, Port = 2878, Builder = GraphiteBuilder\<rparr>]"
      "drop 6 (trace (state_of (main ?envP))) =
        [Log ''Stopping Wavefront Proxy'', Stop \<lparr>Addr = 0, Port = 2878, Builder = GraphiteBuilder\<rparr>,
         Log ''accept tcp 127.0.0.1:6060: use of closed network connection'']"
    unfolding main_failing_pprof_6 expected_example
    by (simp_all add: start_event_def)
  show ?thesis using e t p m by simp
qed

subsection \<open>The configuration file\<close>

text \<open>
  \<^bold>\<open>C6\<close>. When the configuration file loads, \<open>parseCfg\<close> replaces the token, the
  server URL, the host name, both port lists, the flush thread count, the flush
  interval, the maximal points per flush, the buffer limit, the id file, the log file
  and the pprof address by the values of the file, whatever they are, and leaves only
  the \<open>-config\<close> and \<open>-version\<close> flags as parsed. These are the values
  \<open>checkFlags\<close> goes on with when a file is named (only an empty host name is then
  resolved by \<open>checkHostname\<close>): a file with an empty token ends the run with
  \<open>Missing token\<close> whatever token the command line gave.
\<close>

theorem config_file_overrides_flags:
  "(\<forall>c. LoadConfig env filename = Inr c \<longrightarrow>
      parseCfg env filename st =
        Continue (st\<lparr>flags :=
          \<lparr>fCfgPtr = fCfgPtr (flags st), fTokenPtr = Token c, fServerPtr = Server c,
           fHostnamePtr = Hostname c, fWavefrontPortsPtr = PushListenerPorts c,
           fOpenTSDBPortsPtr = OpenTSDBPorts c, fFlushThreadsPtr = FlushThreads c,
           fFlushIntervalPtr = PushFlushInterval c, fFlushMaxPointsPtr = PushFlushMaxPoints c,
           fMaxBufferSizePtr = PushMemoryBufferLimit c, fIdFilePtr = IdFile c,
           fLogFilePtr = LogFile c, fPprofAddr = PprofAddr c,
           fVersionPtr = fVersionPtr (flags st)\<rparr>\<rparr>))
   \<and> (\<forall>c. fCfgPtr (args env) \<noteq> [] \<and> LoadConfig env (fCfgPtr (args env)) = Inr c \<longrightarrow>
        effective env =
          \<lparr>fCfgPtr = fCfgPtr (args env), fTokenPtr = Token c, fServerPtr = Server c,
           fHostnamePtr = Hostname c, fWavefrontPortsPtr = PushListenerPorts c,
           fOpenTSDBPortsPtr = OpenTSDBPorts c, fFlushThreadsPtr = FlushThreads c,
           fFlushIntervalPtr = PushFlushInterval c, fFlushMaxPointsPtr = PushFlushMaxPoints c,
           fMaxBufferSizePtr = PushMemoryBufferLimit c, fIdFilePtr = IdFile c,
           fLogFilePtr = LogFile c, fPprofAddr = PprofAddr c,
           fVersionPtr = fVersionPtr (args env)\<rparr>)
   \<and> (\<forall>st1. checkFlags env (initial env) = Continue st1 \<longrightarrow>
        flags st1 = (effective env)\<lparr>fHostnamePtr := effective_hostname env\<rparr>)
   \<and> (\<forall>c. fCfgPtr (args env) \<noteq> [] \<and> LoadConfig env (fCfgPtr (args env)) = Inr c \<and>
        \<not> fVersionPtr (args env) \<and> Token c = [] \<longrightarrow>
        (\<exists>st'. checkFlags env (initial env) = Exit 1 st' \<and>
           trace st' = [Log ''Missing token'', Usage]))"
proof -
  have p: "parseCfg env filename st =
        Continue (st\<lparr>flags :=
          \<lparr>fCfgPtr = fCfgPtr (flags st), fTokenPtr = Token c, fServerPtr = Server c,
           fHostnamePtr = Hostname c, fWavefrontPortsPtr = PushListenerPorts c,
           fOpenTSDBPortsPtr = OpenTSDBPorts c, fFlushThreadsPtr = FlushThreads c,
           fFlushIntervalPtr = PushFlushInterval c, fFlushMaxPointsPtr = PushFlushMaxPoints c,
           fMaxBufferSizePtr = PushMemoryBufferLimit c, fIdFilePtr = IdFile c,
           fLogFilePtr = LogFile c, fPprofAddr = PprofAddr c,
           fVersionPtr = fVersionPtr (flags st)\<rparr>\<rparr>)"
    if "LoadConfig env filename = Inr c" for c filename st
    using that by (cases "flags st") (simp add: parseCfg_def)
  have e: "effective env =
          \<lparr>fCfgPtr = fCfgPtr (args env), fTokenPtr = Token c, fServerPtr = Server c,
           fHostnamePtr = Hostname c, fWavefrontPortsPtr = PushListenerPorts c,
           fOpenTSDBPortsPtr = OpenTSDBPorts c, fFlushThreadsPtr = FlushThreads c,
           fFlushIntervalPtr = PushFlushInterval c, fFlushMaxPointsPtr = PushFlushMaxPoints c,
           fMaxBufferSizePtr = PushMemoryBufferLimit c, fIdFilePtr = IdFile c,
           fLogFilePtr = LogFile c, fPprofAddr = PprofAddr c,
           fVersionPtr = fVersionPtr (args env)\<rparr>"
    if "fCfgPtr (args env) \<noteq> []" "LoadConfig env (fCfgPtr (args env)) = Inr c" for c
    using that p[OF that(2), of "initial env"]
    by (simp add: effective_def afterConfig_def initial_simps)
  have t: "\<exists>st'. checkFlags env (initial env) = Exit 1 st' \<and>
           trace st' = [Log ''Missing token'', Usage]"
    if "fCfgPtr (args env) \<noteq> []" "LoadConfig env (fCfgPtr (args env)) = Inr c"
       "\<not> fVersionPtr (args env)" "Token c = []" for c
    using that p[OF that(2), of "initial env"]
    by (simp add: checkFlags_alt afterConfig_def initial_simps andThen_def
          checkRequiredFlag_def emit_def)
  show ?thesis using p e t checkFlags_Continue_effective by blast
qed

theorem config_file_overrides_flags_witness:
  "LoadConfig example_env ''proxy.conf'' = Inr example_config
   \<and> fTokenPtr (args (example_env\<lparr>args := example_flags\<lparr>fCfgPtr := ''proxy.conf''\<rparr>\<rparr>)) = ''t0ken''
   \<and> fTokenPtr (effective (example_env\<lparr>args := example_flags\<lparr>fCfgPtr := ''proxy.conf''\<rparr>\<rparr>))
        = ''file-token''
   \<and> fOpenTSDBPortsPtr (args (example_env\<lparr>args := example_flags\<lparr>fCfgPtr := ''proxy.conf''\<rparr>\<rparr>))
        = ''4242''
   \<and> fOpenTSDBPortsPtr (effective (example_env\<lparr>args := example_flags\<lparr>fCfgPtr := ''proxy.conf''\<rparr>\<rparr>))
        = []
   \<and> (\<exists>st'. checkFlags
          (example_env\<lparr>args := example_flags\<lparr>fCfgPtr := ''proxy.conf''\<rparr>,
                       LoadConfig := \<lambda>filename. Inr (example_config\<lparr>Token := []\<rparr>)\<rparr>)
          (initial (example_env\<lparr>args := example_flags\<lparr>fCfgPtr := ''proxy.conf''\<rparr>,
                       LoadConfig := \<lambda>filename. Inr (example_config\<lparr>Token := []\<rparr>)\<rparr>))
          = Exit 1 st' \<and> trace st' = [Log ''Missing token'', Usage])"
proof -
  let ?env = "example_env\<lparr>args := example_flags\<lparr>fCfgPtr := ''proxy.conf''\<rparr>\<rparr>"
  let ?env' = "example_env\<lparr>args := example_flags\<lparr>fCfgPtr := ''proxy.conf''\<rparr>,
                       LoadConfig := \<lambda>filename. Inr (example_config\<lparr>Token := []\<rparr>)\<rparr>"
  have h: "fCfgPtr (args ?env) \<noteq> [] \<and> LoadConfig ?env (fCfgPtr (args ?env)) = Inr example_config"
    by (simp add: example_defs)
  have h': "fCfgPtr (args ?env') \<noteq> [] \<and>
            LoadConfig ?env' (fCfgPtr (args ?env')) = Inr (example_config\<lparr>Token := []\<rparr>) \<and>
            \<not> fVersionPtr (args ?env') \<and> Token (example_config\<lparr>Token := []\<rparr>) = []"
    by (simp add: example_defs)
  note t2 = config_file_overrides_flags[of ?env, THEN conjunct2, THEN conjunct1,
              THEN spec, THEN mp, OF h]
  note t4 = config_file_overrides_flags[of ?env', THEN conjunct2, THEN conjunct2, THEN conjunct2,
              THEN spec, THEN mp, OF h']
  have l: "LoadConfig example_env ''proxy.conf'' = Inr example_config"
    by (simp add: example_env_def)
  show ?thesis using l t4 unfolding t2 by (simp add: example_defs)
qed

subsection \<open>The host name\<close>

text \<open>
  \<^bold>\<open>C10\<close>. \<open>checkHostname\<close> leaves a non-empty configured host name unchanged; an
  empty one it replaces by the host name of the operating system, and ends the process
  with status 1 when that cannot be resolved. The host name so obtained is the one in
  the service handed to the agent and to every listener of the run; when it is needed
  and cannot be resolved, start-up ends and no service is handed out.
\<close>

theorem hostname_defaults_to_os:
  "(fHostnamePtr (flags st) \<noteq> [] \<longrightarrow> checkHostname env st = Continue st)
   \<and> (\<forall>h. fHostnamePtr (flags st) = [] \<and> os_Hostname env = Inr h \<longrightarrow>
         checkHostname env st = Continue (st\<lparr>flags := (flags st)\<lparr>fHostnamePtr := h\<rparr>\<rparr>))
   \<and> (\<forall>e. fHostnamePtr (flags st) = [] \<and> os_Hostname env = Inl e \<longrightarrow>
         checkHostname env st = Exit 1 (emit (Log ''Error resolving hostname'') st))
   \<and> (\<forall>svc \<in> set (services_of (trace (state_of (main env)))).
         ApiHostname svc = effective_hostname env)
   \<and> (fHostnamePtr (effective env) \<noteq> [] \<longrightarrow>
         effective_hostname env = fHostnamePtr (effective env))
   \<and> (\<forall>h. fHostnamePtr (effective env) = [] \<and> os_Hostname env = Inr h \<longrightarrow>
         effective_hostname env = h)
   \<and> (\<forall>e. fHostnamePtr (effective env) = [] \<and> os_Hostname env = Inl e \<longrightarrow>
         ends (startup env) \<and> services_of (trace (state_of (main env))) = [])"
proof -
  have c1: "fHostnamePtr (flags st) \<noteq> [] \<longrightarrow> checkHostname env st = Continue st"
    by (simp add: checkHostname_def)
  have c2: "\<forall>h. fHostnamePtr (flags st) = [] \<and> os_Hostname env = Inr h \<longrightarrow>
         checkHostname env st = Continue (st\<lparr>flags := (flags st)\<lparr>fHostnamePtr := h\<rparr>\<rparr>)"
    by (simp add: checkHostname_def)
  have c3: "\<forall>e. fHostnamePtr (flags st) = [] \<and> os_Hostname env = Inl e \<longrightarrow>
         checkHostname env st = Exit 1 (emit (Log ''Error resolving hostname'') st)"
    by (simp add: checkHostname_def log_Fatal_def)
  let ?fl = "(effective env)\<lparr>fHostnamePtr := effective_hostname env\<rparr>"
  have ok: "started_ok (service_of env ?fl) (state_of (startup env))"
    by (rule startup_started_ok)
  have c4: "\<forall>svc \<in> set (services_of (trace (state_of (main env)))).
         ApiHostname svc = effective_hostname env"
  proof
    fix svc assume "svc \<in> set (services_of (trace (state_of (main env))))"
    then have "svc \<in> {service_of env ?fl}"
      using ok unfolding main_services started_ok_def by blast
    then show "ApiHostname svc = effective_hostname env" by (simp add: service_of_def)
  qed
  have c5: "fHostnamePtr (effective env) \<noteq> [] \<longrightarrow>
         effective_hostname env = fHostnamePtr (effective env)"
    by (simp add: effective_hostname_def)
  have c6: "\<forall>h. fHostnamePtr (effective env) = [] \<and> os_Hostname env = Inr h \<longrightarrow>
         effective_hostname env = h"
    by (simp add: effective_hostname_def)
  have c7: "ends (startup env) \<and> services_of (trace (state_of (main env))) = []"
    if h: "fHostnamePtr (effective env) = []" "os_Hostname env = Inl e" for e
  proof -
    have no: "checkFlags env (initial env) \<noteq> Continue st1" for st1
    proof
      assume "checkFlags env (initial env) = Continue st1"
      then obtain s1 s2 where s: "afterConfig env (initial env) = Continue s1"
          "checkHostname env s1 = Continue s2"
        unfolding checkFlags_Continue_iff by blast
      from s(1) have "flags s1 = effective env" by (simp add: effective_def)
      with h s(2) show False by (simp add: checkHostname_def log_Fatal_def)
    qed
    then have q: "ends (startup env)" "quiet (initial env) (state_of (startup env))"
      using startup_state[of env] by auto
    show ?thesis
      using q(1) quiet_initial_started_ok(5)[OF q(2)] unfolding main_services by simp
  qed
  show ?thesis using c1 c2 c3 c4 c5 c6 c7 by blast
qed

theorem hostname_defaults_to_os_witness:
  "fHostnamePtr (effective example_env) = [] \<and> os_Hostname example_env = Inr ''collector-1''
   \<and> effective_hostname example_env = ''collector-1''
   \<and> \<lparr>ServerURL = ''https://metrics.example.com/api/'', AgentID = ''agent-1'',
       ApiHostname = ''collector-1'', ApiToken = ''t0ken'', ApiVersion = ''4.2''\<rparr>
        \<in> set (services_of (trace (state_of (main example_env))))
   \<and> fHostnamePtr (flags (initial example_env)) = []
   \<and> checkHostname example_env (initial example_env) =
        Continue ((initial example_env)\<lparr>flags := (flags (initial example_env))
                    \<lparr>fHostnamePtr := ''collector-1''\<rparr>\<rparr>)
   \<and> fHostnamePtr (effective (example_env\<lparr>os_Hostname := Inl ''no hostname''\<rparr>)) = []
   \<and> ends (startup (example_env\<lparr>os_Hostname := Inl ''no hostname''\<rparr>))
   \<and> fHostnamePtr (effective (example_env\<lparr>args := example_flags\<lparr>fHostnamePtr := ''edge-3''\<rparr>\<rparr>))
        = ''edge-3''
   \<and> effective_hostname (example_env\<lparr>args := example_flags\<lparr>fHostnamePtr := ''edge-3''\<rparr>\<rparr>)
        = ''edge-3''"
proof -
  let ?env2 = "example_env\<lparr>os_Hostname := Inl ''no hostname''\<rparr>"
  let ?env3 = "example_env\<lparr>args := example_flags\<lparr>fHostnamePtr := ''edge-3''\<rparr>\<rparr>"
  have a: "fHostnamePtr (effective example_env) = [] \<and> os_Hostname example_env = Inr ''collector-1''"
    unfolding effective_example by (simp add: example_defs)
  have b: "fHostnamePtr (flags (initial example_env)) = [] \<and>
           os_Hostname example_env = Inr ''collector-1''"
    by (simp add: initial_def example_defs)
  have c: "fHostnamePtr (effective ?env2) = [] \<and> os_Hostname ?env2 = Inl ''no hostname''"
    by (simp add: effective_def afterConfig_def initial_def example_defs)
  have d: "fHostnamePtr (effective ?env3) \<noteq> []"
    by (simp add: effective_def afterConfig_def initial_def example_defs)
  have d': "fHostnamePtr (effective ?env3) = ''edge-3''"
    by (simp add: effective_def afterConfig_def initial_def example_defs)
  have mem: "\<lparr>ServerURL = ''https://metrics.example.com/api/'', AgentID = ''agent-1'',
       ApiHostname = ''collector-1'', ApiToken = ''t0ken'', ApiVersion = ''4.2''\<rparr>
        \<in> set (services_of (trace (state_of (main example_env))))"
    unfolding main_example_eq service_example by simp
  note t2 = hostname_defaults_to_os[of "initial example_env" example_env,
              THEN conjunct2, THEN conjunct1, THEN spec, THEN mp, OF b]
  note t4 = hostname_defaults_to_os[where env = example_env,
              THEN conjunct2, THEN conjunct2, THEN conjunct2, THEN conjunct1, THEN bspec, OF mem]
  note t5 = hostname_defaults_to_os[where env = ?env3,
              THEN conjunct2, THEN conjunct2, THEN conjunct2, THEN conjunct2, THEN conjunct1,
              THEN mp, OF d]
  note t7 = hostname_defaults_to_os[where env = ?env2,
              THEN conjunct2, THEN conjunct2, THEN conjunct2, THEN conjunct2, THEN conjunct2,
              THEN conjunct2, THEN spec, THEN mp, OF c]
  show ?thesis using a b c d' mem t2 t4 t5 t7 by simp
qed

end
